(* ===== verification/Prelude.thy ===== *)
theory Prelude
  imports Main "HOL-Library.Finite_Map" "HOL-Library.Word" "HOL-Library.Sublist"
    "HOL-Library.List_Lexorder" "HOL-Library.Char_ord" "HOL-Library.Multiset"
begin

text \<open>
  What every component theory shares: the pieces of the Go runtime and of the Go standard
  library that the control plane calls, and the generic lemmas about them.

  \<^item> A Go \<^verbatim>\<open>string\<close> is a byte string, the type \<^typ>\<open>string\<close>. The functions of package
    \<^verbatim>\<open>strings\<close> and \<^verbatim>\<open>strconv\<close> that the source calls are defined below under their Go names.
  \<^item> A Go \<^verbatim>\<open>map\<close> is a finite map; \<^verbatim>\<open>for k, v := range m\<close> visits the keys in an order that
    the runtime chooses, so a loop whose result may depend on the order takes the order as
    an argument, restricted by \<open>is_range\<close>.
  \<^item> A possibly \<^verbatim>\<open>nil\<close> map, set, slice or pointer is an option, with \<^const>\<open>None\<close> for
    \<^verbatim>\<open>nil\<close>, wherever the source distinguishes \<^verbatim>\<open>nil\<close> from empty.
  \<^item> \<^verbatim>\<open>time.Time\<close> is the number of nanoseconds since the Unix epoch, an \<^typ>\<open>int\<close>.
  \<^item> A run-time panic is a value of type \<open>panic\<close>, an \<^verbatim>\<open>error\<close> a value of type \<open>err\<close>.
\<close>

named_theorems go_string \<open>rewriting Go string operations\<close>
named_theorems go_set \<open>rewriting Go set operations to finite sets\<close>

section \<open>Panics, errors, time\<close>

datatype panic = NilDeref | NilMapWrite | TypeAssertion

datatype code = InvalidArgument | PermissionDenied | Unauthenticated | Unavailable
  | ResourceExhausted | Unimplemented | DeadlineExceeded

datatype err = Status code string | Errorf string

type_synonym time = int

text \<open>The zero \<^verbatim>\<open>time.Time\<close> is January 1 of year 1, 62135596800 seconds before the epoch.\<close>

definition zero_time :: time where
  "zero_time = - 62135596800000000000"

definition IsZero :: "time \<Rightarrow> bool" where
  "IsZero t \<longleftrightarrow> t = zero_time"

section \<open>Package strings\<close>

definition HasPrefix :: "string \<Rightarrow> string \<Rightarrow> bool" where
  "HasPrefix s p \<longleftrightarrow> take (length p) s = p"

definition HasSuffix :: "string \<Rightarrow> string \<Rightarrow> bool" where
  "HasSuffix s p \<longleftrightarrow> length p \<le> length s \<and> drop (length s - length p) s = p"

fun Contains_str :: "string \<Rightarrow> string \<Rightarrow> bool" where
  "Contains_str [] p = (p = [])"
| "Contains_str (c # s) p = (HasPrefix (c # s) p \<or> Contains_str s p)"

fun Cut :: "string \<Rightarrow> string \<Rightarrow> string \<times> string \<times> bool" where
  "Cut [] sep = (if sep = [] then ([], [], True) else ([], [], False))"
| "Cut (c # s) sep =
     (if HasPrefix (c # s) sep then ([], drop (length sep) (c # s), True)
      else case Cut s sep of (before, after, found) \<Rightarrow>
        if found then (c # before, after, True) else (c # s, [], False))"

text \<open>\<^verbatim>\<open>strings.Split\<close>, \<^verbatim>\<open>strings.SplitN\<close> and \<^verbatim>\<open>strings.LastIndex\<close> for a separator of one byte.\<close>

fun Split :: "string \<Rightarrow> char \<Rightarrow> string list" where
  "Split [] c = [[]]"
| "Split (x # s) c =
     (if x = c then [] # Split s c
      else case Split s c of [] \<Rightarrow> [[x]] | p # ps \<Rightarrow> (x # p) # ps)"

fun SplitN :: "string \<Rightarrow> char \<Rightarrow> nat \<Rightarrow> string list" where
  "SplitN s c 0 = []"
| "SplitN s c (Suc 0) = [s]"
| "SplitN s c (Suc (Suc n)) =
     (case Cut s [c] of (before, after, found) \<Rightarrow>
        if found then before # SplitN after c (Suc n) else [s])"

fun LastIndex :: "string \<Rightarrow> char \<Rightarrow> int" where
  "LastIndex [] c = -1"
| "LastIndex (x # s) c =
     (let i = LastIndex s c in if 0 \<le> i then i + 1 else if x = c then 0 else -1)"

definition TrimPrefix :: "string \<Rightarrow> string \<Rightarrow> string" where
  "TrimPrefix s p = (if HasPrefix s p then drop (length p) s else s)"

fun Join :: "string list \<Rightarrow> string \<Rightarrow> string" where
  "Join [] sep = []"
| "Join [s] sep = s"
| "Join (s # t # ss) sep = s @ sep @ Join (t # ss) sep"

lemma HasPrefix_iff [go_string]: "HasPrefix s p \<longleftrightarrow> prefix p s"
  by (auto simp: HasPrefix_def prefix_def) (metis append_take_drop_id)

lemma HasSuffix_iff [go_string]: "HasSuffix s p \<longleftrightarrow> suffix p s"
  by (auto simp: HasSuffix_def suffix_def) (metis append_take_drop_id)

lemma HasPrefix_single [simp]: "HasPrefix (x # s) [c] \<longleftrightarrow> x = c"
  by (simp add: HasPrefix_def)

lemma HasPrefix_Nil_single [simp]: "\<not> HasPrefix [] [c]"
  by (simp add: HasPrefix_def)

lemma Contains_single [simp, go_string]: "Contains_str s [c] \<longleftrightarrow> c \<in> set s"
  by (induction s) auto

lemma Cut_found [simp]: "c \<notin> set a \<Longrightarrow> Cut (a @ c # b) [c] = (a, b, True)"
  by (induction a) auto

lemma Cut_not_found: "c \<notin> set s \<Longrightarrow> Cut s [c] = (s, [], False)"
  by (induction s) auto

lemma Cut_found_iff: "snd (snd (Cut s [c])) \<longleftrightarrow> c \<in> set s"
  by (induction s) (auto split: prod.splits)

lemma Cut_cases:
  obtains "c \<notin> set s" "Cut s [c] = (s, [], False)"
  | a b where "s = a @ c # b" "c \<notin> set a" "Cut s [c] = (a, b, True)"
proof (cases "c \<in> set s")
  case True
  then obtain a b where "s = a @ c # b" "c \<notin> set a" by (meson split_list_first)
  then show ?thesis using that(2) by simp
next
  case False
  then show ?thesis using that(1) by (simp add: Cut_not_found)
qed

lemma LastIndex_none [simp]: "LastIndex s c = -1 \<longleftrightarrow> c \<notin> set s"
proof -
  have "(0 \<le> LastIndex s c \<or> LastIndex s c = -1) \<and> (LastIndex s c = -1 \<longleftrightarrow> c \<notin> set s)"
    by (induction s) (auto simp: Let_def)
  then show ?thesis by simp
qed

lemma LastIndex_append: "c \<notin> set b \<Longrightarrow> LastIndex (a @ c # b) c = int (length a)"
proof (induction a)
  case Nil
  then have "LastIndex b c = -1" by (rule LastIndex_none [THEN iffD2])
  then show ?case by (simp add: Let_def del: LastIndex_none)
next
  case (Cons x a)
  then show ?case by (simp add: Let_def)
qed

lemma Split_not_Nil [simp]: "Split s c \<noteq> []"
  by (induction s) (auto split: list.splits)

lemma Split_no_sep: "c \<notin> set s \<Longrightarrow> Split s c = [s]"
  by (induction s) auto

lemma Split_append: "c \<notin> set a \<Longrightarrow> Split (a @ c # b) c = a # Split b c"
  by (induction a) auto

lemma Join_Split: "Join (Split s c) [c] = s"
proof (induction s)
  case Nil
  then show ?case by simp
next
  case (Cons x s)
  obtain p ps where ps: "Split s c = p # ps" by (cases "Split s c") auto
  show ?case
    using Cons ps by (cases ps) auto
qed

lemma Split_no_sep_in: "p \<in> set (Split s c) \<Longrightarrow> c \<notin> set p"
proof (induction s arbitrary: p)
  case Nil
  then show ?case by simp
next
  case (Cons x s)
  obtain q ps where ps: "Split s c = q # ps" by (cases "Split s c") auto
  show ?case
    using Cons ps by (auto split: if_splits)
qed

section \<open>Package strconv\<close>

definition digit_char :: "nat \<Rightarrow> char" where
  "digit_char d = char_of (48 + d)"

definition is_digit :: "char \<Rightarrow> bool" where
  "is_digit c \<longleftrightarrow> 48 \<le> (of_char c :: nat) \<and> (of_char c :: nat) \<le> 57"

definition digit_val :: "char \<Rightarrow> nat" where
  "digit_val c = of_char c - 48"

fun decimal :: "nat \<Rightarrow> string" where
  "decimal n = (if n < 10 then [digit_char n] else decimal (n div 10) @ [digit_char (n mod 10)])"

declare decimal.simps [simp del]

definition Itoa :: "int \<Rightarrow> string" where
  "Itoa i = (if i < 0 then CHR ''-'' # decimal (nat (- i)) else decimal (nat i))"

definition maxUint64 :: nat where
  "maxUint64 = 18446744073709551615"

definition maxInt64 :: int where
  "maxInt64 = 9223372036854775807"

text \<open>
  The digit loop of \<^verbatim>\<open>strconv.ParseUint\<close> at base 10 and 64 bits. It stops at the first
  overflow with the largest value, before it looks at the bytes that follow, and fails
  (\<^const>\<open>None\<close>) at a byte that is not a digit.
\<close>

fun ParseUint :: "nat \<Rightarrow> string \<Rightarrow> nat option" where
  "ParseUint n [] = Some n"
| "ParseUint n (c # cs) =
     (if \<not> is_digit c then None
      else if maxUint64 div 10 + 1 \<le> n then Some maxUint64
      else if maxUint64 < n * 10 + digit_val c then Some maxUint64
      else ParseUint (n * 10 + digit_val c) cs)"

text \<open>
  \<^verbatim>\<open>strconv.Atoi\<close>: the value and whether the error is nil. A syntax error gives 0, a range
  error the nearest 64-bit integer.
\<close>

definition Atoi :: "string \<Rightarrow> int \<times> bool" where
  "Atoi s =
     (let (neg, ds) =
        (case s of [] \<Rightarrow> (False, [])
         | c # cs \<Rightarrow> if c = CHR ''-'' then (True, cs) else if c = CHR ''+'' then (False, cs)
                     else (False, s))
      in if ds = [] then (0, False)
         else case ParseUint 0 ds of
           None \<Rightarrow> (0, False)
         | Some n \<Rightarrow>
             if neg then (if int n \<le> maxInt64 + 1 then (- int n, True) else (- maxInt64 - 1, False))
             else (if int n \<le> maxInt64 then (int n, True) else (maxInt64, False)))"

lemma of_char_digit_char: "d < 10 \<Longrightarrow> (of_char (digit_char d) :: nat) = 48 + d"
  by (simp add: digit_char_def)

lemma is_digit_digit_char [simp]: "d < 10 \<Longrightarrow> is_digit (digit_char d)"
  by (simp add: is_digit_def of_char_digit_char)

lemma digit_val_digit_char [simp]: "d < 10 \<Longrightarrow> digit_val (digit_char d) = d"
  by (simp add: digit_val_def of_char_digit_char)

lemma is_digit_not_sign:
  "is_digit c \<Longrightarrow> c \<noteq> CHR ''-'' \<and> c \<noteq> CHR ''+'' \<and> c \<noteq> CHR ''|'' \<and> c \<noteq> CHR '':'' \<and> c \<noteq> CHR ''/''"
  by (auto simp: is_digit_def)

lemma decimal_digits: "c \<in> set (decimal n) \<Longrightarrow> is_digit c"
proof (induction n rule: decimal.induct)
  case (1 n)
  then show ?case
    by (subst (asm) decimal.simps) (auto split: if_splits)
qed

lemma decimal_not_Nil [simp]: "decimal n \<noteq> []"
  by (subst decimal.simps) simp

lemma ParseUint_append:
  "ParseUint n a = Some m \<Longrightarrow> m < maxUint64 \<Longrightarrow> ParseUint n (a @ b) = ParseUint m b"
  by (induction n a rule: ParseUint.induct) (auto split: if_splits)

lemma ParseUint_decimal: "n < maxUint64 \<Longrightarrow> ParseUint 0 (decimal n) = Some n"
proof (induction n rule: decimal.induct)
  case (1 n)
  show ?case
  proof (cases "n < 10")
    case True
    then show ?thesis by (subst decimal.simps) (simp add: maxUint64_def)
  next
    case False
    then have small: "n div 10 < maxUint64" using "1.prems" by linarith
    have "ParseUint 0 (decimal (n div 10) @ [digit_char (n mod 10)])
        = ParseUint (n div 10) [digit_char (n mod 10)]"
      using "1.IH" [OF False small] small by (rule ParseUint_append)
    also have "\<dots> = Some n"
      using "1.prems" by (auto simp: maxUint64_def)
    finally show ?thesis using False by (subst decimal.simps) simp
  qed
qed

lemma ParseUint_decimal_int:
  assumes "0 \<le> i" and "i \<le> maxInt64 + 1"
  shows "ParseUint 0 (decimal (nat i)) = Some (nat i)"
proof (rule ParseUint_decimal)
  show "nat i < maxUint64" using assms unfolding maxInt64_def maxUint64_def by linarith
qed

lemma Atoi_Itoa:
  assumes "- maxInt64 - 1 \<le> i" and "i \<le> maxInt64"
  shows "Atoi (Itoa i) = (i, True)"
proof (cases "i < 0")
  case True
  then have "0 \<le> - i" and le: "- i \<le> maxInt64 + 1" using assms by linarith+
  then have "ParseUint 0 (decimal (nat (- i))) = Some (nat (- i))" by (rule ParseUint_decimal_int)
  then show ?thesis using True le by (simp add: Atoi_def Itoa_def)
next
  case False
  then have "0 \<le> i" and "i \<le> maxInt64 + 1" using assms by linarith+
  then have p: "ParseUint 0 (decimal (nat i)) = Some (nat i)" by (rule ParseUint_decimal_int)
  obtain c cs where c: "decimal (nat i) = c # cs" by (cases "decimal (nat i)") auto
  then have "is_digit c" using decimal_digits [of c "nat i"] by simp
  then have "c \<noteq> CHR ''-''" "c \<noteq> CHR ''+''" using is_digit_not_sign by blast+
  then show ?thesis using False p c assms(2) by (simp add: Atoi_def Itoa_def del: ParseUint.simps)
qed

lemma Itoa_chars: "c \<in> set (Itoa i) \<Longrightarrow> is_digit c \<or> c = CHR ''-''"
  by (auto simp: Itoa_def dest: decimal_digits split: if_splits)

lemma Itoa_no_bar [simp]: "CHR ''|'' \<notin> set (Itoa i)"
  using Itoa_chars [of "CHR ''|''" i] is_digit_not_sign by auto

section \<open>Maps, sets and iteration orders\<close>

text \<open>
  \<open>is_range ks K\<close>: a \<^verbatim>\<open>range\<close> loop over a map with key set \<open>K\<close> may visit the keys in the
  order \<open>ks\<close>. Every key is visited once, and nothing more is known of the order.
\<close>

definition is_range :: "'k list \<Rightarrow> 'k fset \<Rightarrow> bool" where
  "is_range ks K \<longleftrightarrow> distinct ks \<and> fset_of_list ks = K"

lemma is_range_set: "is_range ks K \<Longrightarrow> set ks = fset K"
  by (auto simp: is_range_def fset_of_list.rep_eq)

lemma is_range_distinct: "is_range ks K \<Longrightarrow> distinct ks"
  by (simp add: is_range_def)

lemma is_range_Nil [simp]: "is_range [] K \<longleftrightarrow> K = {||}"
  by (auto simp: is_range_def)

lemma is_range_empty [simp]: "is_range ks {||} \<longleftrightarrow> ks = []"
  by (cases ks) (auto simp: is_range_def)

lemma is_range_exists: "\<exists>ks. is_range ks K"
proof -
  obtain ks where "set ks = fset K" "distinct ks"
    using finite_distinct_list [OF finite_fset, of K] by metis
  then have "fset_of_list ks = K"
    by (intro fset_inject [THEN iffD1]) (simp add: fset_of_list.rep_eq)
  with \<open>distinct ks\<close> have "is_range ks K" by (simp add: is_range_def)
  then show ?thesis ..
qed

definition fm_len :: "('k, 'v) fmap \<Rightarrow> nat" where
  "fm_len m = fcard (fmdom m)"

lemma fmdom_empty_iff: "fmdom m = {||} \<longleftrightarrow> m = fmempty"
proof
  assume "fmdom m = {||}"
  then show "m = fmempty" using fmrestrict_fset_dom [of m] by simp
qed simp

lemma fm_len_0 [simp]: "fm_len m = 0 \<longleftrightarrow> m = fmempty"
  by (simp add: fm_len_def fmdom_empty_iff)

lemma fm_len_pos [simp]: "0 < fm_len m \<longleftrightarrow> m \<noteq> fmempty"
  using fm_len_0 [of m] neq0_conv by blast

section \<open>Computations that may panic\<close>

text \<open>
  A computation of type \<open>panic + 'a\<close> panics or returns normally; the next statement only runs after
  a normal return.
\<close>

definition bind_panic :: "panic + 'a \<Rightarrow> ('a \<Rightarrow> panic + 'b) \<Rightarrow> panic + 'b" where
  "bind_panic m f = (case m of Inl p \<Rightarrow> Inl p | Inr x \<Rightarrow> f x)"

lemma bind_panic_simps [simp]: "bind_panic (Inl p) f = Inl p" "bind_panic (Inr x) f = f x"
  by (simp_all add: bind_panic_def)

lemma bind_panic_Inr: "bind_panic m f = Inr y \<longleftrightarrow> (\<exists>x. m = Inr x \<and> f x = Inr y)"
  by (cases m) auto

lemma map_bind_panic: "map_sum id g (bind_panic m f) = bind_panic m (\<lambda>x. map_sum id g (f x))"
  by (cases m) simp_all

lemma bind_map_panic: "bind_panic (map_sum id g m) f = bind_panic m (\<lambda>x. f (g x))"
  by (cases m) simp_all

end
