(* ===== verification/HostNames.thy ===== *)
theory HostNames
  imports Prelude
begin

text \<open>
  Host names and the names built from them: \<^verbatim>\<open>pkg/config/host/name.go\<close> (wildcard host names)
  and the cluster names \<^verbatim>\<open>direction|port|subset|hostname\<close> of
  \<^verbatim>\<open>dubbod/discovery/pkg/model/service.go\<close>. The first part shows that \<^verbatim>\<open>Matches\<close> and
  \<^verbatim>\<open>SubsetOf\<close> decide overlap and inclusion of the sets of hosts two names stand for; the
  second that cluster names are parsed back to what they were built from.
\<close>

section \<open>Host names\<close>

type_synonym host_name = string

definition IsWildCarded :: "host_name \<Rightarrow> bool" where
  "IsWildCarded n \<longleftrightarrow> (case n of [] \<Rightarrow> False | c # _ \<Rightarrow> c = CHR ''*'')"

text \<open>\<^verbatim>\<open>n[1:]\<close> is only taken of a wildcarded, hence nonempty, name.\<close>

definition Matches :: "host_name \<Rightarrow> host_name \<Rightarrow> bool" where
  "Matches n o' =
     (let hWildcard = IsWildCarded n; oWildcard = IsWildCarded o'
      in if hWildcard then
           if oWildcard then
             if length n < length o' then HasSuffix (drop 1 o') (drop 1 n)
             else HasSuffix (drop 1 n) (drop 1 o')
           else HasSuffix o' (drop 1 n)
         else if oWildcard then HasSuffix n (drop 1 o')
         else n = o')"

definition SubsetOf :: "host_name \<Rightarrow> host_name \<Rightarrow> bool" where
  "SubsetOf n o' =
     (let hWildcard = IsWildCarded n; oWildcard = IsWildCarded o'
      in if hWildcard then
           if oWildcard then
             if length n < length o' then False
             else HasSuffix (drop 1 n) (drop 1 o')
           else False
         else if oWildcard then HasSuffix n (drop 1 o')
         else n = o')"

text \<open>The hosts a name stands for: itself, or every string that ends as the wildcard says.\<close>

definition hosts_of :: "host_name \<Rightarrow> string set" where
  "hosts_of n = (if IsWildCarded n then {h. suffix (drop 1 n) h} else {n})"

lemma hosts_of_wildcard: "IsWildCarded n \<Longrightarrow> hosts_of n = {h. suffix (drop 1 n) h}"
  by (simp add: hosts_of_def)

lemma hosts_of_exact: "\<not> IsWildCarded n \<Longrightarrow> hosts_of n = {n}"
  by (simp add: hosts_of_def)

lemma IsWildCarded_length: "IsWildCarded n \<Longrightarrow> length n = Suc (length (drop 1 n))"
  by (cases n) (auto simp: IsWildCarded_def)

lemma suffixes_overlap: "(\<exists>h. suffix a h \<and> suffix b h) \<longleftrightarrow> suffix a b \<or> suffix b a"
  by (meson suffix_order.refl suffix_same_cases)

lemma suffixes_include: "{h. suffix a h} \<subseteq> {h. suffix b h} \<longleftrightarrow> suffix b a"
  by (auto intro: suffix_order.trans)

lemma suffix_not_singleton: "\<not> {h. suffix a h} \<subseteq> {b}"
proof
  assume *: "{h. suffix a h} \<subseteq> {b}"
  have "suffix a a" and "suffix a (undefined # a)" by (auto intro: suffix_ConsI)
  with * have "a = b" and "undefined # a = b" by blast+
  then show False by auto
qed

lemma suffix_longer: "length a < length b \<Longrightarrow> \<not> suffix b a"
  by (auto dest: suffix_length_le)

lemma suffix_by_length:
  "(if length a < length b then suffix a b else suffix b a) \<longleftrightarrow> suffix a b \<or> suffix b a"
proof (cases "length a < length b")
  case True
  then show ?thesis by (simp add: suffix_longer)
next
  case False
  have "a = b" if "suffix a b"
    using that False by (auto simp: suffix_def)
  then show ?thesis using False by auto
qed

lemma Matches_iff: "Matches n o' \<longleftrightarrow> hosts_of n \<inter> hosts_of o' \<noteq> {}"
proof (cases "IsWildCarded n \<and> IsWildCarded o'")
  case True
  have "length n < length o' \<longleftrightarrow> length (drop 1 n) < length (drop 1 o')"
    using True IsWildCarded_length by (metis Suc_less_eq)
  then have "Matches n o' \<longleftrightarrow> suffix (drop 1 n) (drop 1 o') \<or> suffix (drop 1 o') (drop 1 n)"
    using True suffix_by_length [of "drop 1 n" "drop 1 o'"]
    by (simp add: Matches_def Let_def go_string split: if_splits)
  also have "\<dots> \<longleftrightarrow> hosts_of n \<inter> hosts_of o' \<noteq> {}"
    using True by (auto simp: hosts_of_wildcard suffixes_overlap [symmetric])
  finally show ?thesis .
next
  case False
  then show ?thesis
    by (auto simp: Matches_def Let_def go_string hosts_of_wildcard hosts_of_exact)
qed

lemma SubsetOf_iff: "SubsetOf n o' \<longleftrightarrow> hosts_of n \<subseteq> hosts_of o'"
proof (cases "IsWildCarded n")
  case True
  show ?thesis
  proof (cases "IsWildCarded o'")
    case w: True
    have "length n < length o' \<longleftrightarrow> length (drop 1 n) < length (drop 1 o')"
      using True w IsWildCarded_length by (metis Suc_less_eq)
    then show ?thesis
      using True w by (auto simp: SubsetOf_def Let_def go_string hosts_of_wildcard
          suffixes_include suffix_longer)
  next
    case False
    then show ?thesis
      using True suffix_not_singleton
      by (simp add: SubsetOf_def Let_def hosts_of_wildcard hosts_of_exact)
  qed
next
  case False
  then show ?thesis
    by (auto simp: SubsetOf_def Let_def go_string hosts_of_wildcard hosts_of_exact)
qed

section \<open>Cluster names\<close>

type_synonym traffic_direction = string

definition TrafficDirectionInbound :: traffic_direction where
  "TrafficDirectionInbound = ''inbound''"

definition TrafficDirectionOutbound :: traffic_direction where
  "TrafficDirectionOutbound = ''outbound''"

definition trafficDirectionOutboundSrvPrefix :: string where
  "trafficDirectionOutboundSrvPrefix = TrafficDirectionOutbound @ ''_''"

definition trafficDirectionInboundSrvPrefix :: string where
  "trafficDirectionInboundSrvPrefix = TrafficDirectionInbound @ ''_''"

definition BuildSubsetKey :: "traffic_direction \<Rightarrow> string \<Rightarrow> host_name \<Rightarrow> int \<Rightarrow> string" where
  "BuildSubsetKey direction subsetName hostname port =
     direction @ ''|'' @ Itoa port @ ''|'' @ subsetName @ ''|'' @ hostname"

text \<open>
  The named results start as zero values, and each early \<^verbatim>\<open>return\<close> leaves the ones not yet
  assigned at zero. The error of \<^verbatim>\<open>strconv.Atoi\<close> is dropped, its value is kept.
\<close>

definition ParseSubsetKey :: "string \<Rightarrow> traffic_direction \<times> string \<times> host_name \<times> int" where
  "ParseSubsetKey s =
     (let sep = (if HasPrefix s trafficDirectionOutboundSrvPrefix \<or>
                    HasPrefix s trafficDirectionInboundSrvPrefix then ''_.'' else ''|'')
      in case Cut s sep of (dir, s1, ok1) \<Rightarrow>
         if \<not> ok1 then ([], [], [], 0)
         else case Cut s1 sep of (p, s2, ok2) \<Rightarrow>
         if \<not> ok2 then (dir, [], [], 0)
         else let port = fst (Atoi p) in
         case Cut s2 sep of (ss, s3, ok3) \<Rightarrow>
         if \<not> ok3 then (dir, [], [], port)
         else if Contains_str s3 sep then (dir, ss, [], port)
         else (dir, ss, s3, port))"

definition key_hostname :: "traffic_direction \<times> string \<times> host_name \<times> int \<Rightarrow> host_name" where
  "key_hostname r = fst (snd (snd r))"

definition ParseSubsetKeyHostname :: "string \<Rightarrow> string" where
  "ParseSubsetKeyHostname s =
     (let idx = LastIndex s (CHR ''|'')
      in if idx = -1 then key_hostname (ParseSubsetKey s) else drop (nat (idx + 1)) s)"

lemma srv_prefix_iff:
  "HasPrefix s trafficDirectionOutboundSrvPrefix \<or> HasPrefix s trafficDirectionInboundSrvPrefix \<longleftrightarrow>
     prefix ''outbound_'' s \<or> prefix ''inbound_'' s"
  by (simp add: go_string trafficDirectionOutboundSrvPrefix_def TrafficDirectionOutbound_def
      trafficDirectionInboundSrvPrefix_def TrafficDirectionInbound_def)

text \<open>A name that has no service-record prefix is cut at the bars.\<close>

lemma ParseSubsetKey_bars:
  assumes "\<not> prefix ''outbound_'' (d @ ''|'' @ p @ ''|'' @ ss @ ''|'' @ h)"
    and "\<not> prefix ''inbound_'' (d @ ''|'' @ p @ ''|'' @ ss @ ''|'' @ h)"
    and "CHR ''|'' \<notin> set d" and "CHR ''|'' \<notin> set p" and "CHR ''|'' \<notin> set ss"
  shows "ParseSubsetKey (d @ ''|'' @ p @ ''|'' @ ss @ ''|'' @ h) =
     (d, ss, if CHR ''|'' \<in> set h then [] else h, fst (Atoi p))"
  using assms by (simp add: ParseSubsetKey_def srv_prefix_iff Let_def)

lemma ParseSubsetKeyHostname_last:
  assumes "CHR ''|'' \<notin> set h"
  shows "ParseSubsetKeyHostname (a @ CHR ''|'' # h) = h"
proof -
  have "nat (int (length a) + 1) = Suc (length a)" by simp
  then show ?thesis
    using LastIndex_append [OF assms, of a]
    by (simp add: ParseSubsetKeyHostname_def Let_def del: LastIndex_none)
qed

lemma direction_not_srv:
  "d = TrafficDirectionInbound \<or> d = TrafficDirectionOutbound \<Longrightarrow>
     \<not> prefix ''outbound_'' (d @ CHR ''|'' # r) \<and> \<not> prefix ''inbound_'' (d @ CHR ''|'' # r) \<and>
     CHR ''|'' \<notin> set d"
  by (auto simp: TrafficDirectionInbound_def TrafficDirectionOutbound_def)

section \<open>Properties\<close>

text \<open>C9: a cluster name built for one of the two traffic directions, a subset and a host name
  without bars and a port that fits Go's \<^verbatim>\<open>int\<close> is parsed back to exactly these parts.\<close>

theorem ParseSubsetKey_BuildSubsetKey:
  assumes "direction = TrafficDirectionInbound \<or> direction = TrafficDirectionOutbound"
    and "CHR ''|'' \<notin> set subsetName" and "CHR ''|'' \<notin> set hostname"
    and "- maxInt64 - 1 \<le> port" and "port \<le> maxInt64"
  shows "ParseSubsetKey (BuildSubsetKey direction subsetName hostname port) =
     (direction, subsetName, hostname, port)"
  using assms direction_not_srv [OF assms(1)] Atoi_Itoa [OF assms(4,5)]
  by (simp add: BuildSubsetKey_def ParseSubsetKey_bars [simplified])

theorem ParseSubsetKey_BuildSubsetKey_witness:
  "ParseSubsetKey (BuildSubsetKey ''outbound'' ''v1'' ''echo.default.svc'' 8080) =
     (''outbound'', ''v1'', ''echo.default.svc'', 8080)"
proof -
  have "''outbound'' = TrafficDirectionInbound \<or> ''outbound'' = TrafficDirectionOutbound"
    by (simp add: TrafficDirectionOutbound_def)
  then show ?thesis
    by (rule ParseSubsetKey_BuildSubsetKey) (simp_all add: maxInt64_def)
qed

text \<open>On every cluster name of the bar form, i.e. three bars and no service-record prefix,
  the optimised parser of the hot paths returns the host name of the full parser, and for
  every name without a bar it falls back to the full parser.\<close>

lemma ParseSubsetKeyHostname_agrees:
  assumes "s = d @ ''|'' @ p @ ''|'' @ ss @ ''|'' @ h"
    and "CHR ''|'' \<notin> set d \<union> set p \<union> set ss \<union> set h"
    and "\<not> HasPrefix s trafficDirectionOutboundSrvPrefix"
    and "\<not> HasPrefix s trafficDirectionInboundSrvPrefix"
  shows "ParseSubsetKeyHostname s = key_hostname (ParseSubsetKey s)"
proof -
  have "\<not> prefix ''outbound_'' s" and "\<not> prefix ''inbound_'' s"
    using assms(3,4) srv_prefix_iff by blast+
  then have "key_hostname (ParseSubsetKey s) = h"
    using assms(1,2) by (simp add: ParseSubsetKey_bars [simplified] key_hostname_def)
  moreover have "ParseSubsetKeyHostname s = h"
    using assms(1,2) ParseSubsetKeyHostname_last [of h "d @ ''|'' @ p @ ''|'' @ ss"] by simp
  ultimately show ?thesis by simp
qed

lemma ParseSubsetKeyHostname_agrees_witness:
  "ParseSubsetKeyHostname ''outbound|80||a.b'' = key_hostname (ParseSubsetKey ''outbound|80||a.b'')"
proof (rule ParseSubsetKeyHostname_agrees)
  show "''outbound|80||a.b'' = ''outbound'' @ ''|'' @ ''80'' @ ''|'' @ [] @ ''|'' @ ''a.b''" by simp
qed (simp_all add: HasPrefix_def trafficDirectionOutboundSrvPrefix_def
    TrafficDirectionOutbound_def trafficDirectionInboundSrvPrefix_def TrafficDirectionInbound_def)

text \<open>
  The optimised parser is not equivalent on all strings: a name with one bar has no host
  name for the full parser, and the optimised one returns what follows the bar.
\<close>

lemma ParseSubsetKeyHostname_differs:
  "ParseSubsetKeyHostname ''a|b'' = ''b''" "key_hostname (ParseSubsetKey ''a|b'') = []"
  by (simp_all add: ParseSubsetKeyHostname_def ParseSubsetKey_def key_hostname_def Let_def
      HasPrefix_def trafficDirectionOutboundSrvPrefix_def TrafficDirectionOutbound_def
      trafficDirectionInboundSrvPrefix_def TrafficDirectionInbound_def)

text \<open>C13: two host names match exactly when some host is covered by both, and one is a
  subset of the other exactly when every host it covers is covered by the other, for every
  combination of plain and wildcard names.\<close>

theorem host_matching_decides_coverage:
  "Matches n o' = (hosts_of n \<inter> hosts_of o' \<noteq> {}) \<and>
   SubsetOf n o' = (hosts_of n \<subseteq> hosts_of o')"
  by (simp add: Matches_iff SubsetOf_iff)

end
