(* ===== verification/GoSets.thy ===== *)
theory GoSets
  imports Prelude
begin

text \<open>
  The generic set of \<^verbatim>\<open>pkg/util/sets/set.go\<close>: a Go map with empty values. A set value may be
  \<^verbatim>\<open>nil\<close>, which reads as the empty set and panics when it is written, so a set is an
  option of a finite set. The methods that write their receiver return it, or the panic.
  The lemmas relate every method to the operation on finite sets it stands for.
\<close>

type_synonym 'a gset = "'a fset option"

definition elems :: "'a gset \<Rightarrow> 'a fset" where
  "elems s = (case s of None \<Rightarrow> {||} | Some S \<Rightarrow> S)"

lemma elems_simps [simp, go_set]: "elems None = {||}" "elems (Some S) = S"
  by (simp_all add: elems_def)

section \<open>The methods\<close>

definition Len :: "'a gset \<Rightarrow> nat" where
  "Len s = fcard (elems s)"

definition IsEmpty :: "'a gset \<Rightarrow> bool" where
  "IsEmpty s \<longleftrightarrow> Len s = 0"

definition Contains :: "'a gset \<Rightarrow> 'a \<Rightarrow> bool" where
  "Contains s item \<longleftrightarrow> item |\<in>| elems s"

definition Insert :: "'a gset \<Rightarrow> 'a \<Rightarrow> panic + 'a gset" where
  "Insert s item = (case s of None \<Rightarrow> Inl NilMapWrite | Some S \<Rightarrow> Inr (Some (finsert item S)))"

fun InsertAll :: "'a gset \<Rightarrow> 'a list \<Rightarrow> panic + 'a gset" where
  "InsertAll s [] = Inr s"
| "InsertAll s (x # xs) = (case Insert s x of Inl p \<Rightarrow> Inl p | Inr s' \<Rightarrow> InsertAll s' xs)"

text \<open>\<^verbatim>\<open>sets.New\<close>: a fresh set, so that its insertions cannot panic.\<close>

definition New :: "'a list \<Rightarrow> 'a gset" where
  "New items = (case InsertAll (Some {||}) items of Inl p \<Rightarrow> None | Inr s \<Rightarrow> s)"

definition Delete :: "'a gset \<Rightarrow> 'a \<Rightarrow> 'a gset" where
  "Delete s item = (case s of None \<Rightarrow> None | Some S \<Rightarrow> Some (S |-| {|item|}))"

fun DeleteAll :: "'a gset \<Rightarrow> 'a list \<Rightarrow> 'a gset" where
  "DeleteAll s [] = s"
| "DeleteAll s (x # xs) = DeleteAll (Delete s x) xs"

text \<open>\<^verbatim>\<open>s.Merge(s2)\<close> writes \<open>s\<close> only when \<open>s2\<close> has an element.\<close>

definition Merge :: "'a gset \<Rightarrow> 'a gset \<Rightarrow> panic + 'a gset" where
  "Merge s s2 =
     (if elems s2 = {||} then Inr s
      else case s of None \<Rightarrow> Inl NilMapWrite | Some S \<Rightarrow> Inr (Some (S |\<union>| elems s2)))"

definition Copy :: "'a gset \<Rightarrow> 'a gset" where
  "Copy s = Some (elems s)"

definition Union :: "'a gset \<Rightarrow> 'a gset \<Rightarrow> 'a gset" where
  "Union s s2 = Some (elems (Copy s) |\<union>| elems s2)"

definition Difference :: "'a gset \<Rightarrow> 'a gset \<Rightarrow> 'a gset" where
  "Difference s s2 = Some (ffilter (\<lambda>key. \<not> Contains s2 key) (elems s))"

definition DifferenceInPlace :: "'a gset \<Rightarrow> 'a gset \<Rightarrow> 'a gset" where
  "DifferenceInPlace s s2 = map_option (ffilter (\<lambda>key. \<not> Contains s2 key)) s"

definition Intersection :: "'a gset \<Rightarrow> 'a gset \<Rightarrow> 'a gset" where
  "Intersection s s2 = Some (ffilter (Contains s2) (elems s))"

definition IntersectInPlace :: "'a gset \<Rightarrow> 'a gset \<Rightarrow> 'a gset" where
  "IntersectInPlace s s2 = map_option (ffilter (Contains s2)) s"

text \<open>
  \<^verbatim>\<open>Diff\<close> appends to two nil slices, in the order the two loops visit their maps: \<open>ks\<close>
  is the order over the receiver and \<open>ks'\<close> the one over the argument.
\<close>

definition Diff :: "'a list \<Rightarrow> 'a list \<Rightarrow> 'a gset \<Rightarrow> 'a gset \<Rightarrow> 'a list \<times> 'a list" where
  "Diff ks ks' s other = (filter (\<lambda>k. \<not> Contains other k) ks, filter (\<lambda>k. \<not> Contains s k) ks')"

definition SupersetOf :: "'a gset \<Rightarrow> 'a gset \<Rightarrow> bool" where
  "SupersetOf s s2 \<longleftrightarrow>
     (if s2 = None then True
      else if Len s < Len s2 then False
      else (\<forall>key \<in> fset (elems s2). Contains s key))"

definition Equals :: "'a gset \<Rightarrow> 'a gset \<Rightarrow> bool" where
  "Equals s other \<longleftrightarrow>
     (if Len s \<noteq> Len other then False else (\<forall>key \<in> fset (elems s). Contains other key))"

definition InsertContains :: "'a gset \<Rightarrow> 'a \<Rightarrow> panic + (bool \<times> 'a gset)" where
  "InsertContains s item =
     (if Contains s item then Inr (True, s)
      else case Insert s item of Inl p \<Rightarrow> Inl p | Inr s' \<Rightarrow> Inr (False, s'))"

definition DeleteContains :: "'a gset \<Rightarrow> 'a \<Rightarrow> bool \<times> 'a gset" where
  "DeleteContains s item = (if \<not> Contains s item then (False, s) else (True, Delete s item))"

text \<open>\<^verbatim>\<open>UnsortedList\<close> in the order \<open>ks\<close> of its loop; \<^verbatim>\<open>SortedList\<close> sorts that list.\<close>

definition UnsortedList :: "'a list \<Rightarrow> 'a gset \<Rightarrow> 'a list" where
  "UnsortedList ks s = filter (Contains s) ks"

definition SortedList :: "'a::linorder list \<Rightarrow> 'a gset \<Rightarrow> 'a list" where
  "SortedList ks s = sort (UnsortedList ks s)"

text \<open>
  A map of sets. \<^verbatim>\<open>InsertOrNew\<close> creates a missing set; a set stored in such a map is never
  \<^verbatim>\<open>nil\<close>. \<^verbatim>\<open>DeleteCleanupLast\<close> drops the key of a set that becomes empty.
\<close>

definition InsertOrNew :: "('k, 'a fset) fmap \<Rightarrow> 'k \<Rightarrow> 'a \<Rightarrow> ('k, 'a fset) fmap" where
  "InsertOrNew m k v =
     (case fmlookup m k of None \<Rightarrow> fmupd k {|v|} m | Some s \<Rightarrow> fmupd k (finsert v s) m)"

definition DeleteCleanupLast :: "('k, 'a fset) fmap \<Rightarrow> 'k \<Rightarrow> 'a \<Rightarrow> ('k, 'a fset) fmap" where
  "DeleteCleanupLast m k v =
     (let s = Delete (fmlookup m k) v
      in if IsEmpty s then fmdrop k m
         else case s of None \<Rightarrow> m | Some S \<Rightarrow> fmupd k S m)"

section \<open>What the methods compute\<close>

lemma fset_of_list_empty_iff [simp]: "fset_of_list xs = {||} \<longleftrightarrow> xs = []"
  by (cases xs) simp_all

lemma Len_0 [simp]: "Len s = 0 \<longleftrightarrow> elems s = {||}"
  by (simp add: Len_def)

lemma IsEmpty_iff [go_set, simp]: "IsEmpty s \<longleftrightarrow> elems s = {||}"
  by (simp add: IsEmpty_def)

lemma Contains_iff [go_set, simp]: "Contains s x \<longleftrightarrow> x |\<in>| elems s"
  by (simp add: Contains_def)

lemma InsertAll_Some [simp]: "InsertAll (Some S) xs = Inr (Some (S |\<union>| fset_of_list xs))"
  by (induction xs arbitrary: S) (auto simp: Insert_def)

lemma New_eq [go_set, simp]: "New xs = Some (fset_of_list xs)"
  by (simp add: New_def)

lemma elems_Copy [go_set, simp]: "elems (Copy s) = elems s"
  by (simp add: Copy_def)

lemma elems_Delete [go_set, simp]: "elems (Delete s x) = elems s |-| {|x|}"
  by (cases s) (simp_all add: Delete_def)

lemma elems_DeleteAll [go_set, simp]: "elems (DeleteAll s xs) = elems s |-| fset_of_list xs"
  by (induction xs arbitrary: s) auto

lemma elems_Union [go_set, simp]: "elems (Union s t) = elems s |\<union>| elems t"
  by (simp add: Union_def)

lemma elems_Difference [go_set, simp]: "elems (Difference s t) = elems s |-| elems t"
  by (auto simp: Difference_def)

lemma elems_DifferenceInPlace [go_set, simp]: "elems (DifferenceInPlace s t) = elems s |-| elems t"
  by (cases s) (auto simp: DifferenceInPlace_def)

lemma elems_Intersection [go_set, simp]: "elems (Intersection s t) = elems s |\<inter>| elems t"
  by (auto simp: Intersection_def)

lemma elems_IntersectInPlace [go_set, simp]: "elems (IntersectInPlace s t) = elems s |\<inter>| elems t"
  by (cases s) (auto simp: IntersectInPlace_def)

lemma Merge_result: "Merge s t = Inr u \<Longrightarrow> elems u = elems s |\<union>| elems t"
  by (cases s) (auto simp: Merge_def split: if_splits)

lemma Merge_panics_iff: "(\<exists>p. Merge s t = Inl p) \<longleftrightarrow> s = None \<and> elems t \<noteq> {||}"
  by (cases s) (auto simp: Merge_def)

text \<open>
  The two comparisons look at one direction only and compare the sizes first; for finite
  sets that decides equality and inclusion.
\<close>

lemma Equals_iff [go_set, simp]: "Equals s t \<longleftrightarrow> elems s = elems t"
proof
  assume eq: "Equals s t"
  then have "elems s |\<subseteq>| elems t" and "fcard (elems s) = fcard (elems t)"
    by (auto simp: Equals_def Len_def split: if_splits)
  then show "elems s = elems t" using fcard_seteq by fastforce
qed (simp add: Equals_def Len_def)

lemma SupersetOf_iff [go_set, simp]: "SupersetOf s t \<longleftrightarrow> elems t |\<subseteq>| elems s"
proof
  assume "elems t |\<subseteq>| elems s"
  then have "Len t \<le> Len s" unfolding Len_def by (rule fcard_mono)
  with \<open>elems t |\<subseteq>| elems s\<close> show "SupersetOf s t" by (auto simp: SupersetOf_def)
next
  assume "SupersetOf s t"
  then show "elems t |\<subseteq>| elems s" by (cases t) (auto simp: SupersetOf_def split: if_splits)
qed

lemma SortedList_eq:
  assumes "is_range ks (elems s)"
  shows "SortedList ks s = sorted_list_of_fset (elems s)"
proof -
  have *: "set ks = fset (elems s)" "distinct ks"
    using assms is_range_set is_range_distinct by blast+
  then have "filter (Contains s) ks = ks" by (simp add: filter_id_conv)
  then show ?thesis
    using * sorted_list_of_set_sort_remdups [of ks]
    by (simp add: SortedList_def UnsortedList_def sorted_list_of_fset.rep_eq distinct_remdups_id)
qed

lemma lookup_InsertOrNew:
  "elems (fmlookup (InsertOrNew m k v) k') =
     (if k' = k then finsert v (elems (fmlookup m k)) else elems (fmlookup m k'))"
  by (auto simp: InsertOrNew_def split: option.splits)

lemma lookup_DeleteCleanupLast:
  "elems (fmlookup (DeleteCleanupLast m k v) k') =
     (if k' = k then elems (fmlookup m k) |-| {|v|} else elems (fmlookup m k'))"
  by (cases "fmlookup m k") (auto simp: DeleteCleanupLast_def Delete_def Let_def)

lemma InsertOrNew_no_empty:
  "(\<And>k. fmlookup m k \<noteq> Some {||}) \<Longrightarrow> fmlookup (InsertOrNew m k v) k' \<noteq> Some {||}"
  by (auto simp: InsertOrNew_def split: option.splits)

lemma DeleteCleanupLast_no_empty:
  "(\<And>k. fmlookup m k \<noteq> Some {||}) \<Longrightarrow> fmlookup (DeleteCleanupLast m k v) k' \<noteq> Some {||}"
  by (cases "fmlookup m k") (auto simp: DeleteCleanupLast_def Delete_def Let_def)

end
