(* ===== verification/PushRequest.thy ===== *)
theory PushRequest
  imports GoSets
begin

text \<open>
  Push requests, \<^verbatim>\<open>dubbod/discovery/pkg/model/push_context.go\<close>: why a push happens, which
  configurations changed, and how two requests for the same client are merged. The push
  context a request points to is a type parameter, since merging only keeps the pointer.
  The contract the push queue and the debouncer rely on, that merging loses nothing and
  does not depend on how requests are grouped, is the locale \<open>merging\<close>.
\<close>

section \<open>Configuration keys\<close>

datatype kind = KindUnknown | KindAddress | KindAuthorizationPolicy | KindBackendTLSPolicy
  | KindCircuitBreakerPolicy | KindConfigMap | KindCustomResourceDefinition | KindDNSName
  | KindDaemonSet | KindDeployment | KindEndpointSlice | KindEndpoints | KindFaultInjectionPolicy
  | KindGatewayClass | KindHTTPRoute | KindKubernetesGateway | KindLease | KindMeshConfig
  | KindMutatingWebhookConfiguration | KindNamespace | KindNode | KindPeerAuthentication
  | KindPod | KindPodDisruptionBudget | KindReferenceGrant | KindRequestAuthentication
  | KindSecret | KindService | KindServiceAccount | KindServiceEntry | KindStatefulSet
  | KindTelemetry | KindValidatingWebhookConfiguration | KindWorkloadEntry

record ConfigKey =
  ck_Kind :: kind
  ck_Name :: string
  ck_Namespace :: string

text \<open>The zero value of the struct.\<close>

definition zero_ConfigKey :: ConfigKey where
  "zero_ConfigKey = \<lparr>ck_Kind = KindUnknown, ck_Name = [], ck_Namespace = []\<rparr>"

definition HasConfigsOfKind :: "ConfigKey gset \<Rightarrow> kind \<Rightarrow> bool" where
  "HasConfigsOfKind configs kind \<longleftrightarrow> (\<exists>c \<in> fset (elems configs). ck_Kind c = kind)"

section \<open>Reasons\<close>

type_synonym TriggerReason = string
type_synonym ReasonStats = "(TriggerReason, int) fmap"

definition UnknownTrigger :: TriggerReason where "UnknownTrigger = ''unknown''"
definition ProxyRequest :: TriggerReason where "ProxyRequest = ''proxyrequest''"
definition GlobalUpdate :: TriggerReason where "GlobalUpdate = ''global''"
definition HeadlessEndpointUpdate :: TriggerReason where
  "HeadlessEndpointUpdate = ''headlessendpoint''"
definition EndpointUpdate :: TriggerReason where "EndpointUpdate = ''endpoint''"
definition ProxyUpdate :: TriggerReason where "ProxyUpdate = ''proxy''"
definition DependentResource :: TriggerReason where "DependentResource = ''depdendentresource''"

text \<open>Reading a missing key of a Go map gives the zero value; a \<^verbatim>\<open>nil\<close> map has no keys.\<close>

definition reasons :: "ReasonStats option \<Rightarrow> ReasonStats" where
  "reasons r = (case r of None \<Rightarrow> fmempty | Some m \<Rightarrow> m)"

definition reason_count :: "ReasonStats option \<Rightarrow> TriggerReason \<Rightarrow> int" where
  "reason_count r reason = (case fmlookup (reasons r) reason of None \<Rightarrow> 0 | Some n \<Rightarrow> n)"

definition ReasonStats_Has :: "ReasonStats option \<Rightarrow> TriggerReason \<Rightarrow> bool" where
  "ReasonStats_Has r reason \<longleftrightarrow> reason_count r reason > 0"

definition ReasonStats_Add :: "ReasonStats \<Rightarrow> TriggerReason \<Rightarrow> ReasonStats" where
  "ReasonStats_Add r reason = fmupd reason (reason_count (Some r) reason + 1) r"

fun NewReasonStats :: "TriggerReason list \<Rightarrow> ReasonStats" where
  "NewReasonStats rs = fold (\<lambda>reason ret. ReasonStats_Add ret reason) rs fmempty"

text \<open>The loop of \<^verbatim>\<open>Merge\<close> over the entries of \<open>other\<close> in the order \<open>ks\<close>.\<close>

fun ReasonStats_Merge_loop :: "TriggerReason list \<Rightarrow> ReasonStats \<Rightarrow> ReasonStats \<Rightarrow> ReasonStats" where
  "ReasonStats_Merge_loop [] r other = r"
| "ReasonStats_Merge_loop (k # ks) r other =
     ReasonStats_Merge_loop ks
       (fmupd k (reason_count (Some r) k + reason_count (Some other) k) r) other"

text \<open>The result of that loop, which does not depend on the order (\<open>ReasonStats_Merge_loop_eq\<close>).\<close>

definition ReasonStats_Merge :: "ReasonStats \<Rightarrow> ReasonStats \<Rightarrow> ReasonStats" where
  "ReasonStats_Merge r other =
     r ++\<^sub>f fmmap_keys (\<lambda>k count. reason_count (Some r) k + count) other"

definition ReasonStats_Copy :: "ReasonStats option \<Rightarrow> ReasonStats option" where
  "ReasonStats_Copy r = (if fm_len (reasons r) = 0 then None else Some (reasons r))"

definition ReasonStats_Count :: "ReasonStats option \<Rightarrow> int" where
  "ReasonStats_Count r = (\<Sum>k \<in> fset (fmdom (reasons r)). reason_count r k)"

lemma reasons_simps [simp]: "reasons None = fmempty" "reasons (Some m) = m"
  by (simp_all add: reasons_def)

lemma reason_count_None [simp]: "reason_count None k = 0"
  by (simp add: reason_count_def)

lemma lookup_ReasonStats_Merge:
  "fmlookup (ReasonStats_Merge r other) k =
     (case fmlookup other k of None \<Rightarrow> fmlookup r k
      | Some n \<Rightarrow> Some (reason_count (Some r) k + n))"
  by (auto simp: ReasonStats_Merge_def fmdom_notI fmdomI split: option.splits)

lemma fmdom_ReasonStats_Merge [simp]:
  "fmdom (ReasonStats_Merge r other) = fmdom r |\<union>| fmdom other"
  by (simp add: ReasonStats_Merge_def)

lemma reason_count_Merge:
  "reason_count (Some (ReasonStats_Merge r other)) k =
     reason_count (Some r) k + reason_count (Some other) k"
  by (auto simp: reason_count_def lookup_ReasonStats_Merge split: option.splits)

lemma ReasonStats_Merge_loop_lookup:
  "distinct ks \<Longrightarrow> set ks \<subseteq> fset (fmdom other) \<Longrightarrow>
     fmlookup (ReasonStats_Merge_loop ks r other) k =
       (if k \<in> set ks then Some (reason_count (Some r) k + reason_count (Some other) k)
        else fmlookup r k)"
  by (induction ks arbitrary: r) (auto simp: reason_count_def)

lemma ReasonStats_Merge_loop_eq:
  assumes "is_range ks (fmdom other)"
  shows "ReasonStats_Merge_loop ks r other = ReasonStats_Merge r other"
proof (rule fmap_ext)
  fix k
  have "set ks = fset (fmdom other)" "distinct ks"
    using assms is_range_set is_range_distinct by blast+
  then show "fmlookup (ReasonStats_Merge_loop ks r other) k = fmlookup (ReasonStats_Merge r other) k"
    by (auto simp: ReasonStats_Merge_loop_lookup lookup_ReasonStats_Merge reason_count_def
        fmlookup_dom_iff split: option.splits)
qed

lemma ReasonStats_Merge_assoc:
  "ReasonStats_Merge (ReasonStats_Merge a b) c = ReasonStats_Merge a (ReasonStats_Merge b c)"
  by (rule fmap_ext)
    (auto simp: lookup_ReasonStats_Merge reason_count_def split: option.splits)

lemma ReasonStats_Merge_empty [simp]:
  "ReasonStats_Merge r fmempty = r" "ReasonStats_Merge fmempty r = r"
  by (rule fmap_ext, auto simp: lookup_ReasonStats_Merge reason_count_def split: option.splits)+

lemma ReasonStats_Merge_is_empty [simp]:
  "ReasonStats_Merge r other = fmempty \<longleftrightarrow> r = fmempty \<and> other = fmempty"
  by (simp add: fmdom_empty_iff [symmetric])

section \<open>Requests and their merge\<close>

record ResourceDelta =
  Subscribed :: "string gset"
  Unsubscribed :: "string gset"

definition emptyResourceDelta :: ResourceDelta where
  "emptyResourceDelta = \<lparr>Subscribed = None, Unsubscribed = None\<rparr>"

definition ResourceDelta_IsEmpty :: "ResourceDelta \<Rightarrow> bool" where
  "ResourceDelta_IsEmpty rd \<longleftrightarrow> Len (Subscribed rd) = 0 \<and> Len (Unsubscribed rd) = 0"

record 'p PushRequest =
  pr_Reason :: "ReasonStats option"
  pr_ConfigsUpdated :: "ConfigKey gset"
  pr_AddressesUpdated :: "string gset"
  pr_Forced :: bool
  pr_Full :: bool
  pr_Push :: "'p option"
  pr_Start :: time
  pr_Delta :: ResourceDelta

text \<open>A request literal that sets no field.\<close>

definition zero_PushRequest :: "'p PushRequest" where
  "zero_PushRequest = \<lparr>pr_Reason = None, pr_ConfigsUpdated = None, pr_AddressesUpdated = None,
     pr_Forced = False, pr_Full = False, pr_Push = None, pr_Start = zero_time,
     pr_Delta = emptyResourceDelta\<rparr>"

definition copyResourceDelta :: "ResourceDelta \<Rightarrow> ResourceDelta" where
  "copyResourceDelta delta =
     \<lparr>Subscribed = (if Subscribed delta \<noteq> None then Copy (Subscribed delta) else None),
      Unsubscribed = (if Unsubscribed delta \<noteq> None then Copy (Unsubscribed delta) else None)\<rparr>"

text \<open>
  The pattern the merge uses for its sets: a set that is \<^verbatim>\<open>nil\<close> becomes a copy of the other
  one, any other set takes the elements of the other one.
\<close>

definition merge_sets :: "'a gset \<Rightarrow> 'a gset \<Rightarrow> 'a gset" where
  "merge_sets s other =
     (case s of None \<Rightarrow> Copy other | Some S \<Rightarrow> Some (S |\<union>| elems other))"

definition mergeResourceDelta :: "ResourceDelta \<Rightarrow> ResourceDelta \<Rightarrow> ResourceDelta" where
  "mergeResourceDelta first second =
     (let out = copyResourceDelta first;
          out = (if Len (Subscribed second) > 0
                 then out\<lparr>Subscribed := merge_sets (Subscribed out) (Subscribed second)\<rparr> else out)
      in if Len (Unsubscribed second) > 0
         then out\<lparr>Unsubscribed := merge_sets (Unsubscribed out) (Unsubscribed second)\<rparr> else out)"

definition PushRequest_Merge ::
    "'p PushRequest option \<Rightarrow> 'p PushRequest option \<Rightarrow> 'p PushRequest option" where
  "PushRequest_Merge pr other =
     (case pr of None \<Rightarrow> other
      | Some p \<Rightarrow> (case other of None \<Rightarrow> pr
        | Some q \<Rightarrow>
            Some \<lparr>pr_Reason =
                    (if fm_len (reasons (pr_Reason q)) > 0
                     then Some (ReasonStats_Merge (reasons (pr_Reason p)) (reasons (pr_Reason q)))
                     else pr_Reason p),
                  pr_ConfigsUpdated =
                    (if pr_ConfigsUpdated p = None
                     then if pr_ConfigsUpdated q \<noteq> None then Copy (pr_ConfigsUpdated q) else None
                     else merge_sets (pr_ConfigsUpdated p) (pr_ConfigsUpdated q)),
                  pr_AddressesUpdated =
                    (if pr_AddressesUpdated p = None
                     then if pr_AddressesUpdated q \<noteq> None then Copy (pr_AddressesUpdated q) else None
                     else merge_sets (pr_AddressesUpdated p) (pr_AddressesUpdated q)),
                  pr_Forced = (pr_Forced p \<or> pr_Forced q),
                  pr_Full = (pr_Full p \<or> pr_Full q),
                  pr_Push = (if pr_Push q \<noteq> None then pr_Push q else pr_Push p),
                  pr_Start = (if IsZero (pr_Start p) then pr_Start q else pr_Start p),
                  pr_Delta = mergeResourceDelta (pr_Delta p) (pr_Delta q)\<rparr>))"

definition PushRequest_Copy :: "'p PushRequest option \<Rightarrow> 'p PushRequest option" where
  "PushRequest_Copy pr =
     (case pr of None \<Rightarrow> None
      | Some p \<Rightarrow>
          Some (p\<lparr>pr_Reason := ReasonStats_Copy (pr_Reason p),
                  pr_ConfigsUpdated :=
                    (if pr_ConfigsUpdated p \<noteq> None then Copy (pr_ConfigsUpdated p) else None),
                  pr_AddressesUpdated :=
                    (if pr_AddressesUpdated p \<noteq> None then Copy (pr_AddressesUpdated p) else None),
                  pr_Delta := copyResourceDelta (pr_Delta p)\<rparr>))"

definition PushRequest_CopyMerge ::
    "'p PushRequest option \<Rightarrow> 'p PushRequest option \<Rightarrow> 'p PushRequest option" where
  "PushRequest_CopyMerge pr other =
     (case pr of None \<Rightarrow> PushRequest_Copy other
      | Some p \<Rightarrow> (case other of None \<Rightarrow> PushRequest_Copy pr
        | Some q \<Rightarrow> PushRequest_Merge (PushRequest_Copy pr) other))"

definition IsProxyUpdate :: "'p PushRequest \<Rightarrow> bool" where
  "IsProxyUpdate pr \<longleftrightarrow> ReasonStats_Has (pr_Reason pr) ProxyUpdate"

definition IsRequest :: "'p PushRequest \<Rightarrow> bool" where
  "IsRequest pr \<longleftrightarrow> fm_len (reasons (pr_Reason pr)) = 1 \<and> ReasonStats_Has (pr_Reason pr) ProxyRequest"

definition PushReason :: "'p PushRequest \<Rightarrow> string" where
  "PushReason pr = (if IsRequest pr then '' request'' else [])"

record ConfigChange =
  cc_ConfigsUpdated :: "ConfigKey gset"
  cc_AddressesUpdated :: "string gset"
  cc_Full :: bool
  cc_Forced :: bool
  cc_EndpointsChanged :: bool
  cc_Global :: bool

definition PushRequest_ConfigChange :: "'p PushRequest option \<Rightarrow> ConfigChange option" where
  "PushRequest_ConfigChange req =
     map_option (\<lambda>r.
       \<lparr>cc_ConfigsUpdated = pr_ConfigsUpdated r, cc_AddressesUpdated = pr_AddressesUpdated r,
        cc_Full = pr_Full r, cc_Forced = pr_Forced r,
        cc_EndpointsChanged = (ReasonStats_Has (pr_Reason r) EndpointUpdate \<or>
                               ReasonStats_Has (pr_Reason r) HeadlessEndpointUpdate),
        cc_Global = ReasonStats_Has (pr_Reason r) GlobalUpdate\<rparr>) req"

section \<open>The contract of merging\<close>

text \<open>
  What a component that queues requests needs of the merge: \<^verbatim>\<open>nil\<close> is neutral, grouping does
  not matter, and copying changes nothing that a later merge sees.
\<close>

locale merging =
  fixes copy :: "'a option \<Rightarrow> 'a option"
    and merge :: "'a option \<Rightarrow> 'a option \<Rightarrow> 'a option"
  assumes copy_None [simp]: "copy None = None"
    and copy_eq_None [simp]: "copy a = None \<longleftrightarrow> a = None"
    and merge_None_left [simp]: "merge None b = copy b"
    and merge_None_right [simp]: "merge a None = copy a"
    and merge_assoc: "merge (merge a b) c = merge a (merge b c)"
    and merge_eq_None [simp]: "merge a b = None \<longleftrightarrow> a = None \<and> b = None"
    and copy_merge [simp]: "copy (merge a b) = merge a b"
    and merge_copy_left [simp]: "merge (copy a) b = merge a b"
    and merge_copy_right [simp]: "merge a (copy b) = merge a b"
begin

lemma copy_copy: "copy (copy a) = copy a"
  using copy_merge [of a None] by simp

lemma foldl_merge_copy: "copy (foldl merge (copy a) xs) = foldl merge (copy a) xs"
  by (induction xs rule: rev_induct) (simp_all add: copy_copy)

lemma merge_foldl: "merge a (foldl merge (copy b) xs) = foldl merge (merge a b) xs"
  by (induction xs rule: rev_induct) (simp_all add: merge_assoc [symmetric])

lemma foldl_merge_regroup:
  "merge (foldl merge None xs) (foldl merge None ys) = foldl merge None (xs @ ys)"
  using merge_foldl [of "foldl merge None xs" None ys] foldl_merge_copy [of None xs] by simp

end

section \<open>Requests satisfy the contract\<close>

lemma merge_sets_simps [simp]:
  "merge_sets (Some S) t = Some (S |\<union>| elems t)"
  "merge_sets None t = Some (elems t)"
  by (simp_all add: merge_sets_def Copy_def)

lemma elems_merge_sets [simp]: "elems (merge_sets s t) = elems s |\<union>| elems t"
  by (cases s) simp_all

lemma Copy_Some_elems: "Copy s = Some (elems s)"
  by (simp add: Copy_def)

lemma keep_or_copy [simp]: "(if s \<noteq> None then Copy s else None) = s"
  by (cases s) (simp_all add: Copy_Some_elems)

lemma copyResourceDelta_id [simp]: "copyResourceDelta d = d"
  unfolding copyResourceDelta_def keep_or_copy by simp

lemma Len_pos_iff: "Len s > 0 \<longleftrightarrow> elems s \<noteq> {||}"
  using Len_0 [of s] by (auto simp del: Len_0)

definition delta_set :: "string gset \<Rightarrow> string gset \<Rightarrow> string gset" where
  "delta_set s t = (if elems t = {||} then s else Some (elems s |\<union>| elems t))"

lemma mergeResourceDelta_eq:
  "mergeResourceDelta a b =
     \<lparr>Subscribed = delta_set (Subscribed a) (Subscribed b),
      Unsubscribed = delta_set (Unsubscribed a) (Unsubscribed b)\<rparr>"
  by (cases "Subscribed a"; cases "Unsubscribed a"; cases a)
    (simp_all add: mergeResourceDelta_def Let_def Len_pos_iff delta_set_def)

lemma elems_delta_set [simp]: "elems (delta_set s t) = elems s |\<union>| elems t"
  by (simp add: delta_set_def)

lemma delta_set_assoc: "delta_set (delta_set a b) c = delta_set a (delta_set b c)"
  by (auto simp: delta_set_def funion_assoc)

lemma mergeResourceDelta_assoc:
  "mergeResourceDelta (mergeResourceDelta a b) c = mergeResourceDelta a (mergeResourceDelta b c)"
  by (simp add: mergeResourceDelta_eq delta_set_assoc)

lemma ReasonStats_Copy_simps [simp]:
  "reasons (ReasonStats_Copy r) = reasons r"
  "ReasonStats_Copy (ReasonStats_Copy r) = ReasonStats_Copy r"
  by (auto simp: ReasonStats_Copy_def fm_len_0)

lemma reason_count_reasons: "reason_count (Some (reasons r)) k = reason_count r k"
  by (simp add: reason_count_def)

lemma reason_count_Copy: "reason_count (ReasonStats_Copy r) k = reason_count r k"
  by (simp add: reason_count_def)

definition updated_set :: "'a gset \<Rightarrow> 'a gset \<Rightarrow> 'a gset" where
  "updated_set s t = (if s = None \<and> t = None then None else Some (elems s |\<union>| elems t))"

lemma updated_set_eq:
  "(if s = None then if t \<noteq> None then Copy t else None else merge_sets s t) = updated_set s t"
  by (cases s; cases t) (simp_all add: updated_set_def Copy_Some_elems)

lemma updated_set_assoc: "updated_set (updated_set a b) c = updated_set a (updated_set b c)"
  by (auto simp: updated_set_def funion_assoc)

lemma elems_updated_set [simp]: "elems (updated_set s t) = elems s |\<union>| elems t"
  by (auto simp: updated_set_def)

lemma PushRequest_Copy_Some:
  "PushRequest_Copy (Some p) = Some (p\<lparr>pr_Reason := ReasonStats_Copy (pr_Reason p)\<rparr>)"
  unfolding PushRequest_Copy_def keep_or_copy by simp

text \<open>The merge of two requests that are there, field by field.\<close>

lemma CopyMerge_Some:
  "PushRequest_CopyMerge (Some p) (Some q) =
     Some \<lparr>pr_Reason = ReasonStats_Copy (Some
               (ReasonStats_Merge (reasons (pr_Reason p)) (reasons (pr_Reason q)))),
           pr_ConfigsUpdated = updated_set (pr_ConfigsUpdated p) (pr_ConfigsUpdated q),
           pr_AddressesUpdated = updated_set (pr_AddressesUpdated p) (pr_AddressesUpdated q),
           pr_Forced = (pr_Forced p \<or> pr_Forced q), pr_Full = (pr_Full p \<or> pr_Full q),
           pr_Push = (if pr_Push q \<noteq> None then pr_Push q else pr_Push p),
           pr_Start = (if IsZero (pr_Start p) then pr_Start q else pr_Start p),
           pr_Delta = mergeResourceDelta (pr_Delta p) (pr_Delta q)\<rparr>"
  unfolding PushRequest_CopyMerge_def PushRequest_Merge_def PushRequest_Copy_Some option.case
    updated_set_eq
  by (simp add: ReasonStats_Copy_def fm_len_0 updated_set_eq)

lemma PushRequest_Copy_None [simp]: "PushRequest_Copy None = None"
  by (simp add: PushRequest_Copy_def)

lemma CopyMerge_None [simp]:
  "PushRequest_CopyMerge None b = PushRequest_Copy b"
  "PushRequest_CopyMerge a None = PushRequest_Copy a"
  by (simp_all add: PushRequest_CopyMerge_def split: option.splits)

lemma CopyMerge_assoc:
  "PushRequest_CopyMerge (PushRequest_CopyMerge a b) c =
     PushRequest_CopyMerge a (PushRequest_CopyMerge b c)"
  by (cases a; cases b; cases c)
    (simp_all add: CopyMerge_Some PushRequest_Copy_Some ReasonStats_Merge_assoc
      updated_set_assoc mergeResourceDelta_assoc, auto)

interpretation req: merging PushRequest_Copy PushRequest_CopyMerge
proof
  fix a b c :: "'p PushRequest option"
  show "PushRequest_Copy a = None \<longleftrightarrow> a = None"
    by (simp add: PushRequest_Copy_def split: option.splits)
  show "PushRequest_CopyMerge a b = None \<longleftrightarrow> a = None \<and> b = None"
    by (cases a; cases b) (simp_all add: CopyMerge_Some PushRequest_Copy_Some)
  show "PushRequest_Copy (PushRequest_CopyMerge a b) = PushRequest_CopyMerge a b"
    "PushRequest_CopyMerge (PushRequest_Copy a) b = PushRequest_CopyMerge a b"
    "PushRequest_CopyMerge a (PushRequest_Copy b) = PushRequest_CopyMerge a b"
    by (cases a; cases b; simp add: CopyMerge_Some PushRequest_Copy_Some)+
qed (simp_all add: CopyMerge_assoc)

section \<open>Properties\<close>

text \<open>
  C8: Merging two requests loses nothing. The merged request carries every configuration,
  address and subscription change of both, counts every reason of both, is full or forced
  when either is, points to the newer push context when there is one, and keeps the older
  start time.
\<close>

theorem CopyMerge_keeps_everything:
  assumes "PushRequest_CopyMerge (Some p) (Some q) = Some r"
  shows "elems (pr_ConfigsUpdated r) = elems (pr_ConfigsUpdated p) |\<union>| elems (pr_ConfigsUpdated q)
    \<and> elems (pr_AddressesUpdated r) =
        elems (pr_AddressesUpdated p) |\<union>| elems (pr_AddressesUpdated q)
    \<and> elems (Subscribed (pr_Delta r)) =
        elems (Subscribed (pr_Delta p)) |\<union>| elems (Subscribed (pr_Delta q))
    \<and> elems (Unsubscribed (pr_Delta r)) =
        elems (Unsubscribed (pr_Delta p)) |\<union>| elems (Unsubscribed (pr_Delta q))
    \<and> (\<forall>k. reason_count (pr_Reason r) k = reason_count (pr_Reason p) k + reason_count (pr_Reason q) k)
    \<and> (pr_Full r \<longleftrightarrow> pr_Full p \<or> pr_Full q) \<and> (pr_Forced r \<longleftrightarrow> pr_Forced p \<or> pr_Forced q)
    \<and> pr_Push r = (case pr_Push q of None \<Rightarrow> pr_Push p | Some ctx \<Rightarrow> Some ctx)
    \<and> pr_Start r = (if IsZero (pr_Start p) then pr_Start q else pr_Start p)"
  using assms
  by (auto simp: CopyMerge_Some mergeResourceDelta_eq reason_count_Copy reason_count_Merge
      reason_count_reasons split: option.splits)

definition example_request :: "kind \<Rightarrow> TriggerReason \<Rightarrow> nat PushRequest" where
  "example_request k why = zero_PushRequest
     \<lparr>pr_ConfigsUpdated := Some {|\<lparr>ck_Kind = k, ck_Name = ''web'', ck_Namespace = ''ns''\<rparr>|},
      pr_Reason := Some (NewReasonStats [why]), pr_Full := True\<rparr>"

theorem CopyMerge_keeps_everything_witness:
  "elems (pr_ConfigsUpdated (the (PushRequest_CopyMerge
       (Some (example_request KindService EndpointUpdate))
       (Some (example_request KindHTTPRoute GlobalUpdate))))) =
     {|\<lparr>ck_Kind = KindHTTPRoute, ck_Name = ''web'', ck_Namespace = ''ns''\<rparr>,
       \<lparr>ck_Kind = KindService, ck_Name = ''web'', ck_Namespace = ''ns''\<rparr>|}"
  using CopyMerge_keeps_everything [of "example_request KindService EndpointUpdate"
      "example_request KindHTTPRoute GlobalUpdate"]
  by (simp add: CopyMerge_Some) (simp add: example_request_def zero_PushRequest_def)

text \<open>
  The order in which merges are grouped does not matter: merging the requests of one
  period among themselves and then with those of an earlier period gives the same request
  as merging all of them one after the other as they arrive.
\<close>

lemma CopyMerge_regroup:
  "PushRequest_CopyMerge (foldl PushRequest_CopyMerge None earlier) (foldl PushRequest_CopyMerge None later)
     = foldl PushRequest_CopyMerge None (earlier @ later)"
  by (rule req.foldl_merge_regroup)

end
