(* ===== verification/Configs.thy ===== *)
theory Configs
  imports PushRequest
begin

text \<open>
  Kinds of configuration and the keys made of them: the generated names of
  \<^verbatim>\<open>pkg/config/schema/kind/resources.gen.go\<close>, and the printed form and the hash of a configuration
  key of \<^verbatim>\<open>dubbod/discovery/pkg/model/config.go\<close>. The hash function itself (xxhash) is a parameter
  \<open>sum64\<close> of the bytes written to it; what is shown is that different keys write different bytes.
\<close>

section \<open>Kinds\<close>

fun Kind_String :: "kind \<Rightarrow> string" where
  "Kind_String KindAddress = ''Address''"
| "Kind_String KindAuthorizationPolicy = ''AuthorizationPolicy''"
| "Kind_String KindBackendTLSPolicy = ''BackendTLSPolicy''"
| "Kind_String KindCircuitBreakerPolicy = ''CircuitBreakerPolicy''"
| "Kind_String KindConfigMap = ''ConfigMap''"
| "Kind_String KindCustomResourceDefinition = ''CustomResourceDefinition''"
| "Kind_String KindDNSName = ''DNSName''"
| "Kind_String KindDaemonSet = ''DaemonSet''"
| "Kind_String KindDeployment = ''Deployment''"
| "Kind_String KindEndpointSlice = ''EndpointSlice''"
| "Kind_String KindEndpoints = ''Endpoints''"
| "Kind_String KindFaultInjectionPolicy = ''FaultInjectionPolicy''"
| "Kind_String KindGatewayClass = ''GatewayClass''"
| "Kind_String KindHTTPRoute = ''HTTPRoute''"
| "Kind_String KindKubernetesGateway = ''KubernetesGateway''"
| "Kind_String KindLease = ''Lease''"
| "Kind_String KindMeshConfig = ''MeshConfig''"
| "Kind_String KindMutatingWebhookConfiguration = ''MutatingWebhookConfiguration''"
| "Kind_String KindNamespace = ''Namespace''"
| "Kind_String KindNode = ''Node''"
| "Kind_String KindPeerAuthentication = ''PeerAuthentication''"
| "Kind_String KindPod = ''Pod''"
| "Kind_String KindPodDisruptionBudget = ''PodDisruptionBudget''"
| "Kind_String KindReferenceGrant = ''ReferenceGrant''"
| "Kind_String KindRequestAuthentication = ''RequestAuthentication''"
| "Kind_String KindSecret = ''Secret''"
| "Kind_String KindService = ''Service''"
| "Kind_String KindServiceAccount = ''ServiceAccount''"
| "Kind_String KindServiceEntry = ''ServiceEntry''"
| "Kind_String KindStatefulSet = ''StatefulSet''"
| "Kind_String KindTelemetry = ''Telemetry''"
| "Kind_String KindValidatingWebhookConfiguration = ''ValidatingWebhookConfiguration''"
| "Kind_String KindWorkloadEntry = ''WorkloadEntry''"
| "Kind_String KindUnknown = ''Unknown''"

definition Kind_FromString :: "string \<Rightarrow> kind" where
  "Kind_FromString s =
     (if s = ''Address'' then KindAddress
      else if s = ''AuthorizationPolicy'' then KindAuthorizationPolicy
      else if s = ''BackendTLSPolicy'' then KindBackendTLSPolicy
      else if s = ''CircuitBreakerPolicy'' then KindCircuitBreakerPolicy
      else if s = ''ConfigMap'' then KindConfigMap
      else if s = ''CustomResourceDefinition'' then KindCustomResourceDefinition
      else if s = ''DNSName'' then KindDNSName
      else if s = ''DaemonSet'' then KindDaemonSet
      else if s = ''Deployment'' then KindDeployment
      else if s = ''EndpointSlice'' then KindEndpointSlice
      else if s = ''Endpoints'' then KindEndpoints
      else if s = ''FaultInjectionPolicy'' then KindFaultInjectionPolicy
      else if s = ''GatewayClass'' then KindGatewayClass
      else if s = ''HTTPRoute'' then KindHTTPRoute
      else if s = ''KubernetesGateway'' then KindKubernetesGateway
      else if s = ''Lease'' then KindLease
      else if s = ''MeshConfig'' then KindMeshConfig
      else if s = ''MutatingWebhookConfiguration'' then KindMutatingWebhookConfiguration
      else if s = ''Namespace'' then KindNamespace
      else if s = ''Node'' then KindNode
      else if s = ''PeerAuthentication'' then KindPeerAuthentication
      else if s = ''Pod'' then KindPod
      else if s = ''PodDisruptionBudget'' then KindPodDisruptionBudget
      else if s = ''ReferenceGrant'' then KindReferenceGrant
      else if s = ''RequestAuthentication'' then KindRequestAuthentication
      else if s = ''Secret'' then KindSecret
      else if s = ''Service'' then KindService
      else if s = ''ServiceAccount'' then KindServiceAccount
      else if s = ''ServiceEntry'' then KindServiceEntry
      else if s = ''StatefulSet'' then KindStatefulSet
      else if s = ''Telemetry'' then KindTelemetry
      else if s = ''ValidatingWebhookConfiguration'' then KindValidatingWebhookConfiguration
      else if s = ''WorkloadEntry'' then KindWorkloadEntry
      else KindUnknown)"

text \<open>The position of a kind in the \<^verbatim>\<open>iota\<close> block: the number \<^verbatim>\<open>byte(key.Kind)\<close>.\<close>

fun kind_number :: "kind \<Rightarrow> nat" where
  "kind_number KindUnknown = 0"
| "kind_number KindAddress = 1"
| "kind_number KindAuthorizationPolicy = 2"
| "kind_number KindBackendTLSPolicy = 3"
| "kind_number KindCircuitBreakerPolicy = 4"
| "kind_number KindConfigMap = 5"
| "kind_number KindCustomResourceDefinition = 6"
| "kind_number KindDNSName = 7"
| "kind_number KindDaemonSet = 8"
| "kind_number KindDeployment = 9"
| "kind_number KindEndpointSlice = 10"
| "kind_number KindEndpoints = 11"
| "kind_number KindFaultInjectionPolicy = 12"
| "kind_number KindGatewayClass = 13"
| "kind_number KindHTTPRoute = 14"
| "kind_number KindKubernetesGateway = 15"
| "kind_number KindLease = 16"
| "kind_number KindMeshConfig = 17"
| "kind_number KindMutatingWebhookConfiguration = 18"
| "kind_number KindNamespace = 19"
| "kind_number KindNode = 20"
| "kind_number KindPeerAuthentication = 21"
| "kind_number KindPod = 22"
| "kind_number KindPodDisruptionBudget = 23"
| "kind_number KindReferenceGrant = 24"
| "kind_number KindRequestAuthentication = 25"
| "kind_number KindSecret = 26"
| "kind_number KindService = 27"
| "kind_number KindServiceAccount = 28"
| "kind_number KindServiceEntry = 29"
| "kind_number KindStatefulSet = 30"
| "kind_number KindTelemetry = 31"
| "kind_number KindValidatingWebhookConfiguration = 32"
| "kind_number KindWorkloadEntry = 33"

section \<open>Keys\<close>

definition ConfigKey_String :: "ConfigKey \<Rightarrow> string" where
  "ConfigKey_String key = Kind_String (ck_Kind key) @ ''/'' @ ck_Namespace key @ ''/'' @ ck_Name key"

text \<open>What \<^verbatim>\<open>HashCode\<close> writes to the hash.\<close>

definition hashed_bytes :: "ConfigKey \<Rightarrow> string" where
  "hashed_bytes key =
     [char_of (kind_number (ck_Kind key))] @ ''/'' @ ck_Namespace key @ ''/'' @ ck_Name key"

type_synonym ConfigHash = "64 word"

definition HashCode :: "(string \<Rightarrow> 64 word) \<Rightarrow> ConfigKey \<Rightarrow> ConfigHash" where
  "HashCode sum64 key = sum64 (hashed_bytes key)"

section \<open>Names and numbers determine the kind\<close>

lemma Kind_FromString_String: "Kind_FromString (Kind_String k) = k"
  by (cases k) (simp_all add: Kind_FromString_def)

lemma Kind_String_inject [simp]: "Kind_String k = Kind_String k' \<longleftrightarrow> k = k'"
  by (metis Kind_FromString_String)

lemma kind_number_less: "kind_number k < 256"
  by (cases k) simp_all

definition all_kinds :: "kind list" where
  "all_kinds = [KindUnknown, KindAddress, KindAuthorizationPolicy, KindBackendTLSPolicy,
     KindCircuitBreakerPolicy, KindConfigMap, KindCustomResourceDefinition, KindDNSName,
     KindDaemonSet, KindDeployment, KindEndpointSlice, KindEndpoints,
     KindFaultInjectionPolicy, KindGatewayClass, KindHTTPRoute, KindKubernetesGateway,
     KindLease, KindMeshConfig, KindMutatingWebhookConfiguration, KindNamespace,
     KindNode, KindPeerAuthentication, KindPod, KindPodDisruptionBudget,
     KindReferenceGrant, KindRequestAuthentication, KindSecret, KindService,
     KindServiceAccount, KindServiceEntry, KindStatefulSet, KindTelemetry,
     KindValidatingWebhookConfiguration, KindWorkloadEntry]"

lemma all_kinds_nth: "all_kinds ! kind_number k = k"
  by (cases k) (simp_all add: all_kinds_def)

lemma kind_number_inject [simp]: "kind_number k = kind_number k' \<longleftrightarrow> k = k'"
  by (metis all_kinds_nth)

lemma kind_number_mod [simp]: "kind_number k mod 256 = kind_number k"
  using kind_number_less [of k] by simp

lemma first_separator:
  "c \<notin> set xs \<Longrightarrow> c \<notin> set ys \<Longrightarrow> xs @ c # us = ys @ c # vs \<longleftrightarrow> xs = ys \<and> us = vs"
proof (induction xs arbitrary: ys)
  case Nil
  then show ?case by (cases ys) auto
next
  case (Cons x xs)
  then show ?case by (cases ys) auto
qed

lemma hashed_bytes_inject:
  assumes "CHR ''/'' \<notin> set (ck_Namespace k)" "CHR ''/'' \<notin> set (ck_Namespace k')"
  shows "hashed_bytes k = hashed_bytes k' \<longleftrightarrow> k = k'"
  by (auto simp: hashed_bytes_def first_separator [OF assms])

lemma Kind_String_no_slash: "CHR ''/'' \<notin> set (Kind_String k)"
  by (cases k) simp_all

section \<open>Properties\<close>

text \<open>
  Distinct configuration keys are told apart. Two keys whose namespaces contain no slash
  write the same bytes to the hash, or have the same printed form, only if they are equal, so
  hash codes can only clash where the hash function itself clashes on different inputs; and the
  name of a kind is read back as that kind.
\<close>

lemma config_keys_told_apart:
  assumes "CHR ''/'' \<notin> set (ck_Namespace key)" "CHR ''/'' \<notin> set (ck_Namespace key')"
  shows "(key \<noteq> key' \<and> HashCode sum64 key = HashCode sum64 key' \<longrightarrow>
      hashed_bytes key \<noteq> hashed_bytes key' \<and> sum64 (hashed_bytes key) = sum64 (hashed_bytes key'))
    \<and> (hashed_bytes key = hashed_bytes key' \<longleftrightarrow> key = key')
    \<and> (ConfigKey_String key = ConfigKey_String key' \<longleftrightarrow> key = key')
    \<and> Kind_FromString (Kind_String (ck_Kind key)) = ck_Kind key"
proof -
  have "ConfigKey_String key = ConfigKey_String key' \<longleftrightarrow> key = key'"
    by (auto simp: ConfigKey_String_def first_separator [OF Kind_String_no_slash Kind_String_no_slash]
        first_separator [OF assms])
  then show ?thesis
    using hashed_bytes_inject [OF assms] Kind_FromString_String by (auto simp: HashCode_def)
qed

lemma config_keys_told_apart_witness:
  "hashed_bytes \<lparr>ck_Kind = KindService, ck_Name = ''a/b'', ck_Namespace = ''ns''\<rparr> \<noteq>
     hashed_bytes \<lparr>ck_Kind = KindService, ck_Name = ''b'', ck_Namespace = ''ns''\<rparr>"
  using config_keys_told_apart [of "\<lparr>ck_Kind = KindService, ck_Name = ''a/b'', ck_Namespace = ''ns''\<rparr>"
      "\<lparr>ck_Kind = KindService, ck_Name = ''b'', ck_Namespace = ''ns''\<rparr>"] by simp

end
