(* ===== verification/Services.thy ===== *)
theory Services
  imports GoSets HostNames
begin

text \<open>
  Services, ports and endpoints of \<^verbatim>\<open>dubbod/discovery/pkg/model/service.go\<close>: the data, comparison,
  copying and address selection, with the label and slice helpers they use
  (\<^verbatim>\<open>pkg/config/labels/instance.go\<close>, \<^verbatim>\<open>pkg/slices/slices.go\<close>). A map that is only compared and looked
  up is a finite map; a pointer that the code tests against \<^verbatim>\<open>nil\<close> is an option.
\<close>

section \<open>Helpers\<close>

definition EqualUnordered :: "'a list \<Rightarrow> 'a list \<Rightarrow> bool" where
  "EqualUnordered s1 s2 =
     (if length s1 \<noteq> length s2 then False
      else let first = fset_of_list s1 in list_all (\<lambda>c. c |\<in>| first) s2)"

fun EqualFunc :: "('a \<Rightarrow> 'b \<Rightarrow> bool) \<Rightarrow> 'a list \<Rightarrow> 'b list \<Rightarrow> bool" where
  "EqualFunc eq [] [] = True"
| "EqualFunc eq (a # s1) (b # s2) = (eq a b \<and> EqualFunc eq s1 s2)"
| "EqualFunc eq _ _ = False"

type_synonym labels = "(string, string) fmap"

definition labels_SubsetOf :: "labels \<Rightarrow> labels \<Rightarrow> bool" where
  "labels_SubsetOf i that =
     (if fm_len i = 0 then True
      else if fm_len that = 0 \<or> fm_len that < fm_len i then False
      else (\<forall>k \<in> fset (fmdom i). case fmlookup that k of None \<Rightarrow> False | Some v2 \<Rightarrow> fmlookup i k = Some v2))"

definition labels_Match :: "labels \<Rightarrow> labels \<Rightarrow> bool" where
  "labels_Match i that = (if fm_len i = 0 then False else labels_SubsetOf i that)"

section \<open>Data\<close>

datatype Resolution = ClientSideLB | DNSLB | Passthrough | DNSRoundRobinLB | Alias

type_synonym HealthStatus = int

definition Healthy :: HealthStatus where "Healthy = 1"
definition UnHealthy :: HealthStatus where "UnHealthy = 2"
definition Draining :: HealthStatus where "Draining = 3"
definition Terminating :: HealthStatus where "Terminating = 4"

record Port =
  port_Name :: string
  port_Port :: int
  port_Protocol :: string

record NamespacedHostname =
  nh_Hostname :: host_name
  nh_Namespace :: string

record K8sAttributes =
  k8s_Type :: string
  k8s_ExternalName :: string
  k8s_NodeLocal :: bool
  k8s_ObjectName :: string
  k8s_PublishNotReadyAddresses :: bool

record ServiceAttributes =
  sa_Labels :: "labels option"
  sa_LabelSelectors :: "labels option"
  sa_ExportTo :: "string gset"
  sa_Aliases :: "NamespacedHostname list"
  sa_PassthroughTargetPorts :: "(32 word, 32 word) fmap option"
  sa_Name :: string
  sa_Namespace :: string
  sa_ServiceRegistry :: string
  sa_K8sAttributes :: K8sAttributes

text \<open>\<open>svc_Ports\<close> may be \<^verbatim>\<open>nil\<close> and may hold \<^verbatim>\<open>nil\<close> pointers.\<close>

record Service =
  svc_Attributes :: ServiceAttributes
  svc_Hostname :: host_name
  svc_Ports :: "Port option list option"
  svc_ServiceAccounts :: "string list"
  svc_Addresses :: "string list"
  svc_CreationTime :: time
  svc_DefaultAddress :: string
  svc_ResourceVersion :: string
  svc_Resolution :: Resolution
  svc_AutoAllocatedIPv4Address :: string
  svc_AutoAllocatedIPv6Address :: string
  svc_MeshExternal :: bool

text \<open>
  The discoverability policy is an interface of which only \<^verbatim>\<open>String()\<close> is used: the model keeps
  its name.
\<close>

record DubboEndpoint =
  ep_ServiceAccount :: string
  ep_Addresses :: "string list"
  ep_ServicePortName :: string
  ep_Labels :: labels
  ep_Network :: string
  ep_Locality :: string
  ep_LbWeight :: "32 word"
  ep_HealthStatus :: HealthStatus
  ep_SendUnhealthyEndpoints :: bool
  ep_DiscoverabilityPolicy :: "string option"
  ep_LegacyClusterPortKey :: int
  ep_EndpointPort :: "32 word"
  ep_WorkloadName :: string
  ep_Namespace :: string
  ep_HostName :: string
  ep_SubDomain :: string
  ep_NodeName :: string

section \<open>Endpoints\<close>

definition FirstAddressOrNil :: "DubboEndpoint option \<Rightarrow> string" where
  "FirstAddressOrNil ep =
     (case ep of None \<Rightarrow> [] | Some ep \<Rightarrow> (case ep_Addresses ep of [] \<Rightarrow> [] | a # _ \<Rightarrow> a))"

definition ep_Key :: "DubboEndpoint \<Rightarrow> string" where
  "ep_Key ep = FirstAddressOrNil (Some ep) @ ''/'' @ ep_WorkloadName ep @ ''/'' @ ep_ServicePortName ep"

definition policy_name :: "string option \<Rightarrow> string" where
  "policy_name p = (case p of None \<Rightarrow> [] | Some n \<Rightarrow> n)"

definition ep_Equals :: "DubboEndpoint option \<Rightarrow> DubboEndpoint option \<Rightarrow> bool" where
  "ep_Equals ep other =
     (case ep of None \<Rightarrow> other = None
      | Some e \<Rightarrow> (case other of None \<Rightarrow> False
        | Some f \<Rightarrow>
            let eq = (ep_ServicePortName e = ep_ServicePortName f \<and>
                      ep_ServiceAccount e = ep_ServiceAccount f \<and>
                      ep_WorkloadName e = ep_WorkloadName f \<and>
                      ep_Network e = ep_Network f \<and>
                      ep_Locality e = ep_Locality f \<and>
                      ep_LbWeight e = ep_LbWeight f \<and>
                      ep_SendUnhealthyEndpoints e = ep_SendUnhealthyEndpoints f)
            in if \<not> eq then False
               else if \<not> EqualUnordered (ep_Addresses e) (ep_Addresses f) then False
               else if ep_Labels e \<noteq> ep_Labels f then False
               else if policy_name (ep_DiscoverabilityPolicy e) \<noteq> policy_name (ep_DiscoverabilityPolicy f) then False
               else if ep_HealthStatus e \<noteq> ep_HealthStatus f then False
               else if ep_EndpointPort e \<noteq> ep_EndpointPort f then False
               else True))"

section \<open>Services\<close>

definition map_of_nil :: "('k, 'v) fmap option \<Rightarrow> ('k, 'v) fmap" where
  "map_of_nil m = (case m of None \<Rightarrow> fmempty | Some m \<Rightarrow> m)"

definition ServiceAttributes_DeepCopy :: "ServiceAttributes \<Rightarrow> ServiceAttributes" where
  "ServiceAttributes_DeepCopy s =
     s\<lparr>sa_ExportTo := (if sa_ExportTo s \<noteq> None then Copy (sa_ExportTo s) else sa_ExportTo s)\<rparr>"

definition ServiceAttributes_Equals :: "ServiceAttributes option \<Rightarrow> ServiceAttributes option \<Rightarrow> bool" where
  "ServiceAttributes_Equals s other =
     (case s of None \<Rightarrow> other = None
      | Some a \<Rightarrow> (case other of None \<Rightarrow> False
        | Some b \<Rightarrow>
            if map_of_nil (sa_Labels a) \<noteq> map_of_nil (sa_Labels b) then False
            else if map_of_nil (sa_LabelSelectors a) \<noteq> map_of_nil (sa_LabelSelectors b) then False
            else if elems (sa_ExportTo a) \<noteq> elems (sa_ExportTo b) then False
            else if sa_Aliases a \<noteq> sa_Aliases b then False
            else sa_Name a = sa_Name b \<and> sa_Namespace a = sa_Namespace b \<and>
                 sa_ServiceRegistry a = sa_ServiceRegistry b \<and> sa_K8sAttributes a = sa_K8sAttributes b))"

definition Port_Equals :: "Port option \<Rightarrow> Port option \<Rightarrow> bool" where
  "Port_Equals p other =
     (case p of None \<Rightarrow> other = None
      | Some a \<Rightarrow> (case other of None \<Rightarrow> False
        | Some b \<Rightarrow> port_Name a = port_Name b \<and> port_Port a = port_Port b \<and> port_Protocol a = port_Protocol b))"

definition PortList_Equals :: "Port option list option \<Rightarrow> Port option list option \<Rightarrow> bool" where
  "PortList_Equals ports other =
     EqualFunc Port_Equals (case ports of None \<Rightarrow> [] | Some p \<Rightarrow> p) (case other of None \<Rightarrow> [] | Some p \<Rightarrow> p)"

fun GetByPort :: "Port option list \<Rightarrow> int \<Rightarrow> panic + (Port option \<times> bool)" where
  "GetByPort [] num = Inr (None, False)"
| "GetByPort (port # ports) num =
     (case port of None \<Rightarrow> Inl NilDeref
      | Some p \<Rightarrow> if port_Port p = num then Inr (Some p, True) else GetByPort ports num)"

definition Service_DeepCopy :: "Service \<Rightarrow> Service" where
  "Service_DeepCopy s =
     \<lparr>svc_Attributes = ServiceAttributes_DeepCopy (svc_Attributes s), svc_Hostname = svc_Hostname s,
      svc_Ports = map_option (map (map_option (\<lambda>port. \<lparr>port_Name = port_Name port,
        port_Port = port_Port port, port_Protocol = port_Protocol port\<rparr>))) (svc_Ports s),
      svc_ServiceAccounts = svc_ServiceAccounts s, svc_Addresses = svc_Addresses s,
      svc_CreationTime = svc_CreationTime s, svc_DefaultAddress = svc_DefaultAddress s,
      svc_ResourceVersion = svc_ResourceVersion s, svc_Resolution = svc_Resolution s,
      svc_AutoAllocatedIPv4Address = svc_AutoAllocatedIPv4Address s,
      svc_AutoAllocatedIPv6Address = svc_AutoAllocatedIPv6Address s,
      svc_MeshExternal = svc_MeshExternal s\<rparr>"

definition Service_Key :: "Service option \<Rightarrow> string" where
  "Service_Key s = (case s of None \<Rightarrow> [] | Some s \<Rightarrow> sa_Namespace (svc_Attributes s) @ ''/'' @ svc_Hostname s)"

definition Service_Equals :: "Service option \<Rightarrow> Service option \<Rightarrow> bool" where
  "Service_Equals s other =
     (case s of None \<Rightarrow> other = None
      | Some a \<Rightarrow> (case other of None \<Rightarrow> False
        | Some b \<Rightarrow>
            if \<not> ServiceAttributes_Equals (Some (svc_Attributes a)) (Some (svc_Attributes b)) then False
            else if \<not> PortList_Equals (svc_Ports a) (svc_Ports b) then False
            else if svc_ServiceAccounts a \<noteq> svc_ServiceAccounts b then False
            else if svc_Addresses a \<noteq> svc_Addresses b then False
            else svc_DefaultAddress a = svc_DefaultAddress b \<and>
                 svc_AutoAllocatedIPv4Address a = svc_AutoAllocatedIPv4Address b \<and>
                 svc_AutoAllocatedIPv6Address a = svc_AutoAllocatedIPv6Address b \<and>
                 svc_Hostname a = svc_Hostname b \<and> svc_Resolution a = svc_Resolution b \<and>
                 svc_MeshExternal a = svc_MeshExternal b))"

definition SupportsUnhealthyEndpoints :: "Service option \<Rightarrow> bool" where
  "SupportsUnhealthyEndpoints s =
     (case s of None \<Rightarrow> False | Some s \<Rightarrow> k8s_PublishNotReadyAddresses (sa_K8sAttributes (svc_Attributes s)))"

definition SupportsDrainingEndpoints :: "Service option \<Rightarrow> bool" where
  "SupportsDrainingEndpoints s = False"

text \<open>\<open>node\<close> is only tested against \<^verbatim>\<open>nil\<close>.\<close>

definition nodeUsesAutoallocatedIPs :: "'n option \<Rightarrow> bool" where
  "nodeUsesAutoallocatedIPs node = (if node = None then False else False)"

definition getAllAddressesForProxy :: "Service \<Rightarrow> 'n option \<Rightarrow> string list" where
  "getAllAddressesForProxy s node =
     (let addresses = svc_Addresses s;
          addresses = (if addresses = [] \<and> nodeUsesAutoallocatedIPs node
            then addresses @ (if svc_AutoAllocatedIPv4Address s \<noteq> [] then [svc_AutoAllocatedIPv4Address s] else [])
              @ (if svc_AutoAllocatedIPv6Address s \<noteq> [] then [svc_AutoAllocatedIPv6Address s] else [])
            else addresses)
      in if addresses \<noteq> [] then addresses
         else if svc_DefaultAddress s \<noteq> [] then [svc_DefaultAddress s] else [])"

definition GetAddressForProxy :: "Service \<Rightarrow> 'n option \<Rightarrow> string" where
  "GetAddressForProxy s node =
     (case getAllAddressesForProxy s node of a # _ \<Rightarrow> a | [] \<Rightarrow> ''0.0.0.0'')"

definition GetExtraAddressesForProxy :: "Service \<Rightarrow> 'n option \<Rightarrow> string list" where
  "GetExtraAddressesForProxy s node =
     (let addresses = getAllAddressesForProxy s node
      in if length addresses > 1 then drop 1 addresses else [])"

section \<open>Facts\<close>

lemma EqualUnordered_iff: "EqualUnordered s1 s2 \<longleftrightarrow> length s1 = length s2 \<and> set s2 \<subseteq> set s1"
  by (auto simp: EqualUnordered_def list_all_iff fset_of_list.rep_eq)

lemma EqualUnordered_refl [simp]: "EqualUnordered s s"
  by (simp add: EqualUnordered_iff)

lemma EqualUnordered_distinct:
  assumes "distinct s2"
  shows "EqualUnordered s1 s2 \<longleftrightarrow> mset s1 = mset s2"
proof
  assume "EqualUnordered s1 s2"
  then have len: "length s1 = length s2" and sub: "set s2 \<subseteq> set s1" by (simp_all add: EqualUnordered_iff)
  have "card (set s2) = length s1" using distinct_card [OF assms] len by simp
  moreover have "card (set s2) \<le> card (set s1)" using sub by (simp add: card_mono)
  ultimately have "card (set s1) = length s1" using card_length [of s1] by simp
  then have "distinct s1" by (rule card_distinct)
  moreover have "set s1 = set s2"
    using sub \<open>card (set s2) = length s1\<close> \<open>card (set s1) = length s1\<close> by (metis card_subset_eq finite_set)
  ultimately show "mset s1 = mset s2" using assms set_eq_iff_mset_eq_distinct by blast
next
  assume "mset s1 = mset s2"
  then show "EqualUnordered s1 s2" by (metis EqualUnordered_iff mset_eq_length mset_eq_setD order_refl)
qed

text \<open>With repeated elements the comparison is neither exact nor symmetric.\<close>

lemma EqualUnordered_repeated:
  "EqualUnordered [1, 2] [1, 1 :: nat]" "\<not> EqualUnordered [1, 1] [1, 2 :: nat]"
  by (simp_all add: EqualUnordered_iff)

lemma EqualFunc_iff: "EqualFunc eq s1 s2 \<longleftrightarrow> list_all2 eq s1 s2"
  by (induction eq s1 s2 rule: EqualFunc.induct) simp_all

lemma labels_inclusion:
  "labels_SubsetOf i that \<longleftrightarrow> (\<forall>k v. fmlookup i k = Some v \<longrightarrow> fmlookup that k = Some v)"
proof
  assume sub: "\<forall>k v. fmlookup i k = Some v \<longrightarrow> fmlookup that k = Some v"
  have "fmdom i |\<subseteq>| fmdom that"
  proof (rule fsubsetI)
    fix k assume "k |\<in>| fmdom i"
    then obtain v where "fmlookup i k = Some v" by (rule fmdomE)
    then show "k |\<in>| fmdom that" using sub by (simp add: fmdomI)
  qed
  then have len: "fm_len i \<le> fm_len that" by (simp add: fm_len_def fcard_mono)
  have "case fmlookup that k of None \<Rightarrow> False | Some v2 \<Rightarrow> fmlookup i k = Some v2" if dom: "k |\<in>| fmdom i" for k
  proof -
    obtain v where "fmlookup i k = Some v" using dom by (rule fmdomE)
    then show ?thesis using sub by simp
  qed
  then show "labels_SubsetOf i that"
    unfolding labels_SubsetOf_def using len by (simp del: fm_len_0 add: linorder_not_less) (metis fm_len_0 le_zero_eq)
next
  assume sub: "labels_SubsetOf i that"
  show "\<forall>k v. fmlookup i k = Some v \<longrightarrow> fmlookup that k = Some v"
  proof (intro allI impI)
    fix k v assume kv: "fmlookup i k = Some v"
    then have "i \<noteq> fmempty" by auto
    moreover have "k |\<in>| fmdom i" using kv by (rule fmdomI)
    ultimately have "case fmlookup that k of None \<Rightarrow> False | Some v2 \<Rightarrow> fmlookup i k = Some v2"
      using sub by (simp add: labels_SubsetOf_def split: if_splits)
    then show "fmlookup that k = Some v" using kv by (cases "fmlookup that k") simp_all
  qed
qed

lemma labels_Match_iff: "labels_Match i that \<longleftrightarrow> i \<noteq> fmempty \<and> labels_SubsetOf i that"
  by (simp add: labels_Match_def)

lemma Port_Equals_eq [simp]: "Port_Equals = (=)"
  by (intro ext) (auto simp: Port_Equals_def split: option.splits)

lemma PortList_Equals_iff:
  "PortList_Equals p q \<longleftrightarrow> (case p of None \<Rightarrow> [] | Some xs \<Rightarrow> xs) = (case q of None \<Rightarrow> [] | Some xs \<Rightarrow> xs)"
  by (simp add: PortList_Equals_def EqualFunc_iff list_all2_eq)

lemma ep_Equals_refl [simp]: "ep_Equals e e"
  by (simp add: ep_Equals_def split: option.splits)

lemma ep_Equals_visible:
  assumes "ep_Equals (Some e) (Some f)"
  shows "ep_HealthStatus e = ep_HealthStatus f" "ep_SendUnhealthyEndpoints e = ep_SendUnhealthyEndpoints f"
    "ep_ServiceAccount e = ep_ServiceAccount f"
  using assms by (auto simp: ep_Equals_def Let_def split: if_splits)

lemma ServiceAttributes_DeepCopy_id [simp]: "ServiceAttributes_DeepCopy s = s"
  by (auto simp: ServiceAttributes_DeepCopy_def Copy_def)

lemma Service_Equals_refl [simp]: "Service_Equals s s"
  by (simp add: Service_Equals_def ServiceAttributes_Equals_def PortList_Equals_iff split: option.splits)

lemma Service_DeepCopy_id: "Service_DeepCopy s = s"
proof -
  have "(\<lambda>port. \<lparr>port_Name = port_Name port, port_Port = port_Port port, port_Protocol = port_Protocol port\<rparr>) = id"
    by (simp add: fun_eq_iff)
  then show ?thesis by (simp add: Service_DeepCopy_def option.map_id0 list.map_id0)
qed

end
