(* ===== verification/Policies.thy ===== *)
theory Policies
  imports Configs Services "HOL-Library.Product_Lexorder"
begin

text \<open>
  Configuration objects and the security policies built from them: the order of configurations and
  the resolution of short host names (\<^verbatim>\<open>dubbod/discovery/pkg/model/config.go\<close>) and the
  authentication policies (\<^verbatim>\<open>dubbod/discovery/pkg/model/authentication.go\<close>), i.e. which mutual TLS
  mode a workload gets and which request authentications and authorization policies apply to it.
  The dynamic type of \<^verbatim>\<open>config.Spec\<close> is a constructor of \<open>Spec\<close>; its argument is \<^verbatim>\<open>None\<close> for a typed
  \<^verbatim>\<open>nil\<close> pointer. Of a specification the fields that the control plane reads are kept.
\<close>

section \<open>Configuration objects\<close>

record GroupVersionKind =
  gvk_Group :: string
  gvk_Version :: string
  gvk_Kind :: string

definition CanonicalGroup :: "GroupVersionKind \<Rightarrow> string" where
  "CanonicalGroup g = (if gvk_Group g \<noteq> [] then gvk_Group g else ''core'')"

definition GVK_String :: "GroupVersionKind \<Rightarrow> string" where
  "GVK_String g = CanonicalGroup g @ ''/'' @ gvk_Version g @ ''/'' @ gvk_Kind g"

record Meta =
  meta_GroupVersionKind :: GroupVersionKind
  meta_UID :: string
  meta_Name :: string
  meta_Namespace :: string
  meta_Domain :: string
  meta_Labels :: labels
  meta_Annotations :: labels
  meta_ResourceVersion :: string
  meta_CreationTimestamp :: time
  meta_Generation :: int

text \<open>An enumeration of a protobuf message may hold a number that has no name.\<close>

datatype mtls_mode = MODE_UNSET | MODE_DISABLE | MODE_PERMISSIVE | MODE_STRICT | MODE_other int

record WorkloadSelector =
  ws_MatchLabels :: labels

text \<open>\<open>pa_Mtls\<close> and the entries of \<open>pa_PortLevelMtls\<close> are pointers to messages that hold a mode.\<close>

record PeerAuthentication =
  pa_Selector :: "WorkloadSelector option"
  pa_Mtls :: "mtls_mode option"
  pa_PortLevelMtls :: "(32 word, mtls_mode option) fmap"

record JWTHeader =
  jh_Name :: string
  jh_Prefix :: string

record JWTRule =
  jr_Issuer :: string
  jr_Audiences :: "string list"
  jr_JwksUri :: string
  jr_Jwks :: string
  jr_FromHeaders :: "JWTHeader option list"
  jr_FromParams :: "string list"

record RequestAuthentication =
  ra_Selector :: "WorkloadSelector option"
  ra_JwtRules :: "JWTRule option list"

record Source =
  so_RequestPrincipals :: "string list"
  so_Principals :: "string list"

record Condition =
  co_Key :: string
  co_Values :: "string list"
  co_NotValues :: "string list"

text \<open>An element of \<open>ru_From\<close> is a pointer to a message that holds a pointer to a source.\<close>

record Rule =
  ru_From :: "Source option option list"
  ru_When :: "Condition option list"

datatype authz_action = ALLOW | DENY | ACTION_other int

record AuthorizationPolicy =
  ap_Selector :: "WorkloadSelector option"
  ap_Action :: authz_action
  ap_Rules :: "Rule option list"

text \<open>HTTP routes. Port numbers and weights are of type \<^verbatim>\<open>int32\<close>, durations are strings.\<close>

record ParentReference =
  pf_Group :: "string option"
  pf_Kind :: "string option"
  pf_Namespace :: "string option"
  pf_Name :: string
  pf_SectionName :: "string option"
  pf_Port :: "32 word option"

datatype path_match_type = PathMatchExact | PathMatchPathPrefix | PathMatchRegularExpression
  | PathMatch_other string

record HTTPPathMatch =
  pm_Type :: "path_match_type option"
  pm_Value :: "string option"

datatype header_match_type = HeaderMatchExact | HeaderMatchRegularExpression | HeaderMatch_other string

record HTTPHeaderMatch =
  hh_Type :: "header_match_type option"
  hh_Name :: string
  hh_Value :: string

record HTTPRouteMatch =
  mt_Path :: "HTTPPathMatch option"
  mt_Headers :: "HTTPHeaderMatch list"

record HTTPBackendRef =
  be_Name :: string
  be_Namespace :: "string option"
  be_Port :: "32 word option"
  be_Weight :: "32 word option"

record HTTPRouteTimeouts =
  to_Request :: "string option"
  to_BackendRequest :: "string option"

record HTTPRouteRetry =
  rt_Codes :: "int list"
  rt_Attempts :: "int option"
  rt_Backoff :: "string option"

record HTTPRouteRule =
  rl_Matches :: "HTTPRouteMatch list"
  rl_BackendRefs :: "HTTPBackendRef list"
  rl_Timeouts :: "HTTPRouteTimeouts option"
  rl_Retry :: "HTTPRouteRetry option"

record HTTPRouteSpec =
  hr_ParentRefs :: "ParentReference list"
  hr_Hostnames :: "string list"
  hr_Rules :: "HTTPRouteRule list"

record LocalPolicyTargetReference =
  lt_Group :: string
  lt_Kind :: string
  lt_Name :: string
  lt_SectionName :: "string option"

record BackendTLSPolicySpec =
  bt_Hostname :: string
  bt_WellKnownCACertificates :: "string option"
  bt_TargetRefs :: "LocalPolicyTargetReference list"

text \<open>A duration message is represented by what \<^verbatim>\<open>CheckValid() == nil\<close> and \<^verbatim>\<open>AsDuration()\<close> return.\<close>

record duration_message =
  du_Valid :: bool
  du_AsDuration :: int

record FaultDelay =
  fd_FixedDelay :: "duration_message option"
  fd_Percentage :: "32 word option"

record FaultAbort =
  fa_HttpStatus :: "32 word"
  fa_Percentage :: "32 word option"

record PolicyTargetReference =
  pt_Group :: string
  pt_Kind :: string
  pt_Name :: string
  pt_SectionName :: string

record FaultInjectionPolicy =
  fi_Delay :: "FaultDelay option"
  fi_Abort :: "FaultAbort option"
  fi_TargetRefs :: "PolicyTargetReference option list"

datatype Spec =
    HTTPRoute "HTTPRouteSpec option"
  | BackendTLSPolicy "BackendTLSPolicySpec option"
  | FaultInjection "FaultInjectionPolicy option"
  | RequestAuthn "RequestAuthentication option"
  | AuthzPolicy "AuthorizationPolicy option"
  | PeerAuthn "PeerAuthentication option"
  | OtherSpec

record Config = Meta +
  cfg_Spec :: Spec

section \<open>Order and names\<close>

text \<open>
  \<^verbatim>\<open>sort.Slice\<close> is not stable, but the configurations of one kind differ in name or namespace, so
  that no two of them compare equal.
\<close>

definition creation_key :: "Config \<Rightarrow> time \<times> string \<times> string" where
  "creation_key c = (meta_CreationTimestamp c, meta_Name c, meta_Namespace c)"

definition sortConfigByCreationTime :: "Config list \<Rightarrow> Config list" where
  "sortConfigByCreationTime configs = sort_key creation_key configs"

text \<open>
  \<^verbatim>\<open>netip.ParseAddr\<close>, as far as it decides whether a string is an address. The fields of an IPv4
  address are decimal numbers up to 255 without leading zeros.
\<close>

definition valid_octet :: "string \<Rightarrow> bool" where
  "valid_octet f \<longleftrightarrow> f \<noteq> [] \<and> list_all is_digit f \<and> (length f = 1 \<or> hd f \<noteq> CHR ''0'') \<and>
     (case ParseUint 0 f of Some n \<Rightarrow> n \<le> 255 | None \<Rightarrow> False)"

definition parseIPv4 :: "string \<Rightarrow> bool" where
  "parseIPv4 s \<longleftrightarrow> length (Split s (CHR ''.'')) = 4 \<and> list_all valid_octet (Split s (CHR ''.''))"

definition is_hex :: "char \<Rightarrow> bool" where
  "is_hex c \<longleftrightarrow> is_digit c \<or> c \<in> set ''abcdefABCDEF''"

text \<open>
  The loop over the groups of an IPv6 address: \<open>i\<close> counts the bytes parsed, \<open>ellipsis\<close> tells
  whether a double colon was seen. At most eight iterations are left when \<open>i\<close> is \<open>0\<close>.
\<close>

definition finish_IPv6 :: "string \<Rightarrow> nat \<Rightarrow> bool \<Rightarrow> bool" where
  "finish_IPv6 s i ellipsis \<longleftrightarrow> s = [] \<and> (if i < 16 then ellipsis else \<not> ellipsis)"

function parseIPv6_groups :: "string \<Rightarrow> nat \<Rightarrow> bool \<Rightarrow> bool" where
  "parseIPv6_groups s i ellipsis =
     (if \<not> i < 16 then finish_IPv6 s i ellipsis
      else let group = takeWhile is_hex s; rest = dropWhile is_hex s in
      if length group > 4 then False
      else if group = [] then False
      else if rest \<noteq> [] \<and> hd rest = CHR ''.'' then
        (ellipsis \<or> i = 12) \<and> i + 4 \<le> 16 \<and> parseIPv4 s \<and> finish_IPv6 [] (i + 4) ellipsis
      else if rest = [] then finish_IPv6 [] (i + 2) ellipsis
      else if hd rest \<noteq> CHR '':'' then False
      else if length rest = 1 then False
      else let s = tl rest in
      if hd s = CHR '':'' then
        (if ellipsis then False
         else if tl s = [] then finish_IPv6 [] (i + 2) True
         else parseIPv6_groups (tl s) (i + 2) True)
      else parseIPv6_groups s (i + 2) ellipsis)"
  by pat_completeness auto
termination by (relation "measure (\<lambda>(s, i, e). 16 - i)") auto

definition parseIPv6 :: "string \<Rightarrow> bool" where
  "parseIPv6 text =
     (let s = takeWhile (\<lambda>c. c \<noteq> CHR ''%'') text; zone = dropWhile (\<lambda>c. c \<noteq> CHR ''%'') text in
      if zone \<noteq> [] \<and> tl zone = [] then False
      else if HasPrefix s ''::'' then
        (if drop 2 s = [] then True else parseIPv6_groups (drop 2 s) 0 True)
      else parseIPv6_groups s 0 False)"

definition IsValidIPAddress :: "string \<Rightarrow> bool" where
  "IsValidIPAddress ip =
     (case dropWhile (\<lambda>c. c \<notin> set ''.:%'') ip of
        [] \<Rightarrow> False
      | c # _ \<Rightarrow> if c = CHR ''.'' then parseIPv4 ip else if c = CHR '':'' then parseIPv6 ip else False)"

definition ResolveShortnameToFQDN :: "string \<Rightarrow> 'm Meta_scheme \<Rightarrow> host_name" where
  "ResolveShortnameToFQDN hostname meta =
     (if length hostname = 0 then []
      else if hostname = ''*'' then hostname
      else if IsValidIPAddress hostname then hostname
      else if \<not> Contains_str hostname ''.'' then
        let out = (if meta_Namespace meta \<noteq> [] then hostname @ ''.'' @ meta_Namespace meta else hostname)
        in if meta_Domain meta \<noteq> [] then out @ ''.svc.'' @ meta_Domain meta else out
      else hostname)"

section \<open>Authentication policies\<close>

datatype MutualTLSMode = MTLSUnknown | MTLSDisable | MTLSPermissive | MTLSStrict

record AuthenticationPolicies =
  au_requestAuthentications :: "(string, Config list) fmap"
  au_authorizationPolicies :: "(string, Config list) fmap"
  au_peerAuthentications :: "(string, Config list) fmap"
  au_globalMutualTLSMode :: MutualTLSMode
  au_rootNamespace :: string
  au_namespaceMutualTLSMode :: "(string, MutualTLSMode) fmap"
  au_aggregateVersion :: string

definition ConvertToMutualTLSMode :: "mtls_mode \<Rightarrow> MutualTLSMode" where
  "ConvertToMutualTLSMode mode =
     (case mode of MODE_DISABLE \<Rightarrow> MTLSDisable | MODE_PERMISSIVE \<Rightarrow> MTLSPermissive
      | MODE_STRICT \<Rightarrow> MTLSStrict | _ \<Rightarrow> MTLSUnknown)"

text \<open>\<^verbatim>\<open>m[k] = append(m[k], v)\<close>, and the slice of a missing key.\<close>

definition slice_at :: "('k, 'v list) fmap \<Rightarrow> 'k \<Rightarrow> 'v list" where
  "slice_at m k = (case fmlookup m k of None \<Rightarrow> [] | Some vs \<Rightarrow> vs)"

definition append_at :: "'k \<Rightarrow> 'v \<Rightarrow> ('k, 'v list) fmap \<Rightarrow> ('k, 'v list) fmap" where
  "append_at k v m = fmupd k (slice_at m k @ [v]) m"

fun is_request_authn :: "Spec \<Rightarrow> bool" where
  "is_request_authn (RequestAuthn _) = True"
| "is_request_authn _ = False"

fun is_authz_policy :: "Spec \<Rightarrow> bool" where
  "is_authz_policy (AuthzPolicy _) = True"
| "is_authz_policy _ = False"

definition addRequestAuthentication :: "AuthenticationPolicies \<Rightarrow> Config list \<Rightarrow> AuthenticationPolicies" where
  "addRequestAuthentication policy configs = fold (\<lambda>config policy.
     if is_request_authn (cfg_Spec config)
     then policy\<lparr>au_requestAuthentications := append_at (meta_Namespace config) config (au_requestAuthentications policy)\<rparr>
     else policy) configs policy"

definition addAuthorizationPolicy :: "AuthenticationPolicies \<Rightarrow> Config list \<Rightarrow> AuthenticationPolicies" where
  "addAuthorizationPolicy policy configs = fold (\<lambda>config policy.
     if is_authz_policy (cfg_Spec config)
     then policy\<lparr>au_authorizationPolicies := append_at (meta_Namespace config) config (au_authorizationPolicies policy)\<rparr>
     else policy) configs policy"

fun as_PeerAuthentication :: "Spec \<Rightarrow> panic + PeerAuthentication option" where
  "as_PeerAuthentication (PeerAuthn spec) = Inr spec"
| "as_PeerAuthentication _ = Inl TypeAssertion"

text \<open>\<^verbatim>\<open>spec.GetSelector()\<close>, which accepts a \<^verbatim>\<open>nil\<close> message.\<close>

definition peer_selector :: "PeerAuthentication option \<Rightarrow> WorkloadSelector option" where
  "peer_selector spec = Option.bind spec pa_Selector"

definition no_labels :: "WorkloadSelector option \<Rightarrow> bool" where
  "no_labels selector = (case selector of None \<Rightarrow> True | Some s \<Rightarrow> fm_len (ws_MatchLabels s) = 0)"

text \<open>
  The loop of \<^verbatim>\<open>addPeerAuthentication\<close>; \<open>found\<close> and \<open>seen\<close> are its two local maps. The policy of a
  namespace or of the mesh is the first one without a selector.
\<close>

fun add_peers ::
    "Config list \<Rightarrow> AuthenticationPolicies \<Rightarrow> (string, mtls_mode) fmap \<Rightarrow> (string, time) fmap \<Rightarrow>
       panic + (AuthenticationPolicies \<times> (string, mtls_mode) fmap)" where
  "add_peers [] policy found seen = Inr (policy, found)"
| "add_peers (config # configs) policy found seen =
     (let ns = meta_Namespace config;
          keep = (\<lambda>policy. policy\<lparr>au_peerAuthentications := append_at ns config (au_peerAuthentications policy)\<rparr>)
      in case as_PeerAuthentication (cfg_Spec config) of Inl p \<Rightarrow> Inl p
      | Inr spec \<Rightarrow>
          if no_labels (peer_selector spec) then
            if fmlookup seen ns \<noteq> None then add_peers configs policy found seen
            else let seen = fmupd ns (meta_CreationTimestamp config) seen in
            case spec of None \<Rightarrow> Inl NilDeref
            | Some spec \<Rightarrow>
                let mode = (case pa_Mtls spec of None \<Rightarrow> MODE_UNSET | Some m \<Rightarrow> m) in
                if ns = au_rootNamespace policy
                then add_peers configs (keep (policy\<lparr>au_globalMutualTLSMode := ConvertToMutualTLSMode mode\<rparr>)) found seen
                else add_peers configs (keep policy) (fmupd ns mode found) seen
          else add_peers configs (keep policy) found seen)"

definition inherit_mode :: "MutualTLSMode \<Rightarrow> mtls_mode \<Rightarrow> MutualTLSMode" where
  "inherit_mode inherited mode = (if mode = MODE_UNSET then inherited else ConvertToMutualTLSMode mode)"

definition addPeerAuthentication ::
    "AuthenticationPolicies \<Rightarrow> Config list \<Rightarrow> panic + AuthenticationPolicies" where
  "addPeerAuthentication policy configs =
     map_sum id (\<lambda>(policy, found). policy\<lparr>au_namespaceMutualTLSMode :=
       fmmap (inherit_mode (au_globalMutualTLSMode policy)) found\<rparr>)
       (add_peers (sortConfigByCreationTime configs) policy fmempty fmempty)"

text \<open>\<open>md5\<close> is the hexadecimal digest of a string.\<close>

definition authPolicyAggregateVersion :: "(string \<Rightarrow> string) \<Rightarrow> Config list list \<Rightarrow> string" where
  "authPolicyAggregateVersion md5 groups =
     md5 (Join (map (\<lambda>cfg. GVK_String (meta_GroupVersionKind cfg) @ ''.'' @ meta_Namespace cfg @ ''.'' @
       meta_Name cfg @ ''.'' @ meta_UID cfg @ ''.'' @ meta_ResourceVersion cfg) (concat groups)) '';'')"

text \<open>\<open>list kind\<close> is what the configuration store lists of a kind in all namespaces.\<close>

definition initAuthenticationPolicies ::
    "(string \<Rightarrow> string) \<Rightarrow> string \<Rightarrow> (kind \<Rightarrow> Config list) \<Rightarrow> panic + AuthenticationPolicies" where
  "initAuthenticationPolicies md5 rootNamespace list =
     (let policy = \<lparr>au_requestAuthentications = fmempty, au_authorizationPolicies = fmempty,
            au_peerAuthentications = fmempty, au_globalMutualTLSMode = MTLSUnknown,
            au_rootNamespace = rootNamespace, au_namespaceMutualTLSMode = fmempty, au_aggregateVersion = []\<rparr>;
          requestAuthentications = sortConfigByCreationTime (list KindRequestAuthentication);
          authorizationPolicies = sortConfigByCreationTime (list KindAuthorizationPolicy);
          peerAuthentications = sortConfigByCreationTime (list KindPeerAuthentication);
          policy = addRequestAuthentication policy requestAuthentications;
          policy = addAuthorizationPolicy policy authorizationPolicies
      in map_sum id (\<lambda>policy. policy\<lparr>au_aggregateVersion := authPolicyAggregateVersion md5
             [requestAuthentications, authorizationPolicies, peerAuthentications]\<rparr>)
           (addPeerAuthentication policy peerAuthentications))"

definition hasPeerAuthSelector :: "PeerAuthentication option \<Rightarrow> bool" where
  "hasPeerAuthSelector spec = (case spec of None \<Rightarrow> False | Some _ \<Rightarrow> \<not> no_labels (peer_selector spec))"

text \<open>A missing label reads as the empty string.\<close>

definition label_at :: "labels \<Rightarrow> string \<Rightarrow> string" where
  "label_at m k = (case fmlookup m k of None \<Rightarrow> [] | Some v \<Rightarrow> v)"

definition selectorMatchesWorkload :: "WorkloadSelector option \<Rightarrow> labels \<Rightarrow> bool" where
  "selectorMatchesWorkload selector workloadLabels =
     (if no_labels selector then True
      else if fm_len workloadLabels = 0 then False
      else case selector of None \<Rightarrow> True
        | Some s \<Rightarrow> fmpred (\<lambda>k v. label_at workloadLabels k = v) (ws_MatchLabels s))"

definition peerAuthenticationModeForPort :: "PeerAuthentication option \<Rightarrow> 32 word \<Rightarrow> MutualTLSMode" where
  "peerAuthenticationModeForPort spec port =
     (case spec of None \<Rightarrow> MTLSUnknown
      | Some spec \<Rightarrow>
          let whole = (case pa_Mtls spec of None \<Rightarrow> MTLSUnknown
                | Some mode \<Rightarrow> if mode \<noteq> MODE_UNSET then ConvertToMutualTLSMode mode else MTLSUnknown)
          in if port \<noteq> 0 then (case fmlookup (pa_PortLevelMtls spec) port of
               Some (Some mode) \<Rightarrow> if mode \<noteq> MODE_UNSET then ConvertToMutualTLSMode mode else whole
             | _ \<Rightarrow> whole)
             else whole)"

text \<open>The two loops of \<^verbatim>\<open>matchingPeerAuthentication\<close>: \<open>wanted\<close> is the condition of the loop.\<close>

fun first_mode ::
    "(PeerAuthentication option \<Rightarrow> bool) \<Rightarrow> 32 word \<Rightarrow> Config list \<Rightarrow> panic + MutualTLSMode" where
  "first_mode wanted port [] = Inr MTLSUnknown"
| "first_mode wanted port (cfg # configs) =
     (case as_PeerAuthentication (cfg_Spec cfg) of Inl p \<Rightarrow> Inl p
      | Inr spec \<Rightarrow>
          if wanted spec \<and> peerAuthenticationModeForPort spec port \<noteq> MTLSUnknown
          then Inr (peerAuthenticationModeForPort spec port)
          else first_mode wanted port configs)"

definition matchingPeerAuthentication ::
    "AuthenticationPolicies \<Rightarrow> string \<Rightarrow> labels \<Rightarrow> 32 word \<Rightarrow> panic + MutualTLSMode" where
  "matchingPeerAuthentication policy namespace workloadLabels port =
     (let configs = slice_at (au_peerAuthentications policy) namespace in
      if length configs = 0 then Inr MTLSUnknown
      else case first_mode (\<lambda>spec. hasPeerAuthSelector spec \<and>
               selectorMatchesWorkload (peer_selector spec) workloadLabels) port configs of
        Inl p \<Rightarrow> Inl p
      | Inr mode \<Rightarrow> if mode \<noteq> MTLSUnknown then Inr mode
          else first_mode (\<lambda>spec. \<not> hasPeerAuthSelector spec) port configs)"

definition EffectiveMutualTLSMode ::
    "AuthenticationPolicies option \<Rightarrow> string \<Rightarrow> labels \<Rightarrow> 32 word \<Rightarrow> panic + MutualTLSMode" where
  "EffectiveMutualTLSMode policy namespace workloadLabels port =
     (case policy of None \<Rightarrow> Inr MTLSUnknown
      | Some policy \<Rightarrow>
          let global = Inr (au_globalMutualTLSMode policy);
              root = (if au_rootNamespace policy \<noteq> [] then
                case matchingPeerAuthentication policy (au_rootNamespace policy) workloadLabels port of
                  Inl p \<Rightarrow> Inl p
                | Inr mode \<Rightarrow> if mode \<noteq> MTLSUnknown then Inr mode else global
                else global)
          in if namespace \<noteq> [] then
               case matchingPeerAuthentication policy namespace workloadLabels port of
                 Inl p \<Rightarrow> Inl p
               | Inr mode \<Rightarrow>
                   if mode \<noteq> MTLSUnknown then Inr mode
                   else case fmlookup (au_namespaceMutualTLSMode policy) namespace of
                     Some mode \<Rightarrow> if mode \<noteq> MTLSUnknown then Inr mode else root
                   | None \<Rightarrow> root
             else root)"

definition matchingWorkloadSecurityConfigs ::
    "AuthenticationPolicies \<Rightarrow> (string, Config list) fmap \<Rightarrow> string \<Rightarrow> labels \<Rightarrow>
       (Spec \<Rightarrow> WorkloadSelector option) \<Rightarrow> Config list" where
  "matchingWorkloadSecurityConfigs policy configsByNamespace namespace workloadLabels selector =
     (let matches = filter (\<lambda>cfg. selectorMatchesWorkload (selector (cfg_Spec cfg)) workloadLabels)
      in (if namespace \<noteq> [] then matches (slice_at configsByNamespace namespace) else []) @
         (if au_rootNamespace policy \<noteq> [] \<and> au_rootNamespace policy \<noteq> namespace
          then matches (slice_at configsByNamespace (au_rootNamespace policy)) else []))"

fun request_selector :: "Spec \<Rightarrow> WorkloadSelector option" where
  "request_selector (RequestAuthn req) = Option.bind req ra_Selector"
| "request_selector _ = None"

fun authz_selector :: "Spec \<Rightarrow> WorkloadSelector option" where
  "authz_selector (AuthzPolicy authz) = Option.bind authz ap_Selector"
| "authz_selector _ = None"

definition RequestAuthenticationsForWorkload ::
    "AuthenticationPolicies option \<Rightarrow> string \<Rightarrow> labels \<Rightarrow> Config list" where
  "RequestAuthenticationsForWorkload policy namespace workloadLabels =
     (case policy of None \<Rightarrow> []
      | Some policy \<Rightarrow> matchingWorkloadSecurityConfigs policy (au_requestAuthentications policy) namespace
          workloadLabels request_selector)"

definition AuthorizationPoliciesForWorkload ::
    "AuthenticationPolicies option \<Rightarrow> string \<Rightarrow> labels \<Rightarrow> Config list" where
  "AuthorizationPoliciesForWorkload policy namespace workloadLabels =
     (case policy of None \<Rightarrow> []
      | Some policy \<Rightarrow> matchingWorkloadSecurityConfigs policy (au_authorizationPolicies policy) namespace
          workloadLabels authz_selector)"

section \<open>What the policies mean\<close>

text \<open>
  The mode a workload should get, as a function of the configurations, oldest first: the first of
  them that is known, among the policies of its own namespace that select it, the policy of that
  namespace (which inherits the mode of the mesh when it sets none), the policies of the root
  namespace that select the workload, the policy of the root namespace, and the mode of the mesh.
  The policy of a namespace is its oldest one without a selector.
\<close>

definition first_known :: "MutualTLSMode list \<Rightarrow> MutualTLSMode" where
  "first_known modes = (case filter (\<lambda>m. m \<noteq> MTLSUnknown) modes of [] \<Rightarrow> MTLSUnknown | m # _ \<Rightarrow> m)"

fun peer_spec :: "Spec \<Rightarrow> PeerAuthentication option" where
  "peer_spec (PeerAuthn spec) = spec"
| "peer_spec _ = None"

definition selects :: "Config \<Rightarrow> bool" where
  "selects c \<longleftrightarrow> hasPeerAuthSelector (peer_spec (cfg_Spec c))"

definition namespace_policy :: "Config list \<Rightarrow> string \<Rightarrow> Config option" where
  "namespace_policy configs ns = find (\<lambda>c. meta_Namespace c = ns \<and> \<not> selects c) configs"

definition own_mode :: "Config \<Rightarrow> mtls_mode" where
  "own_mode c = (case peer_spec (cfg_Spec c) of None \<Rightarrow> MODE_UNSET
     | Some spec \<Rightarrow> (case pa_Mtls spec of None \<Rightarrow> MODE_UNSET | Some m \<Rightarrow> m))"

definition port_mode :: "32 word \<Rightarrow> Config \<Rightarrow> MutualTLSMode" where
  "port_mode port c = peerAuthenticationModeForPort (peer_spec (cfg_Spec c)) port"

definition policy_modes :: "Config list \<Rightarrow> labels \<Rightarrow> 32 word \<Rightarrow> string \<Rightarrow> MutualTLSMode list" where
  "policy_modes configs workloadLabels port ns =
     map (port_mode port)
       (filter (\<lambda>c. meta_Namespace c = ns \<and> selects c \<and>
          selectorMatchesWorkload (peer_selector (peer_spec (cfg_Spec c))) workloadLabels) configs) @
     (case namespace_policy configs ns of None \<Rightarrow> [] | Some c \<Rightarrow> [port_mode port c])"

definition mesh_mode :: "Config list \<Rightarrow> string \<Rightarrow> MutualTLSMode" where
  "mesh_mode configs root =
     (case namespace_policy configs root of None \<Rightarrow> MTLSUnknown | Some c \<Rightarrow> ConvertToMutualTLSMode (own_mode c))"

definition namespace_modes :: "Config list \<Rightarrow> string \<Rightarrow> string \<Rightarrow> MutualTLSMode list" where
  "namespace_modes configs root ns =
     (if ns = root then []
      else case namespace_policy configs ns of None \<Rightarrow> []
        | Some c \<Rightarrow> [inherit_mode (mesh_mode configs root) (own_mode c)])"

definition intended_mode :: "Config list \<Rightarrow> string \<Rightarrow> string \<Rightarrow> labels \<Rightarrow> 32 word \<Rightarrow> MutualTLSMode" where
  "intended_mode configs root ns workloadLabels port =
     first_known
       ((if ns = [] then [] else policy_modes configs workloadLabels port ns @ namespace_modes configs root ns) @
        (if root = [] then [] else policy_modes configs workloadLabels port root) @
        [mesh_mode configs root])"

lemma first_known_Nil [simp]: "first_known [] = MTLSUnknown"
  by (simp add: first_known_def)

lemma first_known_Cons [simp]:
  "first_known (m # ms) = (if m \<noteq> MTLSUnknown then m else first_known ms)"
  by (simp add: first_known_def)

lemma first_known_append:
  "first_known (ms @ ns) = (if first_known ms \<noteq> MTLSUnknown then first_known ms else first_known ns)"
  by (induction ms) simp_all

lemma slice_at_append_at:
  "slice_at (append_at k v m) k' = (if k' = k then slice_at m k @ [v] else slice_at m k')"
  by (simp add: append_at_def slice_at_def)

lemma selector_iff: "hasPeerAuthSelector spec \<longleftrightarrow> \<not> no_labels (peer_selector spec)"
  by (cases spec) (simp_all add: hasPeerAuthSelector_def no_labels_def peer_selector_def)

lemma as_PeerAuthentication_Inr:
  "as_PeerAuthentication spec = Inr s \<longleftrightarrow> spec = PeerAuthn s"
  by (cases spec) auto

lemma first_mode_eq:
  assumes "\<forall>c \<in> set configs. \<exists>s. cfg_Spec c = PeerAuthn s"
  shows "first_mode wanted port configs =
     Inr (first_known (map (port_mode port) (filter (\<lambda>c. wanted (peer_spec (cfg_Spec c))) configs)))"
  using assms by (induction configs) (auto simp: port_mode_def)

section \<open>Building the policies\<close>

text \<open>What the loop adds to the policies, for each namespace.\<close>

lemma add_peers_typed:
  assumes "add_peers configs policy found seen = Inr (policy', found')" and "c \<in> set configs"
  shows "\<exists>s. cfg_Spec c = PeerAuthn s"
  using assms
  by (induction configs policy found seen rule: add_peers.induct)
    (auto simp: Let_def as_PeerAuthentication_Inr split: sum.splits if_splits option.splits)

lemma add_peers_root:
  assumes "add_peers configs policy found seen = Inr (policy', found')"
  shows "au_rootNamespace policy' = au_rootNamespace policy"
  using assms
  by (induction configs policy found seen rule: add_peers.induct)
    (auto simp: Let_def split: sum.splits if_splits option.splits)


lemma selects_spec:
  "cfg_Spec c = PeerAuthn s \<Longrightarrow> selects c \<longleftrightarrow> \<not> no_labels (peer_selector s)"
  by (simp add: selects_def selector_iff)

lemma add_peers_selecting:
  assumes "add_peers configs policy found seen = Inr (policy', found')"
  shows "filter selects (slice_at (au_peerAuthentications policy') ns) =
    filter selects (slice_at (au_peerAuthentications policy) ns) @
    filter (\<lambda>c. meta_Namespace c = ns \<and> selects c) configs"
  using assms
  by (induction configs policy found seen rule: add_peers.induct)
    (auto simp: Let_def as_PeerAuthentication_Inr selects_spec slice_at_append_at
      split: sum.splits if_splits option.splits)

lemma add_peers_namespace:
  assumes "add_peers configs policy found seen = Inr (policy', found')"
  shows "filter (\<lambda>c. \<not> selects c) (slice_at (au_peerAuthentications policy') ns) =
    filter (\<lambda>c. \<not> selects c) (slice_at (au_peerAuthentications policy) ns) @
    (if fmlookup seen ns \<noteq> None then []
     else case namespace_policy configs ns of None \<Rightarrow> [] | Some c \<Rightarrow> [c])"
  using assms
  by (induction configs policy found seen rule: add_peers.induct)
    (auto simp: Let_def as_PeerAuthentication_Inr selects_spec slice_at_append_at namespace_policy_def
      split: sum.splits if_splits option.splits)

lemma add_peers_kept:
  assumes "add_peers configs policy found seen = Inr (policy', found')"
  shows "set (slice_at (au_peerAuthentications policy') ns) \<subseteq>
    set (slice_at (au_peerAuthentications policy) ns) \<union> set configs"
  using assms
  by (induction configs policy found seen rule: add_peers.induct)
    (fastforce simp: Let_def slice_at_append_at split: sum.splits if_splits option.splits)+

lemma add_peers_found:
  assumes "add_peers configs policy found seen = Inr (policy', found')"
  shows "fmlookup found' ns =
    (if ns = au_rootNamespace policy \<or> fmlookup seen ns \<noteq> None then fmlookup found ns
     else case namespace_policy configs ns of None \<Rightarrow> fmlookup found ns | Some c \<Rightarrow> Some (own_mode c))"
  using assms
  by (induction configs policy found seen rule: add_peers.induct)
    (auto simp: Let_def as_PeerAuthentication_Inr selects_spec namespace_policy_def own_mode_def
      split: sum.splits if_splits option.splits)

lemma add_peers_global:
  assumes "add_peers configs policy found seen = Inr (policy', found')"
  shows "au_globalMutualTLSMode policy' =
    (if fmlookup seen (au_rootNamespace policy) \<noteq> None then au_globalMutualTLSMode policy
     else case namespace_policy configs (au_rootNamespace policy) of
       None \<Rightarrow> au_globalMutualTLSMode policy | Some c \<Rightarrow> ConvertToMutualTLSMode (own_mode c))"
  using assms
  by (induction configs policy found seen rule: add_peers.induct)
    (auto simp: Let_def as_PeerAuthentication_Inr selects_spec namespace_policy_def own_mode_def
      split: sum.splits if_splits option.splits)

text \<open>The policies agree with the configurations \<open>configs\<close> they were built from.\<close>

definition built_from :: "Config list \<Rightarrow> string \<Rightarrow> AuthenticationPolicies \<Rightarrow> bool" where
  "built_from configs root policy \<longleftrightarrow>
     au_rootNamespace policy = root \<and>
     au_globalMutualTLSMode policy = mesh_mode configs root \<and>
     (\<forall>ns. fmlookup (au_namespaceMutualTLSMode policy) ns =
        (if ns = root then None
         else map_option (inherit_mode (mesh_mode configs root) \<circ> own_mode) (namespace_policy configs ns))) \<and>
     (\<forall>ns. (\<forall>c \<in> set (slice_at (au_peerAuthentications policy) ns). \<exists>s. cfg_Spec c = PeerAuthn s) \<and>
        filter selects (slice_at (au_peerAuthentications policy) ns) =
          filter (\<lambda>c. meta_Namespace c = ns \<and> selects c) configs \<and>
        filter (\<lambda>c. \<not> selects c) (slice_at (au_peerAuthentications policy) ns) =
          (case namespace_policy configs ns of None \<Rightarrow> [] | Some c \<Rightarrow> [c]))"

lemma addPeerAuthentication_built:
  assumes "addPeerAuthentication policy configs = Inr policy'"
    and "au_peerAuthentications policy = fmempty" and "au_globalMutualTLSMode policy = MTLSUnknown"
  shows "built_from (sortConfigByCreationTime configs) (au_rootNamespace policy) policy'"
proof -
  let ?configs = "sortConfigByCreationTime configs"
  obtain p found where add: "add_peers ?configs policy fmempty fmempty = Inr (p, found)"
    and p': "policy' = p\<lparr>au_namespaceMutualTLSMode := fmmap (inherit_mode (au_globalMutualTLSMode p)) found\<rparr>"
    using assms(1) unfolding addPeerAuthentication_def
    by (cases "add_peers ?configs policy fmempty fmempty") auto
  have none: "slice_at (au_peerAuthentications policy) ns = []" for ns
    by (simp add: assms(2) slice_at_def)
  have global: "au_globalMutualTLSMode p = mesh_mode ?configs (au_rootNamespace policy)"
    using add_peers_global [OF add] by (simp add: mesh_mode_def assms(3) split: option.splits)
  have "\<exists>s. cfg_Spec c = PeerAuthn s" if "c \<in> set (slice_at (au_peerAuthentications p) ns)" for c ns
    using add_peers_kept [OF add, of ns] add_peers_typed [OF add] that none [of ns] by fastforce
  moreover have "fmlookup (au_namespaceMutualTLSMode policy') ns =
      (if ns = au_rootNamespace policy then None
       else map_option (inherit_mode (mesh_mode ?configs (au_rootNamespace policy)) \<circ> own_mode)
         (namespace_policy ?configs ns))" for ns
    using add_peers_found [OF add, of ns] by (simp add: p' global split: option.splits)
  ultimately show ?thesis
    using add_peers_root [OF add] add_peers_selecting [OF add] add_peers_namespace [OF add] global
    by (simp add: built_from_def p' none)
qed

lemma added_keeps_peers:
  "au_peerAuthentications (addRequestAuthentication policy configs) = au_peerAuthentications policy"
  "au_globalMutualTLSMode (addRequestAuthentication policy configs) = au_globalMutualTLSMode policy"
  "au_rootNamespace (addRequestAuthentication policy configs) = au_rootNamespace policy"
  "au_peerAuthentications (addAuthorizationPolicy policy configs) = au_peerAuthentications policy"
  "au_globalMutualTLSMode (addAuthorizationPolicy policy configs) = au_globalMutualTLSMode policy"
  "au_rootNamespace (addAuthorizationPolicy policy configs) = au_rootNamespace policy"
  unfolding addRequestAuthentication_def addAuthorizationPolicy_def
  by (induction configs arbitrary: policy) simp_all

lemma sort_configs_idem [simp]:
  "sortConfigByCreationTime (sortConfigByCreationTime configs) = sortConfigByCreationTime configs"
  by (simp add: sortConfigByCreationTime_def sort_key_id_if_sorted)

lemma initAuthenticationPolicies_built:
  assumes "initAuthenticationPolicies md5 root list = Inr policy"
  shows "built_from (sortConfigByCreationTime (list KindPeerAuthentication)) root policy"
proof -
  obtain p p' where "addPeerAuthentication p (sortConfigByCreationTime (list KindPeerAuthentication)) = Inr p'"
    and "au_peerAuthentications p = fmempty" "au_globalMutualTLSMode p = MTLSUnknown" "au_rootNamespace p = root"
    and p: "policy = p'\<lparr>au_aggregateVersion := au_aggregateVersion policy\<rparr>"
    using assms unfolding initAuthenticationPolicies_def Let_def
    by (auto simp: map_sum_def added_keeps_peers split: sum.splits)
  then have "built_from (sortConfigByCreationTime (list KindPeerAuthentication)) root p'"
    using addPeerAuthentication_built by fastforce
  then show ?thesis by (subst p) (simp add: built_from_def)
qed

lemma matching_built:
  assumes "built_from configs root policy"
  shows "matchingPeerAuthentication policy ns workloadLabels port =
    Inr (first_known (policy_modes configs workloadLabels port ns))"
proof -
  let ?kept = "slice_at (au_peerAuthentications policy) ns"
  have typed: "\<forall>c \<in> set ?kept. \<exists>s. cfg_Spec c = PeerAuthn s"
    and sel: "filter selects ?kept = filter (\<lambda>c. meta_Namespace c = ns \<and> selects c) configs"
    and own: "filter (\<lambda>c. \<not> selects c) ?kept = (case namespace_policy configs ns of None \<Rightarrow> [] | Some c \<Rightarrow> [c])"
    using assms by (simp_all add: built_from_def)
  let ?m = "\<lambda>c. selectorMatchesWorkload (peer_selector (peer_spec (cfg_Spec c))) workloadLabels"
  have *: "filter (\<lambda>c. selects c \<and> ?m c) ?kept = filter (\<lambda>c. meta_Namespace c = ns \<and> selects c \<and> ?m c) configs"
    using arg_cong [OF sel, of "filter ?m"] by (simp add: conj_commute conj_left_commute)
  then have "filter (\<lambda>c. meta_Namespace c = ns \<and> selects c \<and> ?m c) configs = []" if "?kept = []" using that by simp
  then show ?thesis
    using own * 
    by (cases "?kept = []") (simp_all add: matchingPeerAuthentication_def Let_def first_mode_eq [OF typed]
        policy_modes_def first_known_append selects_def [symmetric] split: option.splits)
qed

lemma add_peers_returns:
  assumes "\<forall>c \<in> set configs. \<exists>s. cfg_Spec c = PeerAuthn (Some s)"
  shows "\<exists>r. add_peers configs policy found seen = Inr r"
  using assms by (induction configs arbitrary: policy found seen) (force simp: Let_def)+

lemma initAuthenticationPolicies_returns:
  assumes "\<forall>c \<in> set (list KindPeerAuthentication). \<exists>s. cfg_Spec c = PeerAuthn (Some s)"
  shows "\<exists>policy. initAuthenticationPolicies md5 root list = Inr policy"
proof -
  let ?configs = "sortConfigByCreationTime (list KindPeerAuthentication)"
  have "\<exists>r. add_peers (sortConfigByCreationTime ?configs) policy fmempty fmempty = Inr r" for policy
    using assms by (intro add_peers_returns) (simp add: sortConfigByCreationTime_def)
  then have "\<exists>p. addPeerAuthentication policy ?configs = Inr p" for policy
    unfolding addPeerAuthentication_def by (metis map_sum.simps(2))
  then show ?thesis unfolding initAuthenticationPolicies_def Let_def by (metis map_sum.simps(2))
qed

section \<open>Properties\<close>

text \<open>
  C29: the mode the control plane computes for a workload is the intended one. When the policies can
  be built, the lookup returns for every namespace, set of labels and port the first known mode in
  the order of precedence above; it never panics.
\<close>

theorem mode_is_intended:
  assumes "initAuthenticationPolicies md5 root list = Inr policy"
  shows "EffectiveMutualTLSMode (Some policy) ns workloadLabels port =
    Inr (intended_mode (sortConfigByCreationTime (list KindPeerAuthentication)) root ns workloadLabels port)"
proof -
  let ?configs = "sortConfigByCreationTime (list KindPeerAuthentication)"
  have built: "built_from ?configs root policy" by (rule initAuthenticationPolicies_built [OF assms])
  then have "au_rootNamespace policy = root" "au_globalMutualTLSMode policy = mesh_mode ?configs root"
    "fmlookup (au_namespaceMutualTLSMode policy) ns =
      (if ns = root then None
       else map_option (inherit_mode (mesh_mode ?configs root) \<circ> own_mode) (namespace_policy ?configs ns))"
    by (simp_all add: built_from_def)
  then show ?thesis
    by (simp add: EffectiveMutualTLSMode_def matching_built [OF built] intended_mode_def namespace_modes_def
        first_known_append split: option.splits)
qed

definition example_peer :: "string \<Rightarrow> string \<Rightarrow> time \<Rightarrow> mtls_mode \<Rightarrow> Config" where
  "example_peer ns name created mode =
     \<lparr>meta_GroupVersionKind = \<lparr>gvk_Group = ''security'', gvk_Version = ''v1'', gvk_Kind = ''PeerAuthentication''\<rparr>,
      meta_UID = [], meta_Name = name, meta_Namespace = ns, meta_Domain = [], meta_Labels = fmempty,
      meta_Annotations = fmempty, meta_ResourceVersion = ''1'', meta_CreationTimestamp = created,
      meta_Generation = 1,
      cfg_Spec = PeerAuthn (Some \<lparr>pa_Selector = None, pa_Mtls = Some mode, pa_PortLevelMtls = fmempty\<rparr>)\<rparr>"

definition example_list :: "kind \<Rightarrow> Config list" where
  "example_list k = (if k = KindPeerAuthentication
     then [example_peer ''app'' ''late'' 7 MODE_DISABLE, example_peer ''app'' ''early'' 5 MODE_UNSET,
           example_peer ''root'' ''mesh'' 6 MODE_STRICT] else [])"

lemma example_sorted:
  "sortConfigByCreationTime (example_list KindPeerAuthentication) =
     [example_peer ''app'' ''early'' 5 MODE_UNSET, example_peer ''root'' ''mesh'' 6 MODE_STRICT,
      example_peer ''app'' ''late'' 7 MODE_DISABLE]"
  by (simp add: sortConfigByCreationTime_def example_list_def example_peer_def creation_key_def)

text \<open>The oldest policy of the namespace sets no mode, so it inherits the strict mode of the mesh.\<close>

theorem mode_is_intended_witness:
  "\<exists>policy. initAuthenticationPolicies (\<lambda>s. s) ''root'' example_list = Inr policy \<and>
     EffectiveMutualTLSMode (Some policy) ''app'' fmempty 8080 = Inr MTLSStrict"
proof -
  have "\<exists>policy. initAuthenticationPolicies (\<lambda>s. s) ''root'' example_list = Inr policy"
    by (rule initAuthenticationPolicies_returns) (simp add: example_list_def example_peer_def)
  then obtain policy where policy: "initAuthenticationPolicies (\<lambda>s. s) ''root'' example_list = Inr policy" by blast
  have "intended_mode (sortConfigByCreationTime (example_list KindPeerAuthentication)) ''root'' ''app'' fmempty 8080 =
      MTLSStrict"
    by (simp add: example_sorted intended_mode_def policy_modes_def namespace_modes_def namespace_policy_def
        mesh_mode_def own_mode_def inherit_mode_def selects_def hasPeerAuthSelector_def peer_selector_def
        no_labels_def example_peer_def port_mode_def peerAuthenticationModeForPort_def ConvertToMutualTLSMode_def)
  then show ?thesis using policy mode_is_intended [OF policy, of "''app''" fmempty 8080] by auto
qed

end
