(* ===== verification/Endpoints.thy ===== *)
theory Endpoints
  imports Services PushRequest
begin

text \<open>
  The endpoint index, \<^verbatim>\<open>dubbod/discovery/pkg/model/endpointshards.go\<close>: for every service and namespace
  the endpoints each registry (a shard) reports, and the decision whether a change of endpoints
  needs a push. The index owns its \<^verbatim>\<open>EndpointShards\<close> objects, so the model keeps them by value. The
  cache is an interface of which the index only calls \<^verbatim>\<open>Clear\<close>: the type \<open>'x\<close> and the
  parameter \<open>clear\<close>.
\<close>

section \<open>Data\<close>

datatype PushType = NoPush | IncrementalPush | FullPush

record ShardKey =
  sk_Provider :: string

record EndpointShards =
  es_Shards :: "(ShardKey, DubboEndpoint list) fmap"
  es_ServiceAccounts :: "string fset"

record 'x EndpointIndex =
  ei_shardsBySvc :: "(string, (string, EndpointShards) fmap) fmap"
  ei_cache :: 'x

definition NewEndpointIndex :: "'x \<Rightarrow> 'x EndpointIndex" where
  "NewEndpointIndex cache = \<lparr>ei_shardsBySvc = fmempty, ei_cache = cache\<rparr>"

section \<open>Comparing endpoints\<close>

text \<open>A map built by assigning in the order of the list: the last endpoint with a key wins.\<close>

definition by_key :: "DubboEndpoint list \<Rightarrow> (string, DubboEndpoint) fmap" where
  "by_key eps = fold (\<lambda>e m. fmupd (ep_Key e) e m) eps fmempty"

fun compare_loop ::
    "(string, DubboEndpoint) fmap \<Rightarrow> DubboEndpoint list \<Rightarrow> DubboEndpoint list \<Rightarrow> bool \<Rightarrow> DubboEndpoint list \<times> bool"
where
  "compare_loop omap [] newDubboEndpoints needPush = (newDubboEndpoints, needPush)"
| "compare_loop omap (nie # rest) newDubboEndpoints needPush =
     (case fmlookup omap (ep_Key nie) of
        Some oie \<Rightarrow>
          compare_loop omap rest (newDubboEndpoints @ [nie])
            (if \<not> needPush \<and> \<not> ep_Equals (Some oie) (Some nie) then True else needPush)
      | None \<Rightarrow>
          compare_loop omap rest (newDubboEndpoints @ [nie])
            (if ep_HealthStatus nie \<noteq> UnHealthy \<or> ep_SendUnhealthyEndpoints nie then True else needPush))"

definition endpointUpdateRequiresPush ::
    "DubboEndpoint list \<Rightarrow> DubboEndpoint list \<Rightarrow> DubboEndpoint list \<times> bool" where
  "endpointUpdateRequiresPush oldDubboEndpoints incomingEndpoints =
     (let oldWasEmpty = (length oldDubboEndpoints = 0); newIsEmpty = (length incomingEndpoints = 0) in
      if oldWasEmpty then (if \<not> newIsEmpty then (incomingEndpoints, True) else (incomingEndpoints, False))
      else if newIsEmpty then (incomingEndpoints, True)
      else let omap = by_key oldDubboEndpoints; nmap = by_key incomingEndpoints;
               (newDubboEndpoints, needPush) = compare_loop omap incomingEndpoints [] False
           in (newDubboEndpoints,
               if \<not> needPush then list_ex (\<lambda>oie. fmlookup nmap (ep_Key oie) = None) oldDubboEndpoints
               else needPush))"

section \<open>The index\<close>

definition service_accounts :: "(ShardKey, DubboEndpoint list) fmap \<Rightarrow> string fset" where
  "service_accounts shards =
     ffUnion ((\<lambda>eps. fset_of_list (filter (\<lambda>a. a \<noteq> []) (map ep_ServiceAccount eps))) |`| fmran shards)"

definition updateShardServiceAccount :: "EndpointShards \<Rightarrow> EndpointShards \<times> bool" where
  "updateShardServiceAccount shards =
     (let oldServiceAccount = es_ServiceAccounts shards;
          serviceAccounts = service_accounts (es_Shards shards)
      in if \<not> Equals (Some oldServiceAccount) (Some serviceAccounts)
         then (shards\<lparr>es_ServiceAccounts := serviceAccounts\<rparr>, True) else (shards, False))"

text \<open>The key the code clears is the zero key: all its fields are commented out.\<close>

definition clearCacheForService :: "('x \<Rightarrow> ConfigKey list \<Rightarrow> 'x) \<Rightarrow> 'x EndpointIndex \<Rightarrow> 'x EndpointIndex" where
  "clearCacheForService clear e = e\<lparr>ei_cache := clear (ei_cache e) [zero_ConfigKey]\<rparr>"

definition byNamespace :: "'x EndpointIndex \<Rightarrow> string \<Rightarrow> (string, EndpointShards) fmap" where
  "byNamespace e svc = (case fmlookup (ei_shardsBySvc e) svc of None \<Rightarrow> fmempty | Some m \<Rightarrow> m)"

definition GetOrCreateEndpointShard ::
    "('x \<Rightarrow> ConfigKey list \<Rightarrow> 'x) \<Rightarrow> 'x EndpointIndex \<Rightarrow> string \<Rightarrow> string \<Rightarrow> EndpointShards \<times> bool \<times> 'x EndpointIndex"
where
  "GetOrCreateEndpointShard clear e serviceName namespace =
     (let e = (if fmlookup (ei_shardsBySvc e) serviceName = None
               then e\<lparr>ei_shardsBySvc := fmupd serviceName fmempty (ei_shardsBySvc e)\<rparr> else e)
      in case fmlookup (byNamespace e serviceName) namespace of
           Some ep \<Rightarrow> (ep, False, e)
         | None \<Rightarrow>
             let ep = \<lparr>es_Shards = fmempty, es_ServiceAccounts = {||}\<rparr>;
                 e = e\<lparr>ei_shardsBySvc :=
                   fmupd serviceName (fmupd namespace ep (byNamespace e serviceName)) (ei_shardsBySvc e)\<rparr>
             in (ep, True, clearCacheForService clear e))"

definition deleteServiceInner ::
    "('x \<Rightarrow> ConfigKey list \<Rightarrow> 'x) \<Rightarrow> 'x EndpointIndex \<Rightarrow> ShardKey \<Rightarrow> string \<Rightarrow> string \<Rightarrow> bool \<Rightarrow> 'x EndpointIndex" where
  "deleteServiceInner clear e shard serviceName namespace preserveKeys =
     (case fmlookup (ei_shardsBySvc e) serviceName of None \<Rightarrow> e
      | Some byNs \<Rightarrow> (case fmlookup byNs namespace of None \<Rightarrow> e
        | Some epShards \<Rightarrow>
            let epShards = epShards\<lparr>es_Shards := fmdrop shard (es_Shards epShards)\<rparr>;
                byNs = fmupd namespace epShards byNs;
                e = clearCacheForService clear (e\<lparr>ei_shardsBySvc := fmupd serviceName byNs (ei_shardsBySvc e)\<rparr>)
            in if preserveKeys then e
               else let byNs = (if fm_len (es_Shards epShards) = 0 then fmdrop namespace byNs else byNs)
                    in if fm_len byNs = 0 then e\<lparr>ei_shardsBySvc := fmdrop serviceName (ei_shardsBySvc e)\<rparr>
                       else e\<lparr>ei_shardsBySvc := fmupd serviceName byNs (ei_shardsBySvc e)\<rparr>))"

definition DeleteServiceShard ::
    "('x \<Rightarrow> ConfigKey list \<Rightarrow> 'x) \<Rightarrow> 'x EndpointIndex \<Rightarrow> ShardKey \<Rightarrow> string \<Rightarrow> string \<Rightarrow> bool \<Rightarrow> 'x EndpointIndex" where
  "DeleteServiceShard clear e shard serviceName namespace preserveKeys =
     deleteServiceInner clear e shard serviceName namespace preserveKeys"

definition UpdateServiceEndpoints ::
    "('x \<Rightarrow> ConfigKey list \<Rightarrow> 'x) \<Rightarrow> 'x EndpointIndex \<Rightarrow> ShardKey \<Rightarrow> string \<Rightarrow> string \<Rightarrow> DubboEndpoint list \<Rightarrow>
       PushType \<times> 'x EndpointIndex" where
  "UpdateServiceEndpoints clear e shard hostname namespace dubboEndpoints =
     (if length dubboEndpoints = 0
      then (IncrementalPush, DeleteServiceShard clear e shard hostname namespace True)
      else let pushType = IncrementalPush;
               (ep, created, e) = GetOrCreateEndpointShard clear e hostname namespace;
               pushType = (if created then FullPush else pushType);
               oldDubboEndpoints = (case fmlookup (es_Shards ep) shard of None \<Rightarrow> [] | Some eps \<Rightarrow> eps);
               oldWasEmpty = (length oldDubboEndpoints = 0); newIsEmpty = (length dubboEndpoints = 0);
               transitionFromEmptyToNonEmpty = (oldWasEmpty \<and> \<not> newIsEmpty);
               (newDubboEndpoints, needPush) = endpointUpdateRequiresPush oldDubboEndpoints dubboEndpoints;
               needPush = (if transitionFromEmptyToNonEmpty then True else needPush);
               pushType = (if pushType \<noteq> FullPush \<and> \<not> needPush then NoPush else pushType);
               ep = ep\<lparr>es_Shards := fmupd shard newDubboEndpoints (es_Shards ep)\<rparr>;
               (ep, saUpdated) = updateShardServiceAccount ep;
               pushType = (if saUpdated \<and> pushType \<noteq> FullPush then FullPush else pushType);
               e = e\<lparr>ei_shardsBySvc :=
                 fmupd hostname (fmupd namespace ep (byNamespace e hostname)) (ei_shardsBySvc e)\<rparr>
           in (pushType, clearCacheForService clear e))"

definition ShardsForService :: "'x EndpointIndex \<Rightarrow> string \<Rightarrow> string \<Rightarrow> EndpointShards option" where
  "ShardsForService e serviceName namespace =
     (case fmlookup (ei_shardsBySvc e) serviceName of None \<Rightarrow> None | Some byNs \<Rightarrow> fmlookup byNs namespace)"

text \<open>\<open>ks\<close> lists the services in the order of the iteration.\<close>

definition ServicesInNamespace :: "string list \<Rightarrow> 'x EndpointIndex \<Rightarrow> string \<Rightarrow> string list" where
  "ServicesInNamespace ks e namespace =
     filter (\<lambda>svcName. fmlookup (byNamespace e svcName) namespace \<noteq> None) ks"

definition AllServices :: "string list \<Rightarrow> 'x EndpointIndex \<Rightarrow> string list" where
  "AllServices ks e = ks"

definition copy_endpoint ::
    "(string, int) fmap \<Rightarrow> int gset \<Rightarrow> DubboEndpoint \<Rightarrow> (int, DubboEndpoint list) fmap \<Rightarrow> (int, DubboEndpoint list) fmap"
where
  "copy_endpoint portMap ports ep res =
     (let add = (\<lambda>portNum. fmupd portNum
            ((case fmlookup res portNum of None \<Rightarrow> [] | Some eps \<Rightarrow> eps) @ [ep]) res)
      in if ep_LegacyClusterPortKey ep \<noteq> 0
         then if \<not> Contains ports (ep_LegacyClusterPortKey ep) then res else add (ep_LegacyClusterPortKey ep)
         else case fmlookup portMap (ep_ServicePortName ep) of None \<Rightarrow> res | Some pn \<Rightarrow> add pn)"

definition CopyEndpoints ::
    "ShardKey list \<Rightarrow> EndpointShards \<Rightarrow> (string, int) fmap \<Rightarrow> int gset \<Rightarrow> (int, DubboEndpoint list) fmap" where
  "CopyEndpoints ks es portMap ports =
     fold (copy_endpoint portMap ports)
       (concat (map (\<lambda>k. case fmlookup (es_Shards es) k of None \<Rightarrow> [] | Some eps \<Rightarrow> eps) ks)) fmempty"

section \<open>The decision to push\<close>

lemma by_key_snoc: "by_key (eps @ [e]) = fmupd (ep_Key e) e (by_key eps)"
  by (simp add: by_key_def)

lemma by_key_Nil [simp]: "by_key [] = fmempty"
  by (simp add: by_key_def)

lemma by_key_None: "fmlookup (by_key eps) k = None \<longleftrightarrow> k \<notin> ep_Key ` set eps"
  by (induction eps rule: rev_induct) (auto simp: by_key_snoc)

lemma by_key_Some: "fmlookup (by_key eps) k = Some e \<Longrightarrow> e \<in> set eps \<and> ep_Key e = k"
  by (induction eps rule: rev_induct) (auto simp: by_key_snoc split: if_splits)

lemma by_key_distinct:
  "distinct (map ep_Key eps) \<Longrightarrow> e \<in> set eps \<Longrightarrow> fmlookup (by_key eps) (ep_Key e) = Some e"
  by (induction eps rule: rev_induct) (auto simp: by_key_snoc image_iff)

text \<open>An endpoint is announced when it is not unhealthy, or when unhealthy ones are to be sent.\<close>

definition announced :: "DubboEndpoint \<Rightarrow> bool" where
  "announced e \<longleftrightarrow> ep_HealthStatus e \<noteq> UnHealthy \<or> ep_SendUnhealthyEndpoints e"

lemma compare_loop_eq:
  "compare_loop omap nies acc needPush =
     (acc @ nies, needPush \<or> (\<exists>nie \<in> set nies. case fmlookup omap (ep_Key nie) of
        Some oie \<Rightarrow> \<not> ep_Equals (Some oie) (Some nie) | None \<Rightarrow> announced nie))"
  by (induction nies arbitrary: acc needPush) (auto simp: announced_def split: option.splits)

lemma requires_push_fst [simp]: "fst (endpointUpdateRequiresPush old new) = new"
  by (simp add: endpointUpdateRequiresPush_def Let_def compare_loop_eq)

lemma requires_push_from_empty: "snd (endpointUpdateRequiresPush [] new) \<longleftrightarrow> new \<noteq> []"
  by (simp add: endpointUpdateRequiresPush_def Let_def)

lemma requires_push_iff:
  assumes "old \<noteq> []" "distinct (map ep_Key new)"
  shows "snd (endpointUpdateRequiresPush old new) \<longleftrightarrow>
    (\<exists>k. case (fmlookup (by_key old) k, fmlookup (by_key new) k) of
       (Some oie, Some nie) \<Rightarrow> \<not> ep_Equals (Some oie) (Some nie)
     | (None, Some nie) \<Rightarrow> announced nie
     | (Some oie, None) \<Rightarrow> True
     | (None, None) \<Rightarrow> False)" (is "_ \<longleftrightarrow> (\<exists>k. ?differs k)")
proof -
  have new: "(\<exists>nie \<in> set new. case fmlookup (by_key old) (ep_Key nie) of
        Some oie \<Rightarrow> \<not> ep_Equals (Some oie) (Some nie) | None \<Rightarrow> announced nie) \<longleftrightarrow>
      (\<exists>k. fmlookup (by_key new) k \<noteq> None \<and> ?differs k)"
  proof
    assume "\<exists>nie \<in> set new. case fmlookup (by_key old) (ep_Key nie) of
        Some oie \<Rightarrow> \<not> ep_Equals (Some oie) (Some nie) | None \<Rightarrow> announced nie"
    then show "\<exists>k. fmlookup (by_key new) k \<noteq> None \<and> ?differs k"
      using by_key_distinct [OF assms(2)] by (fastforce split: option.splits)
  next
    assume "\<exists>k. fmlookup (by_key new) k \<noteq> None \<and> ?differs k"
    then obtain k nie where n: "fmlookup (by_key new) k = Some nie" and d: "?differs k" by blast
    have "nie \<in> set new" "ep_Key nie = k" using by_key_Some [OF n] by simp_all
    moreover have "case fmlookup (by_key old) k of
        Some oie \<Rightarrow> \<not> ep_Equals (Some oie) (Some nie) | None \<Rightarrow> announced nie"
      using d n by (simp split: option.splits)
    ultimately show "\<exists>nie \<in> set new. case fmlookup (by_key old) (ep_Key nie) of
        Some oie \<Rightarrow> \<not> ep_Equals (Some oie) (Some nie) | None \<Rightarrow> announced nie" by blast
  qed
  have gone: "list_ex (\<lambda>oie. fmlookup (by_key new) (ep_Key oie) = None) old \<longleftrightarrow>
      (\<exists>k. fmlookup (by_key new) k = None \<and> ?differs k)"
  proof
    assume "list_ex (\<lambda>oie. fmlookup (by_key new) (ep_Key oie) = None) old"
    then obtain oie where o: "oie \<in> set old" "fmlookup (by_key new) (ep_Key oie) = None"
      by (auto simp: list_ex_iff)
    then have "fmlookup (by_key old) (ep_Key oie) \<noteq> None" by (auto simp: by_key_None)
    then have "fmlookup (by_key new) (ep_Key oie) = None \<and> ?differs (ep_Key oie)" using o(2) by auto
    then show "\<exists>k. fmlookup (by_key new) k = None \<and> ?differs k" by blast
  next
    assume "\<exists>k. fmlookup (by_key new) k = None \<and> ?differs k"
    then obtain k where n: "fmlookup (by_key new) k = None" and d: "?differs k" by blast
    then obtain oie where o: "fmlookup (by_key old) k = Some oie" by (auto split: option.splits)
    show "list_ex (\<lambda>oie. fmlookup (by_key new) (ep_Key oie) = None) old"
      using by_key_Some [OF o] n by (auto simp: list_ex_iff)
  qed
  have "snd (endpointUpdateRequiresPush old new) \<longleftrightarrow> new = [] \<or>
      (\<exists>nie \<in> set new. case fmlookup (by_key old) (ep_Key nie) of
        Some oie \<Rightarrow> \<not> ep_Equals (Some oie) (Some nie) | None \<Rightarrow> announced nie) \<or>
      list_ex (\<lambda>oie. fmlookup (by_key new) (ep_Key oie) = None) old"
    using assms(1) by (simp add: endpointUpdateRequiresPush_def Let_def compare_loop_eq)
  then have "snd (endpointUpdateRequiresPush old new) \<longleftrightarrow> new = [] \<or>
      (\<exists>k. fmlookup (by_key new) k \<noteq> None \<and> ?differs k) \<or> (\<exists>k. fmlookup (by_key new) k = None \<and> ?differs k)"
    unfolding new gone .
  moreover have "\<exists>k. ?differs k" if "new = []"
  proof -
    have "list_ex (\<lambda>oie. fmlookup (by_key new) (ep_Key oie) = None) old"
      using that assms(1) by (cases old) simp_all
    then show ?thesis using gone by blast
  qed
  ultimately show ?thesis by blast
qed

section \<open>What the operations do to the index\<close>

lemma ShardsForService_eq: "ShardsForService e svc ns = fmlookup (byNamespace e svc) ns"
  by (simp add: ShardsForService_def byNamespace_def split: option.splits)

lemma clearCacheForService_shards [simp]:
  "ei_shardsBySvc (clearCacheForService clear e) = ei_shardsBySvc e"
  "byNamespace (clearCacheForService clear e) = byNamespace e"
  "ShardsForService (clearCacheForService clear e) = ShardsForService e"
  by (simp_all add: clearCacheForService_def byNamespace_def ShardsForService_def fun_eq_iff)

lemma ShardsForService_upd:
  "ShardsForService (e\<lparr>ei_shardsBySvc := fmupd svc (fmupd ns ep (byNamespace e svc)) (ei_shardsBySvc e)\<rparr>) h n =
     (if h = svc \<and> n = ns then Some ep else ShardsForService e h n)"
  by (auto simp: ShardsForService_def byNamespace_def split: option.splits)

lemma GetOrCreate:
  assumes "GetOrCreateEndpointShard clear e svc ns = (ep, created, e')"
  shows "created \<longleftrightarrow> ShardsForService e svc ns = None"
    and "ep = (case ShardsForService e svc ns of
      None \<Rightarrow> \<lparr>es_Shards = fmempty, es_ServiceAccounts = {||}\<rparr> | Some ep \<Rightarrow> ep)"
    and "ShardsForService e' h n = (if h = svc \<and> n = ns then Some ep else ShardsForService e h n)"
  using assms
  by (auto simp: GetOrCreateEndpointShard_def ShardsForService_def byNamespace_def Let_def
      split: if_splits option.splits)

lemma updateShardServiceAccount_eq:
  "updateShardServiceAccount ep =
     (ep\<lparr>es_ServiceAccounts := service_accounts (es_Shards ep)\<rparr>,
      es_ServiceAccounts ep \<noteq> service_accounts (es_Shards ep))"
  by (auto simp: updateShardServiceAccount_def Let_def)

text \<open>The entry of a service that is not in the index yet.\<close>

definition shards_or_new :: "EndpointShards option \<Rightarrow> EndpointShards" where
  "shards_or_new ep = (case ep of None \<Rightarrow> \<lparr>es_Shards = fmempty, es_ServiceAccounts = {||}\<rparr> | Some ep \<Rightarrow> ep)"

definition endpoints_of :: "EndpointShards \<Rightarrow> ShardKey \<Rightarrow> DubboEndpoint list" where
  "endpoints_of ep shard = (case fmlookup (es_Shards ep) shard of None \<Rightarrow> [] | Some eps \<Rightarrow> eps)"

lemma requires_push_pair:
  "endpointUpdateRequiresPush old new = (new, snd (endpointUpdateRequiresPush old new))"
  by (metis prod.collapse requires_push_fst)

lemma shards_all_fields:
  "ep\<lparr>es_Shards := s, es_ServiceAccounts := a\<rparr> = \<lparr>es_Shards = s, es_ServiceAccounts = a\<rparr>"
  by simp

lemma UpdateServiceEndpoints_eq:
  assumes "eps \<noteq> []" "GetOrCreateEndpointShard clear e host ns = (ep, created, e1)"
    and shards: "shards = fmupd shard eps (es_Shards ep)"
  shows "UpdateServiceEndpoints clear e shard host ns eps =
     (if created \<or> es_ServiceAccounts ep \<noteq> service_accounts shards then FullPush
      else if endpoints_of ep shard = [] \<or> snd (endpointUpdateRequiresPush (endpoints_of ep shard) eps)
      then IncrementalPush else NoPush,
      clearCacheForService clear (e1\<lparr>ei_shardsBySvc := fmupd host
        (fmupd ns \<lparr>es_Shards = shards, es_ServiceAccounts = service_accounts shards\<rparr> (byNamespace e1 host))
        (ei_shardsBySvc e1)\<rparr>))"
  using assms(1)
  unfolding UpdateServiceEndpoints_def assms(2) endpoints_of_def [symmetric] Let_def prod.case
  by (subst requires_push_pair) (simp add: updateShardServiceAccount_eq shards shards_all_fields)

lemma UpdateServiceEndpoints_nonempty:
  assumes "eps \<noteq> []" "UpdateServiceEndpoints clear e shard host ns eps = (pushType, e')"
    and old: "old = shards_or_new (ShardsForService e host ns)"
    and shards: "shards = fmupd shard eps (es_Shards old)"
  shows "ShardsForService e' h n =
      (if h = host \<and> n = ns then Some \<lparr>es_Shards = shards, es_ServiceAccounts = service_accounts shards\<rparr>
       else ShardsForService e h n)"
    and "pushType =
      (if ShardsForService e host ns = None \<or> es_ServiceAccounts old \<noteq> service_accounts shards then FullPush
       else if endpoints_of old shard = [] \<or> snd (endpointUpdateRequiresPush (endpoints_of old shard) eps)
       then IncrementalPush else NoPush)"
proof -
  obtain ep created e1 where get: "GetOrCreateEndpointShard clear e host ns = (ep, created, e1)"
    using prod_cases3 by blast
  note got = GetOrCreate [OF get]
  have ep: "ep = old" by (simp add: got(2) old shards_or_new_def)
  note res = UpdateServiceEndpoints_eq [OF assms(1) get, unfolded ep, OF shards, unfolded assms(2)]
  show "ShardsForService e' h n =
      (if h = host \<and> n = ns then Some \<lparr>es_Shards = shards, es_ServiceAccounts = service_accounts shards\<rparr>
       else ShardsForService e h n)"
    using res by (simp add: ShardsForService_upd got(3))
  show "pushType =
      (if ShardsForService e host ns = None \<or> es_ServiceAccounts old \<noteq> service_accounts shards then FullPush
       else if endpoints_of old shard = [] \<or> snd (endpointUpdateRequiresPush (endpoints_of old shard) eps)
       then IncrementalPush else NoPush)"
    using res got(1) by simp
qed

lemma deleteServiceInner_preserve:
  "ShardsForService (deleteServiceInner clear e shard svc ns True) h n =
     (if h = svc \<and> n = ns then map_option (\<lambda>ep. ep\<lparr>es_Shards := fmdrop shard (es_Shards ep)\<rparr>) (ShardsForService e svc ns)
      else ShardsForService e h n)"
  by (auto simp: deleteServiceInner_def Let_def ShardsForService_def clearCacheForService_def split: option.splits)

lemma fmlookup_outside: "fmdom m |\<subseteq>| {|k|} \<Longrightarrow> n \<noteq> k \<Longrightarrow> fmlookup m n = None"
  by (rule fmdom_notD) auto

lemma deleteServiceInner_drop:
  "ShardsForService (deleteServiceInner clear e shard svc ns False) h n =
     (if h = svc \<and> n = ns then
        case ShardsForService e svc ns of None \<Rightarrow> None
        | Some ep \<Rightarrow> if fmdrop shard (es_Shards ep) = fmempty then None
            else Some (ep\<lparr>es_Shards := fmdrop shard (es_Shards ep)\<rparr>)
      else ShardsForService e h n)"
  by (auto simp: deleteServiceInner_def Let_def ShardsForService_def clearCacheForService_def
      fmdom_empty_iff [symmetric] fmlookup_outside split: option.splits)

section \<open>Service accounts\<close>

text \<open>
  Every account an endpoint uses is recorded. The converse only holds right after an update: a
  deletion leaves the recorded accounts as they are.
\<close>

definition accounts_recorded :: "'x EndpointIndex \<Rightarrow> bool" where
  "accounts_recorded e \<longleftrightarrow> (\<forall>h n ep. ShardsForService e h n = Some ep \<longrightarrow>
     service_accounts (es_Shards ep) |\<subseteq>| es_ServiceAccounts ep)"

lemma service_accounts_iff:
  "a |\<in>| service_accounts shards \<longleftrightarrow>
     a \<noteq> [] \<and> (\<exists>k eps ep. fmlookup shards k = Some eps \<and> ep \<in> set eps \<and> ep_ServiceAccount ep = a)"
proof
  assume "a |\<in>| service_accounts shards"
  then obtain eps where "eps |\<in>| fmran shards"
    "a |\<in>| fset_of_list (filter (\<lambda>a. a \<noteq> []) (map ep_ServiceAccount eps))"
    by (auto simp: service_accounts_def ffUnion.rep_eq)
  then show "a \<noteq> [] \<and> (\<exists>k eps ep. fmlookup shards k = Some eps \<and> ep \<in> set eps \<and> ep_ServiceAccount ep = a)"
    by (auto simp: fmlookup_ran_iff fset_of_list_elem) metis
next
  assume "a \<noteq> [] \<and> (\<exists>k eps ep. fmlookup shards k = Some eps \<and> ep \<in> set eps \<and> ep_ServiceAccount ep = a)"
  then obtain k eps ep where "a \<noteq> []" "fmlookup shards k = Some eps" "ep \<in> set eps" "ep_ServiceAccount ep = a"
    by blast
  then have "eps |\<in>| fmran shards" "a |\<in>| fset_of_list (filter (\<lambda>a. a \<noteq> []) (map ep_ServiceAccount eps))"
    by (auto simp: fmlookup_ran_iff fset_of_list_elem)
  then show "a |\<in>| service_accounts shards" by (auto simp: service_accounts_def ffUnion.rep_eq)
qed

lemma service_accounts_drop: "service_accounts (fmdrop shard shards) |\<subseteq>| service_accounts shards"
  by (rule fsubsetI) (auto simp: service_accounts_iff split: if_splits)

lemma accounts_New: "accounts_recorded (NewEndpointIndex cache)"
  by (simp add: accounts_recorded_def NewEndpointIndex_def ShardsForService_def)

lemma accounts_delete:
  assumes "accounts_recorded e"
  shows "accounts_recorded (DeleteServiceShard clear e shard svc ns preserve)"
proof -
  have kept: "service_accounts (fmdrop shard (es_Shards ep)) |\<subseteq>| es_ServiceAccounts ep"
    if "ShardsForService e svc ns = Some ep" for ep
    using assms that service_accounts_drop [of shard "es_Shards ep"]
    unfolding accounts_recorded_def by blast
  show ?thesis
    using assms kept unfolding accounts_recorded_def DeleteServiceShard_def
    by (cases preserve)
      (auto simp: deleteServiceInner_preserve deleteServiceInner_drop split: if_splits option.splits)
qed

lemma accounts_update:
  assumes "accounts_recorded e"
  shows "accounts_recorded (snd (UpdateServiceEndpoints clear e shard host ns eps))"
proof (cases "eps = []")
  case True
  then show ?thesis using accounts_delete [OF assms] by (simp add: UpdateServiceEndpoints_def)
next
  case False
  obtain pushType e' where upd: "UpdateServiceEndpoints clear e shard host ns eps = (pushType, e')" by fastforce
  show ?thesis
    using assms UpdateServiceEndpoints_nonempty(1) [OF False upd refl refl]
    by (auto simp: accounts_recorded_def upd split: if_splits)
qed

section \<open>Endpoints by port\<close>

definition port_of :: "(string, int) fmap \<Rightarrow> int gset \<Rightarrow> DubboEndpoint \<Rightarrow> int option" where
  "port_of portMap ports ep =
     (if ep_LegacyClusterPortKey ep \<noteq> 0
      then if Contains ports (ep_LegacyClusterPortKey ep) then Some (ep_LegacyClusterPortKey ep) else None
      else fmlookup portMap (ep_ServicePortName ep))"

lemma copy_endpoint_lookup:
  "fmlookup (copy_endpoint portMap ports ep res) p =
     (if port_of portMap ports ep = Some p
      then Some ((case fmlookup res p of None \<Rightarrow> [] | Some eps \<Rightarrow> eps) @ [ep]) else fmlookup res p)"
  by (auto simp: copy_endpoint_def port_of_def Let_def split: option.splits)

lemma copy_loop_lookup:
  "fmlookup (fold (copy_endpoint portMap ports) eps res) p =
     (case filter (\<lambda>ep. port_of portMap ports ep = Some p) eps of
        [] \<Rightarrow> fmlookup res p
      | new \<Rightarrow> Some ((case fmlookup res p of None \<Rightarrow> [] | Some eps \<Rightarrow> eps) @ new))"
proof (induction eps arbitrary: res)
  case (Cons ep eps)
  show ?case
    by (simp add: Cons copy_endpoint_lookup split: list.splits option.splits)
qed simp

section \<open>Properties\<close>

text \<open>
  C18: An update is pushed whenever clients could tell the difference. If an update of a shard's
  endpoints is answered with no push, then the service was known, its service accounts are
  unchanged, and comparing the old and new endpoints key by key, no endpoint disappeared, every
  endpoint that was there is equal to the new one in all compared fields, and every endpoint
  that was not there is unhealthy and not to be announced.
\<close>

theorem no_push_means_no_visible_change:
  assumes "UpdateServiceEndpoints clear e shard host ns eps = (NoPush, e')" and "distinct (map ep_Key eps)"
  shows "\<exists>old new. ShardsForService e host ns = Some old \<and> ShardsForService e' host ns = Some new \<and>
    es_ServiceAccounts new = es_ServiceAccounts old \<and>
    (\<forall>k. case (fmlookup (by_key (endpoints_of old shard)) k, fmlookup (by_key (endpoints_of new shard)) k) of
       (Some oie, Some nie) \<Rightarrow> ep_Equals (Some oie) (Some nie)
     | (None, Some nie) \<Rightarrow> \<not> announced nie
     | (Some oie, None) \<Rightarrow> False
     | (None, None) \<Rightarrow> True)"
proof -
  have ne: "eps \<noteq> []" using assms(1) by (auto simp: UpdateServiceEndpoints_def)
  note upd = UpdateServiceEndpoints_nonempty [OF ne assms(1) refl refl]
  obtain old where old: "ShardsForService e host ns = Some old"
    using upd(2) by (cases "ShardsForService e host ns") simp_all
  let ?shards = "fmupd shard eps (es_Shards old)"
  have same: "es_ServiceAccounts old = service_accounts ?shards" and nonempty: "endpoints_of old shard \<noteq> []"
    and no: "\<not> snd (endpointUpdateRequiresPush (endpoints_of old shard) eps)"
    using upd(2) by (auto simp: old shards_or_new_def split: if_splits)
  let ?new = "\<lparr>es_Shards = ?shards, es_ServiceAccounts = service_accounts ?shards\<rparr>"
  have "ShardsForService e' host ns = Some ?new" using upd(1) by (simp add: old shards_or_new_def)
  moreover have "endpoints_of ?new shard = eps" by (simp add: endpoints_of_def)
  moreover have "es_ServiceAccounts ?new = es_ServiceAccounts old" using same by simp
  moreover have "case (fmlookup (by_key (endpoints_of old shard)) k, fmlookup (by_key eps) k) of
       (Some oie, Some nie) \<Rightarrow> ep_Equals (Some oie) (Some nie)
     | (None, Some nie) \<Rightarrow> \<not> announced nie
     | (Some oie, None) \<Rightarrow> False
     | (None, None) \<Rightarrow> True" for k
    using no [unfolded requires_push_iff [OF nonempty assms(2)], simplified not_ex, THEN spec, of k]
    by (auto split: option.splits)
  ultimately show ?thesis
    using old by (intro exI [where x = old] exI [where x = ?new] conjI allI) simp_all
qed

definition example_endpoint :: "string \<Rightarrow> HealthStatus \<Rightarrow> DubboEndpoint" where
  "example_endpoint addr health =
     \<lparr>ep_ServiceAccount = ''sa'', ep_Addresses = [addr], ep_ServicePortName = ''http'', ep_Labels = fmempty,
      ep_Network = [], ep_Locality = [], ep_LbWeight = 1, ep_HealthStatus = health,
      ep_SendUnhealthyEndpoints = False, ep_DiscoverabilityPolicy = None, ep_LegacyClusterPortKey = 0,
      ep_EndpointPort = 80, ep_WorkloadName = ''web'', ep_Namespace = ''ns'', ep_HostName = [],
      ep_SubDomain = [], ep_NodeName = []\<rparr>"

definition example_shard :: ShardKey where
  "example_shard = \<lparr>sk_Provider = ''Kubernetes''\<rparr>"

definition example_index :: "unit EndpointIndex" where
  "example_index = snd (UpdateServiceEndpoints (\<lambda>x _. x) (NewEndpointIndex ()) example_shard ''web'' ''ns''
     [example_endpoint ''10.0.0.1'' Healthy])"

definition example_update :: "PushType \<times> unit EndpointIndex" where
  "example_update = UpdateServiceEndpoints (\<lambda>x _. x) example_index example_shard ''web'' ''ns''
     [example_endpoint ''10.0.0.1'' Healthy, example_endpoint ''10.0.0.2'' UnHealthy]"

lemma example_no_push: "fst example_update = NoPush"
  by code_simp

theorem no_push_means_no_visible_change_witness:
  "\<exists>old new. ShardsForService example_index ''web'' ''ns'' = Some old \<and>
    ShardsForService (snd example_update) ''web'' ''ns'' = Some new \<and>
    es_ServiceAccounts new = es_ServiceAccounts old"
proof -
  have "UpdateServiceEndpoints (\<lambda>x _. x) example_index example_shard ''web'' ''ns''
      [example_endpoint ''10.0.0.1'' Healthy, example_endpoint ''10.0.0.2'' UnHealthy] = (NoPush, snd example_update)"
    using example_no_push by (simp add: example_update_def prod_eq_iff)
  from no_push_means_no_visible_change [OF this] show ?thesis
    by (auto simp: example_endpoint_def ep_Key_def FirstAddressOrNil_def)
qed

text \<open>
  What an update does. Updating a shard with some endpoints makes these the endpoints of the
  shard and leaves the other shards and all other services as they were; the recorded service
  accounts are then exactly those of all endpoints of the service. The push is a full one exactly
  when the service is new or its recorded accounts changed.
\<close>

lemma update_sets_endpoints:
  assumes "eps \<noteq> []" and "UpdateServiceEndpoints clear e shard host ns eps = (pushType, e')"
  shows "\<exists>new. ShardsForService e' host ns = Some new
    \<and> fmlookup (es_Shards new) shard = Some eps
    \<and> (\<forall>s. s \<noteq> shard \<longrightarrow> fmlookup (es_Shards new) s = fmlookup (es_Shards (shards_or_new (ShardsForService e host ns))) s)
    \<and> (\<forall>a. a |\<in>| es_ServiceAccounts new \<longleftrightarrow> a \<noteq> [] \<and>
         (\<exists>s eps ep. fmlookup (es_Shards new) s = Some eps \<and> ep \<in> set eps \<and> ep_ServiceAccount ep = a))
    \<and> (\<forall>h n. (h, n) \<noteq> (host, ns) \<longrightarrow> ShardsForService e' h n = ShardsForService e h n)
    \<and> (pushType = FullPush \<longleftrightarrow> ShardsForService e host ns = None \<or>
         es_ServiceAccounts (shards_or_new (ShardsForService e host ns)) \<noteq> es_ServiceAccounts new)"
proof -
  note upd = UpdateServiceEndpoints_nonempty [OF assms refl refl]
  let ?shards = "fmupd shard eps (es_Shards (shards_or_new (ShardsForService e host ns)))"
  let ?new = "\<lparr>es_Shards = ?shards, es_ServiceAccounts = service_accounts ?shards\<rparr>"
  have "ShardsForService e' host ns = Some ?new" by (simp add: upd(1))
  moreover have "pushType = FullPush \<longleftrightarrow> ShardsForService e host ns = None \<or>
         es_ServiceAccounts (shards_or_new (ShardsForService e host ns)) \<noteq> es_ServiceAccounts ?new"
    by (simp add: upd(2))
  moreover have "ShardsForService e' h n = ShardsForService e h n" if "(h, n) \<noteq> (host, ns)" for h n
    using that by (auto simp: upd(1))
  ultimately show ?thesis by (intro exI [of _ ?new]) (simp add: service_accounts_iff)
qed

lemma update_sets_endpoints_witness:
  "\<exists>new. ShardsForService (snd example_update) ''web'' ''ns'' = Some new \<and>
    fmlookup (es_Shards new) example_shard =
      Some [example_endpoint ''10.0.0.1'' Healthy, example_endpoint ''10.0.0.2'' UnHealthy]"
  using update_sets_endpoints [of "[example_endpoint ''10.0.0.1'' Healthy, example_endpoint ''10.0.0.2'' UnHealthy]"
      "\<lambda>x _. x" example_index example_shard "''web''" "''ns''" "fst example_update" "snd example_update"]
  by (auto simp: example_update_def)

text \<open>
  Endpoints are sorted by port without loss: for a port, the endpoints copied are exactly
  those of all shards that belong to that port, in the order in which they are visited, and a port
  without endpoints is absent. An endpoint belongs to the port its legacy key names if that is
  set and the service has it, and otherwise to the port its port name is mapped to.
\<close>

lemma CopyEndpoints_by_port:
  assumes "is_range ks (fmdom (es_Shards es))"
  shows "fmlookup (CopyEndpoints ks es portMap ports) p =
    (case filter (\<lambda>ep. port_of portMap ports ep = Some p) (concat (map (endpoints_of es) ks)) of
       [] \<Rightarrow> None | eps \<Rightarrow> Some eps)
    \<and> (\<forall>ep. ep \<in> set (concat (map (endpoints_of es) ks)) \<longleftrightarrow>
         (\<exists>shard eps. fmlookup (es_Shards es) shard = Some eps \<and> ep \<in> set eps))"
proof -
  have "fmlookup (CopyEndpoints ks es portMap ports) p =
    (case filter (\<lambda>ep. port_of portMap ports ep = Some p) (concat (map (endpoints_of es) ks)) of
       [] \<Rightarrow> None | eps \<Rightarrow> Some eps)"
    unfolding CopyEndpoints_def endpoints_of_def [symmetric] copy_loop_lookup by (simp split: list.splits)
  moreover have "ep \<in> set (concat (map (endpoints_of es) ks)) \<longleftrightarrow>
      (\<exists>shard eps. fmlookup (es_Shards es) shard = Some eps \<and> ep \<in> set eps)" for ep
  proof
    assume "ep \<in> set (concat (map (endpoints_of es) ks))"
    then obtain shard where "ep \<in> set (endpoints_of es shard)" by auto
    then show "\<exists>shard eps. fmlookup (es_Shards es) shard = Some eps \<and> ep \<in> set eps"
      by (cases "fmlookup (es_Shards es) shard") (auto simp: endpoints_of_def)
  next
    assume "\<exists>shard eps. fmlookup (es_Shards es) shard = Some eps \<and> ep \<in> set eps"
    then obtain shard eps where "fmlookup (es_Shards es) shard = Some eps" "ep \<in> set eps" by blast
    then have "shard \<in> set ks" "ep \<in> set (endpoints_of es shard)"
      using is_range_set [OF assms] by (auto simp: endpoints_of_def fmdomI)
    then show "ep \<in> set (concat (map (endpoints_of es) ks))" by auto
  qed
  ultimately show ?thesis by blast
qed

lemma CopyEndpoints_by_port_witness:
  "fmlookup (CopyEndpoints [example_shard]
      \<lparr>es_Shards = fmupd example_shard [example_endpoint ''10.0.0.1'' Healthy] fmempty, es_ServiceAccounts = {||}\<rparr>
      (fmupd ''http'' 80 fmempty) None) 80 = Some [example_endpoint ''10.0.0.1'' Healthy]"
proof -
  have "is_range [example_shard] (fmdom (fmupd example_shard [example_endpoint ''10.0.0.1'' Healthy] fmempty))"
    by (simp add: is_range_def)
  from CopyEndpoints_by_port [of "[example_shard]" "\<lparr>es_Shards = fmupd example_shard
      [example_endpoint ''10.0.0.1'' Healthy] fmempty, es_ServiceAccounts = {||}\<rparr>" "fmupd ''http'' 80 fmempty" None 80] this
  show ?thesis by (simp add: endpoints_of_def port_of_def example_endpoint_def)
qed

end
