(* ===== verification/Watched.thy ===== *)
theory Watched
  imports PushRequest
begin

text \<open>
  Watched resources and the state-of-the-world protocol: the resource types of
  \<^verbatim>\<open>pkg/model/xds.go\<close>, the watch bookkeeping of \<^verbatim>\<open>Proxy\<close> in \<^verbatim>\<open>dubbod/discovery/pkg/model/context.go\<close>,
  and \<^verbatim>\<open>ShouldRespond\<close> and \<^verbatim>\<open>Send\<close> of \<^verbatim>\<open>pkg/xds/server.go\<close>. \<^verbatim>\<open>ShouldRespond\<close> works on the interface
  \<^verbatim>\<open>Watcher\<close>: here a record of its methods. The locale \<open>watcher\<close> is its contract; the proxy's
  methods satisfy it. Resources are an arbitrary type.
\<close>

section \<open>Resource types\<close>

definition APITypePrefix :: string where "APITypePrefix = ''type.googleapis.com/''"
definition ClusterType :: string where "ClusterType = APITypePrefix @ ''cluster.v1.Cluster''"
definition EndpointType :: string where "EndpointType = APITypePrefix @ ''endpoint.v1.ClusterLoadAssignment''"
definition ListenerType :: string where "ListenerType = APITypePrefix @ ''listener.v1.Listener''"
definition RouteType :: string where "RouteType = APITypePrefix @ ''route.v1.RouteConfiguration''"
definition SecretType :: string where
  "SecretType = APITypePrefix @ ''extensions.transport_sockets.tls.v1.Secret''"

lemmas type_urls = APITypePrefix_def ClusterType_def EndpointType_def ListenerType_def RouteType_def SecretType_def

definition GetShortType :: "string \<Rightarrow> string" where
  "GetShortType typeURL =
     (if typeURL = ClusterType then ''CDS'' else if typeURL = ListenerType then ''LDS''
      else if typeURL = RouteType then ''RDS'' else if typeURL = EndpointType then ''EDS''
      else if typeURL = SecretType then ''SDS'' else typeURL)"

definition GetMetricType :: "string \<Rightarrow> string" where
  "GetMetricType typeURL =
     (if typeURL = ClusterType then ''cds'' else if typeURL = ListenerType then ''lds''
      else if typeURL = RouteType then ''rds'' else if typeURL = EndpointType then ''eds''
      else if typeURL = SecretType then ''sds'' else typeURL)"

definition IsWildcardTypeURL :: "string \<Rightarrow> bool" where
  "IsWildcardTypeURL typeURL =
     (if typeURL = SecretType \<or> typeURL = EndpointType \<or> typeURL = RouteType then False
      else if typeURL = ClusterType \<or> typeURL = ListenerType then True else True)"

section \<open>Watches\<close>

record 'r WatchedResource =
  wr_TypeUrl :: string
  wr_ResourceNames :: "string gset"
  wr_Wildcard :: bool
  wr_NonceSent :: string
  wr_NonceAcked :: string
  wr_AlwaysRespond :: bool
  wr_LastSendTime :: time
  wr_LastError :: string
  wr_LastResources :: "'r list"

definition zero_WatchedResource :: "string \<Rightarrow> 'r WatchedResource" where
  "zero_WatchedResource url =
     \<lparr>wr_TypeUrl = url, wr_ResourceNames = None, wr_Wildcard = False, wr_NonceSent = [], wr_NonceAcked = [],
      wr_AlwaysRespond = False, wr_LastSendTime = zero_time, wr_LastError = [], wr_LastResources = []\<rparr>"

text \<open>An update function may dereference \<^verbatim>\<open>nil\<close>.\<close>

type_synonym 'r update_fn = "'r WatchedResource option \<Rightarrow> panic + 'r WatchedResource option"

record ('w, 'r) Watcher =
  w_DeleteWatchedResource :: "'w \<Rightarrow> string \<Rightarrow> 'w"
  w_GetWatchedResource :: "'w \<Rightarrow> string \<Rightarrow> 'r WatchedResource option"
  w_NewWatchedResource :: "'w \<Rightarrow> string \<Rightarrow> string list \<Rightarrow> 'w"
  w_UpdateWatchedResource :: "'w \<Rightarrow> string \<Rightarrow> 'r update_fn \<Rightarrow> panic + 'w"

text \<open>The watches of a proxy. A stored pointer is never \<^verbatim>\<open>nil\<close>.\<close>

type_synonym 'r watches = "(string, 'r WatchedResource) fmap"

definition GetWatchedResource :: "'r watches \<Rightarrow> string \<Rightarrow> 'r WatchedResource option" where
  "GetWatchedResource node typeURL = fmlookup node typeURL"

definition DeleteWatchedResource :: "'r watches \<Rightarrow> string \<Rightarrow> 'r watches" where
  "DeleteWatchedResource node typeURL = fmdrop typeURL node"

definition NewWatchedResource :: "'r watches \<Rightarrow> string \<Rightarrow> string list \<Rightarrow> 'r watches" where
  "NewWatchedResource node typeURL names =
     fmupd typeURL ((zero_WatchedResource typeURL)\<lparr>wr_ResourceNames := New names\<rparr>) node"

definition UpdateWatchedResource :: "'r watches \<Rightarrow> string \<Rightarrow> 'r update_fn \<Rightarrow> panic + 'r watches" where
  "UpdateWatchedResource node typeURL updateFn =
     (case updateFn (fmlookup node typeURL) of
        Inl p \<Rightarrow> Inl p
      | Inr (Some r) \<Rightarrow> Inr (fmupd typeURL r node)
      | Inr None \<Rightarrow> Inr (fmdrop typeURL node))"

definition proxy_watcher :: "('r watches, 'r) Watcher" where
  "proxy_watcher =
     \<lparr>w_DeleteWatchedResource = DeleteWatchedResource, w_GetWatchedResource = GetWatchedResource,
      w_NewWatchedResource = NewWatchedResource, w_UpdateWatchedResource = UpdateWatchedResource\<rparr>"

section \<open>Requests\<close>

record DiscoveryRequest =
  req_VersionInfo :: string
  req_ResourceNames :: "string list"
  req_TypeUrl :: string
  req_ResponseNonce :: string
  req_ErrorDetail :: "(int \<times> string) option"

definition shouldUnsubscribe :: "DiscoveryRequest \<Rightarrow> bool" where
  "shouldUnsubscribe request \<longleftrightarrow>
     length (req_ResourceNames request) = 0 \<and> \<not> IsWildcardTypeURL (req_TypeUrl request)"

text \<open>The update functions passed to the watcher, in the order of the code.\<close>

definition record_error :: "string \<Rightarrow> 'r update_fn" where
  "record_error message wr =
     (case wr of None \<Rightarrow> Inl NilDeref | Some wr \<Rightarrow> Inr (Some (wr\<lparr>wr_LastError := message\<rparr>)))"

definition keep_watch :: "string \<Rightarrow> 'r update_fn" where
  "keep_watch nonce wr =
     (case wr of None \<Rightarrow> Inr None
      | Some wr \<Rightarrow> Inr (Some (wr\<lparr>wr_LastError := [], wr_NonceAcked := nonce, wr_AlwaysRespond := False\<rparr>)))"

definition change_names :: "string gset \<Rightarrow> 'r update_fn" where
  "change_names newResources wr =
     (case wr of None \<Rightarrow> Inr None
      | Some wr \<Rightarrow> Inr (Some (wr\<lparr>wr_LastError := [], wr_ResourceNames := newResources\<rparr>)))"

definition accept_ack :: "string \<Rightarrow> string list \<Rightarrow> 'r update_fn" where
  "accept_ack nonce names wr =
     (case wr of None \<Rightarrow> Inl NilDeref
      | Some wr \<Rightarrow> Inr (Some (wr\<lparr>wr_LastError := [], wr_NonceAcked := nonce, wr_ResourceNames := New names,
          wr_AlwaysRespond := False\<rparr>)))"

definition restore_names :: "string gset \<Rightarrow> 'r update_fn" where
  "restore_names previousResources wr =
     (case wr of None \<Rightarrow> Inr None | Some wr \<Rightarrow> Inr (Some (wr\<lparr>wr_ResourceNames := previousResources\<rparr>)))"

definition answer :: "bool \<Rightarrow> ResourceDelta \<Rightarrow> panic + 'w \<Rightarrow> panic + (bool \<times> ResourceDelta \<times> 'w)" where
  "answer respond delta w = map_sum id (\<lambda>w. (respond, delta, w)) w"

text \<open>
  The last part of \<^verbatim>\<open>ShouldRespond\<close>, reached when the nonce matches. \<open>previousResources\<close> and
  \<open>alwaysRespond\<close> are what the update function read before it wrote.
\<close>

definition respond_to_ack ::
    "('w, 'r) Watcher \<Rightarrow> 'w \<Rightarrow> DiscoveryRequest \<Rightarrow> 'r WatchedResource \<Rightarrow> panic + (bool \<times> ResourceDelta \<times> 'w)" where
  "respond_to_ack ops w request previousInfo =
     (let url = req_TypeUrl request; names = req_ResourceNames request;
          previousResources = wr_ResourceNames previousInfo;
          alwaysRespond = wr_AlwaysRespond previousInfo;
          cur = New names;
          removed = Difference previousResources cur;
          added = Difference cur previousResources
      in case w_UpdateWatchedResource ops w url (accept_ack (req_ResponseNonce request) names) of
           Inl p \<Rightarrow> Inl p
         | Inr w \<Rightarrow>
             if length names = 0 \<and> Len previousResources > 0 \<and> wr_NonceSent previousInfo \<noteq> []
             then answer False emptyResourceDelta (w_UpdateWatchedResource ops w url (restore_names previousResources))
             else if alwaysRespond then Inr (True, emptyResourceDelta, w)
             else if Len removed = 0 \<and> Len added = 0 then Inr (False, emptyResourceDelta, w)
             else if \<not> IsWildcardTypeURL url \<and> Len added = 0 then Inr (False, emptyResourceDelta, w)
             else Inr (True, emptyResourceDelta\<lparr>Subscribed := added\<rparr>, w))"

definition ShouldRespond ::
    "('w, 'r) Watcher \<Rightarrow> 'w \<Rightarrow> DiscoveryRequest \<Rightarrow> panic + (bool \<times> ResourceDelta \<times> 'w)" where
  "ShouldRespond ops w request =
     (let url = req_TypeUrl request; nonce = req_ResponseNonce request; names = req_ResourceNames request in
      case req_ErrorDetail request of
        Some (errCode, message) \<Rightarrow>
          answer False emptyResourceDelta (w_UpdateWatchedResource ops w url (record_error message))
      | None \<Rightarrow>
        (let previousInfo = w_GetWatchedResource ops w url in
         if shouldUnsubscribe request then
           (case previousInfo of
              Some p \<Rightarrow>
                if nonce \<noteq> [] \<and> nonce = wr_NonceSent p
                then answer False emptyResourceDelta (w_UpdateWatchedResource ops w url (keep_watch nonce))
                else Inr (False, emptyResourceDelta, w_DeleteWatchedResource ops w url)
            | None \<Rightarrow> Inr (False, emptyResourceDelta, w_DeleteWatchedResource ops w url))
         else case previousInfo of
           None \<Rightarrow>
             if nonce = [] then Inr (True, emptyResourceDelta, w_NewWatchedResource ops w url names)
             else Inr (False, emptyResourceDelta, w_NewWatchedResource ops w url names)
         | Some p \<Rightarrow>
             if nonce = [] then Inr (True, emptyResourceDelta, w_NewWatchedResource ops w url names)
             else if nonce \<noteq> wr_NonceSent p then
               (let newResources = New names; previousResourcesCopy = Copy (wr_ResourceNames p) in
                if \<not> Equals newResources previousResourcesCopy \<and> Len newResources > 0
                then answer True (emptyResourceDelta\<lparr>Subscribed := Difference newResources previousResourcesCopy\<rparr>)
                       (w_UpdateWatchedResource ops w url (change_names newResources))
                else Inr (False, emptyResourceDelta, w))
             else respond_to_ack ops w request p))"

text \<open>\<^verbatim>\<open>Send\<close> after the stream accepted the response: \<open>now\<close> is the time read for \<^verbatim>\<open>LastSendTime\<close>.\<close>

definition record_sent :: "string \<Rightarrow> string \<Rightarrow> time \<Rightarrow> 'r update_fn" where
  "record_sent url nonce now wr =
     (let wr = (case wr of None \<Rightarrow> zero_WatchedResource url | Some wr \<Rightarrow> wr)
      in Inr (Some (wr\<lparr>wr_NonceSent := nonce, wr_LastSendTime := now\<rparr>)))"

text \<open>\<open>sendErr\<close> is the outcome of the stream.\<close>

definition Send ::
    "('w, 'r) Watcher \<Rightarrow> 'w \<Rightarrow> string \<Rightarrow> string \<Rightarrow> err option \<Rightarrow> time \<Rightarrow> panic + (err option \<times> 'w)" where
  "Send ops w typeUrl nonce sendErr now =
     (if sendErr = None \<and> nonce \<noteq> []
      then map_sum id (Pair sendErr) (w_UpdateWatchedResource ops w typeUrl (record_sent typeUrl nonce now))
      else Inr (sendErr, w))"

section \<open>The contract of a watcher\<close>

text \<open>
  When a request without an error asks for a response, given what is watched for its type.
\<close>

definition wants_response :: "'r WatchedResource option \<Rightarrow> DiscoveryRequest \<Rightarrow> bool" where
  "wants_response prev request \<longleftrightarrow>
     \<not> shouldUnsubscribe request \<and>
     (let names = fset_of_list (req_ResourceNames request); nonce = req_ResponseNonce request in
      nonce = [] \<or>
      (case prev of None \<Rightarrow> False
       | Some p \<Rightarrow>
           let old = elems (wr_ResourceNames p) in
           if nonce \<noteq> wr_NonceSent p then names \<noteq> {||} \<and> names \<noteq> old
           else (names \<noteq> {||} \<or> old = {||}) \<and>
                (wr_AlwaysRespond p \<or> \<not> names |\<subseteq>| old \<or>
                 IsWildcardTypeURL (req_TypeUrl request) \<and> \<not> old |\<subseteq>| names)))"

text \<open>The names watched after such a request; \<^verbatim>\<open>None\<close> when nothing is watched any more.\<close>

definition names_after :: "'r WatchedResource option \<Rightarrow> DiscoveryRequest \<Rightarrow> string fset option" where
  "names_after prev request =
     (let names = fset_of_list (req_ResourceNames request); nonce = req_ResponseNonce request in
      case prev of
        None \<Rightarrow> if shouldUnsubscribe request then None else Some names
      | Some p \<Rightarrow>
          let old = elems (wr_ResourceNames p); acked = (nonce \<noteq> [] \<and> nonce = wr_NonceSent p) in
          if shouldUnsubscribe request then (if acked then Some old else None)
          else if nonce = [] then Some names
          else if names = {||} \<and> old \<noteq> {||} then Some old
          else Some names)"

locale watcher =
  fixes ops :: "('w, 'r) Watcher"
  assumes get_delete: "w_GetWatchedResource ops (w_DeleteWatchedResource ops w url) url' =
      (if url' = url then None else w_GetWatchedResource ops w url')"
    and get_new: "w_GetWatchedResource ops (w_NewWatchedResource ops w url names) url' =
      (if url' = url then Some ((zero_WatchedResource url)\<lparr>wr_ResourceNames := New names\<rparr>)
       else w_GetWatchedResource ops w url')"
    and update_panic: "f (w_GetWatchedResource ops w url) = Inl p \<Longrightarrow> w_UpdateWatchedResource ops w url f = Inl p"
    and update: "f (w_GetWatchedResource ops w url) = Inr r \<Longrightarrow>
      \<exists>w'. w_UpdateWatchedResource ops w url f = Inr w' \<and>
        (\<forall>url'. w_GetWatchedResource ops w' url' = (if url' = url then r else w_GetWatchedResource ops w url'))"
begin

lemma update_obtain:
  assumes "f (w_GetWatchedResource ops w url) = Inr r"
  obtains w' where "w_UpdateWatchedResource ops w url f = Inr w'"
    "\<And>url'. w_GetWatchedResource ops w' url' = (if url' = url then r else w_GetWatchedResource ops w url')"
  using update [of f w url r, OF assms] by blast

lemma error_recorded:
  assumes "req_ErrorDetail request = Some (c, message)" "w_GetWatchedResource ops w (req_TypeUrl request) = Some p"
  shows "\<exists>w'. ShouldRespond ops w request = Inr (False, emptyResourceDelta, w') \<and>
    w_GetWatchedResource ops w' (req_TypeUrl request) = Some (p\<lparr>wr_LastError := message\<rparr>)"
proof -
  have "record_error message (w_GetWatchedResource ops w (req_TypeUrl request)) = Inr (Some (p\<lparr>wr_LastError := message\<rparr>))"
    by (simp add: record_error_def assms(2))
  then show ?thesis
    by (rule update_obtain) (simp add: ShouldRespond_def assms(1) answer_def)
qed

lemma error_unwatched:
  assumes "req_ErrorDetail request = Some (c, message)" "w_GetWatchedResource ops w (req_TypeUrl request) = None"
  shows "ShouldRespond ops w request = Inl NilDeref"
proof -
  have "w_UpdateWatchedResource ops w (req_TypeUrl request) (record_error message) = Inl NilDeref"
    by (rule update_panic) (simp add: record_error_def assms(2))
  then show ?thesis by (simp add: ShouldRespond_def assms(1) answer_def)
qed

lemma ack_spec:
  assumes prev: "w_GetWatchedResource ops w (req_TypeUrl request) = Some p"
    and nonce: "req_ResponseNonce request = wr_NonceSent p" "wr_NonceSent p \<noteq> []"
  defines "names \<equiv> fset_of_list (req_ResourceNames request)" and "old \<equiv> elems (wr_ResourceNames p)"
  shows "\<exists>delta w'. respond_to_ack ops w request p =
      Inr ((names \<noteq> {||} \<or> old = {||}) \<and>
           (wr_AlwaysRespond p \<or> \<not> names |\<subseteq>| old \<or> IsWildcardTypeURL (req_TypeUrl request) \<and> \<not> old |\<subseteq>| names),
           delta, w') \<and>
    w_GetWatchedResource ops w' (req_TypeUrl request) =
      Some (p\<lparr>wr_LastError := [], wr_NonceAcked := wr_NonceSent p, wr_AlwaysRespond := False,
        wr_ResourceNames := (if names = {||} \<and> old \<noteq> {||} then wr_ResourceNames p else Some names)\<rparr>) \<and>
    (\<forall>url. url \<noteq> req_TypeUrl request \<longrightarrow> w_GetWatchedResource ops w' url = w_GetWatchedResource ops w url)"
proof -
  let ?url = "req_TypeUrl request"
  let ?acked = "p\<lparr>wr_LastError := [], wr_NonceAcked := wr_NonceSent p, wr_ResourceNames := Some names, wr_AlwaysRespond := False\<rparr>"
  have "accept_ack (req_ResponseNonce request) (req_ResourceNames request) (w_GetWatchedResource ops w ?url) = Inr (Some ?acked)"
    by (simp add: accept_ack_def prev nonce(1) names_def)
  then obtain w1 where w1: "w_UpdateWatchedResource ops w ?url (accept_ack (req_ResponseNonce request) (req_ResourceNames request)) = Inr w1"
    "\<And>url. w_GetWatchedResource ops w1 url = (if url = ?url then Some ?acked else w_GetWatchedResource ops w url)"
    by (rule update_obtain) blast
  show ?thesis
  proof (cases "names = {||} \<and> old \<noteq> {||}")
    case True
    have "restore_names (wr_ResourceNames p) (w_GetWatchedResource ops w1 ?url) =
        Inr (Some (?acked\<lparr>wr_ResourceNames := wr_ResourceNames p\<rparr>))"
      by (simp add: restore_names_def w1(2))
    then obtain w2 where w2: "w_UpdateWatchedResource ops w1 ?url (restore_names (wr_ResourceNames p)) = Inr w2"
      "\<And>url. w_GetWatchedResource ops w2 url =
        (if url = ?url then Some (?acked\<lparr>wr_ResourceNames := wr_ResourceNames p\<rparr>) else w_GetWatchedResource ops w1 url)"
      by (rule update_obtain) blast
    have "respond_to_ack ops w request p = Inr (False, emptyResourceDelta, w2)"
      using True nonce(2) unfolding respond_to_ack_def Let_def w1(1) sum.case
      by (auto simp: w2(1) answer_def Len_pos_iff names_def old_def)
    then show ?thesis using True by (simp add: w2(2) w1(2))
  next
    case False
    have "\<exists>delta. respond_to_ack ops w request p =
      Inr (wr_AlwaysRespond p \<or> \<not> names |\<subseteq>| old \<or> IsWildcardTypeURL ?url \<and> \<not> old |\<subseteq>| names, delta, w1)"
      using False unfolding respond_to_ack_def Let_def w1(1) sum.case
      by (auto simp: Len_pos_iff names_def old_def)
    then show ?thesis using False by (auto simp: w1(2))
  qed
qed

lemma respond:
  assumes noerr: "req_ErrorDetail request = None"
  shows "\<exists>delta w'. ShouldRespond ops w request =
      Inr (wants_response (w_GetWatchedResource ops w (req_TypeUrl request)) request, delta, w') \<and>
    map_option (\<lambda>p. elems (wr_ResourceNames p)) (w_GetWatchedResource ops w' (req_TypeUrl request)) =
      names_after (w_GetWatchedResource ops w (req_TypeUrl request)) request \<and>
    (\<forall>url. url \<noteq> req_TypeUrl request \<longrightarrow> w_GetWatchedResource ops w' url = w_GetWatchedResource ops w url)"
proof -
  let ?url = "req_TypeUrl request" and ?nonce = "req_ResponseNonce request"
  show ?thesis
  proof (cases "w_GetWatchedResource ops w ?url")
    case None
    then show ?thesis
      by (auto simp: ShouldRespond_def noerr wants_response_def names_after_def get_delete get_new Let_def)
  next
    case (Some p)
    consider (new) "\<not> shouldUnsubscribe request" "?nonce = []"
      | (gone) "shouldUnsubscribe request" "?nonce = [] \<or> ?nonce \<noteq> wr_NonceSent p"
      | (keep) "shouldUnsubscribe request" "?nonce \<noteq> []" "?nonce = wr_NonceSent p"
      | (ack) "\<not> shouldUnsubscribe request" "?nonce \<noteq> []" "?nonce = wr_NonceSent p"
      | (stale) "\<not> shouldUnsubscribe request" "?nonce \<noteq> []" "?nonce \<noteq> wr_NonceSent p" by blast
    then show ?thesis
    proof cases
      case new
      then show ?thesis
        by (auto simp: ShouldRespond_def noerr wants_response_def names_after_def get_new Let_def Some)
    next
      case gone
      then show ?thesis
        by (auto simp: ShouldRespond_def noerr wants_response_def names_after_def get_delete Let_def Some)
    next
      case keep
      have "keep_watch ?nonce (w_GetWatchedResource ops w ?url) =
          Inr (Some (p\<lparr>wr_LastError := [], wr_NonceAcked := ?nonce, wr_AlwaysRespond := False\<rparr>))"
        by (simp add: keep_watch_def Some)
      then show ?thesis
        by (rule update_obtain)
          (use keep in \<open>simp add: ShouldRespond_def noerr wants_response_def names_after_def Let_def Some answer_def\<close>)
    next
      case ack
      have "ShouldRespond ops w request = respond_to_ack ops w request p"
        using ack by (simp add: ShouldRespond_def noerr Let_def Some)
      then show ?thesis
        using ack_spec [OF Some ack(3)] ack
        by (auto simp: wants_response_def names_after_def Let_def Some split: if_splits)
    next
      case stale
      have upd: "change_names (New (req_ResourceNames request)) (w_GetWatchedResource ops w ?url) =
          Inr (Some (p\<lparr>wr_LastError := [], wr_ResourceNames := New (req_ResourceNames request)\<rparr>))"
        by (simp add: change_names_def Some)
      show ?thesis
        by (rule update_obtain [of "change_names (New (req_ResourceNames request))" w ?url, OF upd])
          (use stale in \<open>auto simp: ShouldRespond_def noerr wants_response_def names_after_def Let_def Some
             answer_def Len_pos_iff\<close>)
    qed
  qed
qed

lemma stale_ignored:
  assumes "req_ErrorDetail request = None" "w_GetWatchedResource ops w (req_TypeUrl request) = Some p"
    "req_ResponseNonce request \<noteq> []" "req_ResponseNonce request \<noteq> wr_NonceSent p"
    "fset_of_list (req_ResourceNames request) = elems (wr_ResourceNames p)" "req_ResourceNames request \<noteq> []"
  shows "ShouldRespond ops w request = Inr (False, emptyResourceDelta, w)"
  using assms by (auto simp: ShouldRespond_def Let_def shouldUnsubscribe_def)

lemma ack_after_send:
  assumes "Send ops w url nonce None now = Inr (None, w1)" "nonce \<noteq> []"
    and "w_GetWatchedResource ops w url = Some p" "\<not> wr_AlwaysRespond p"
    and req: "req_TypeUrl request = url" "req_ErrorDetail request = None" "req_ResponseNonce request = nonce"
      "fset_of_list (req_ResourceNames request) = elems (wr_ResourceNames p)"
  shows "\<exists>delta w'. ShouldRespond ops w1 request = Inr (False, delta, w') \<and>
    map_option (\<lambda>p. elems (wr_ResourceNames p)) (w_GetWatchedResource ops w' url) = Some (elems (wr_ResourceNames p))"
proof -
  have "record_sent url nonce now (w_GetWatchedResource ops w url) =
      Inr (Some (p\<lparr>wr_NonceSent := nonce, wr_LastSendTime := now\<rparr>))"
    by (simp add: record_sent_def assms(3))
  then obtain w2 where w2: "w_UpdateWatchedResource ops w url (record_sent url nonce now) = Inr w2"
    "\<And>url'. w_GetWatchedResource ops w2 url' =
      (if url' = url then Some (p\<lparr>wr_NonceSent := nonce, wr_LastSendTime := now\<rparr>) else w_GetWatchedResource ops w url')"
    by (rule update_obtain) blast
  have "w1 = w2" using assms(1,2) w2(1) by (simp add: Send_def)
  then have get: "w_GetWatchedResource ops w1 url = Some (p\<lparr>wr_NonceSent := nonce, wr_LastSendTime := now\<rparr>)"
    using w2(2) by simp
  show ?thesis
    using respond [OF req(2), of w1] assms(2,4) req
    by (auto simp: get wants_response_def names_after_def Let_def split: if_splits)
qed

end

section \<open>The proxy's watches\<close>

interpretation proxy: watcher proxy_watcher
proof
  fix w :: "'r watches" and url url' names and f :: "'r update_fn" and p r
  show "w_GetWatchedResource proxy_watcher (w_DeleteWatchedResource proxy_watcher w url) url' =
      (if url' = url then None else w_GetWatchedResource proxy_watcher w url')"
    "w_GetWatchedResource proxy_watcher (w_NewWatchedResource proxy_watcher w url names) url' =
      (if url' = url then Some ((zero_WatchedResource url)\<lparr>wr_ResourceNames := New names\<rparr>)
       else w_GetWatchedResource proxy_watcher w url')"
    by (simp_all add: proxy_watcher_def GetWatchedResource_def DeleteWatchedResource_def NewWatchedResource_def)
  show "f (w_GetWatchedResource proxy_watcher w url) = Inl p \<Longrightarrow> w_UpdateWatchedResource proxy_watcher w url f = Inl p"
    by (simp add: proxy_watcher_def GetWatchedResource_def UpdateWatchedResource_def)
  show "f (w_GetWatchedResource proxy_watcher w url) = Inr r \<Longrightarrow>
      \<exists>w'. w_UpdateWatchedResource proxy_watcher w url f = Inr w' \<and>
        (\<forall>url'. w_GetWatchedResource proxy_watcher w' url' = (if url' = url then r else w_GetWatchedResource proxy_watcher w url'))"
    by (cases r) (simp_all add: proxy_watcher_def GetWatchedResource_def UpdateWatchedResource_def)
qed

section \<open>Properties\<close>


definition example_eds_request :: "string list \<Rightarrow> string \<Rightarrow> DiscoveryRequest" where
  "example_eds_request names nonce = \<lparr>req_VersionInfo = [], req_ResourceNames = names, req_TypeUrl = EndpointType,
     req_ResponseNonce = nonce, req_ErrorDetail = None\<rparr>"

definition example_watches :: "nat watches" where
  "example_watches = fmupd EndpointType
     ((zero_WatchedResource EndpointType)\<lparr>wr_ResourceNames := Some {|''a''|}, wr_NonceSent := ''n1''\<rparr>) fmempty"


text \<open>
  The exchange settles. When a response for a watched type was sent and the client
  acknowledges it naming the resources that are watched, no further response is due and the watch
  is unchanged, unless an answer was promised to a warming client.
\<close>

lemma acknowledged_response_is_final:
  assumes "Send proxy_watcher w url nonce None now = Inr (None, w1)" and "nonce \<noteq> []"
    and "GetWatchedResource w url = Some p" and "\<not> wr_AlwaysRespond p"
    and "req_TypeUrl request = url" and "req_ErrorDetail request = None" and "req_ResponseNonce request = nonce"
    and "fset_of_list (req_ResourceNames request) = elems (wr_ResourceNames p)"
  shows "\<exists>delta w'. ShouldRespond proxy_watcher w1 request = Inr (False, delta, w') \<and>
    map_option (\<lambda>p. elems (wr_ResourceNames p)) (GetWatchedResource w' url) = Some (elems (wr_ResourceNames p))"
proof -
  have "w_GetWatchedResource proxy_watcher w url = Some p" using assms(3) by (simp add: proxy_watcher_def)
  from proxy.ack_after_send [OF assms(1,2) this assms(4-8)] show ?thesis by (simp add: proxy_watcher_def)
qed

lemma acknowledged_response_is_final_witness:
  "\<exists>delta w'. ShouldRespond proxy_watcher
      (fmupd EndpointType ((zero_WatchedResource EndpointType)\<lparr>wr_ResourceNames := Some {|''a''|},
         wr_NonceSent := ''n2'', wr_LastSendTime := 7\<rparr>) example_watches)
      (example_eds_request [''a''] ''n2'') = Inr (False, delta, w')"
proof -
  let ?p = "(zero_WatchedResource EndpointType)\<lparr>wr_ResourceNames := Some {|''a''|}, wr_NonceSent := ''n1''\<rparr>"
  let ?w1 = "fmupd EndpointType (?p\<lparr>wr_NonceSent := ''n2'', wr_LastSendTime := 7\<rparr>) example_watches"
  have "Send proxy_watcher example_watches EndpointType ''n2'' None 7 = Inr (None, ?w1)"
    by (simp add: Send_def proxy_watcher_def UpdateWatchedResource_def example_watches_def record_sent_def)
  moreover have "GetWatchedResource example_watches EndpointType = Some ?p"
    by (simp add: GetWatchedResource_def example_watches_def)
  ultimately show ?thesis
    using acknowledged_response_is_final [of example_watches EndpointType "''n2''" 7 ?w1 ?p
        "example_eds_request [''a''] ''n2''"]
    by (auto simp: example_eds_request_def zero_WatchedResource_def)
qed

text \<open>
  C20: An error report for a type that is not watched crashes. A request that carries an error
  detail is never answered: for a watched type it only records the message, and for a type that is
  not watched (because the client unsubscribed, or never asked for it) the update function
  dereferences a nil pointer.
\<close>

theorem error_report_outcome:
  assumes "req_ErrorDetail request = Some (errCode, message)"
  shows "case GetWatchedResource w (req_TypeUrl request) of
      None \<Rightarrow> ShouldRespond proxy_watcher w request = Inl NilDeref
    | Some p \<Rightarrow> (\<exists>w'. ShouldRespond proxy_watcher w request = Inr (False, emptyResourceDelta, w') \<and>
        GetWatchedResource w' (req_TypeUrl request) = Some (p\<lparr>wr_LastError := message\<rparr>))"
  using proxy.error_unwatched [OF assms, of w] proxy.error_recorded [OF assms, of w]
  by (auto simp: proxy_watcher_def split: option.splits)

theorem error_report_outcome_witness:
  "ShouldRespond proxy_watcher (fmempty :: nat watches)
     ((example_eds_request [] ''n1'')\<lparr>req_ErrorDetail := Some (3, ''rejected'')\<rparr>) = Inl NilDeref"
  using error_report_outcome [of "(example_eds_request [] ''n1'')\<lparr>req_ErrorDetail := Some (3, ''rejected'')\<rparr>" 3 "''rejected''"
      "fmempty :: nat watches"]
  by (simp add: GetWatchedResource_def)

end
