(* ===== verification/Connections.thy ===== *)
theory Connections
  imports Watched Services
begin

text \<open>
  Connections of clients: the proxy of \<^verbatim>\<open>dubbod/discovery/pkg/model/context.go\<close>, workload
  authentication and authorization (\<^verbatim>\<open>auth.go\<close>, \<^verbatim>\<open>pkg/spiffe\<close>), and the parts of \<^verbatim>\<open>ads.go\<close> that work
  on one connection: its proxy state, the order in which its watches are pushed, its generators.
  What a connection does with the outside world is kept in its state: \<open>con_sent\<close> lists the
  responses handed to its stream with the outcome, and \<open>con_ticks\<close> counts the points at which it
  reads the clock, an identifier or the outcome of a send, which come from the parameter \<open>io\<close>.
\<close>

section \<open>Proxies\<close>

record NodeMetadata =
  nm_Generator :: string
  nm_ClusterID :: string
  nm_Namespace :: string

text \<open>Services and ports that targets refer to are never \<^verbatim>\<open>nil\<close>.\<close>

record ServiceTarget =
  st_Service :: Service
  st_ServicePort :: Port
  st_TargetPort :: "32 word"

definition Inherent :: string where "Inherent = ''inherent''"
definition Router :: string where "Router = ''router''"

definition IsApplicationNodeType :: "string \<Rightarrow> bool" where
  "IsApplicationNodeType nType \<longleftrightarrow> nType = Inherent \<or> nType = Router"

text \<open>The configuration snapshot of a push context is an arbitrary type.\<close>

record 'cs PushContext =
  pc_ConfigSnapshot :: 'cs
  pc_PushVersion :: string

record ('r, 'p) Proxy =
  px_LastPushContext :: "'p option"
  px_LastPushTime :: time
  px_Type :: string
  px_WatchedResources :: "'r watches"
  px_ID :: string
  px_DNSDomain :: string
  px_Metadata :: "NodeMetadata option"
  px_IPAddresses :: "string list"
  px_ConfigNamespace :: string
  px_ServiceTargets :: "ServiceTarget list"

definition IsInherent :: "('r, 'p) Proxy option \<Rightarrow> bool" where
  "IsInherent node \<longleftrightarrow> (case node of None \<Rightarrow> False | Some node \<Rightarrow> px_Type node = Inherent)"

definition IsInherentGrpc :: "('r, 'p) Proxy \<Rightarrow> bool" where
  "IsInherentGrpc node \<longleftrightarrow> (case px_Metadata node of None \<Rightarrow> False | Some m \<Rightarrow> nm_Generator m = ''grpc'')"

definition GetProxyConfigNamespace :: "('r, 'p) Proxy option \<Rightarrow> panic + string" where
  "GetProxyConfigNamespace proxy =
     (case proxy of None \<Rightarrow> Inr []
      | Some proxy \<Rightarrow>
        (case px_Metadata proxy of None \<Rightarrow> Inl NilDeref
         | Some m \<Rightarrow>
             if length (nm_Namespace m) > 0 then Inr (nm_Namespace m)
             else let parts = Split (px_DNSDomain proxy) (CHR ''.'') in
                  if length parts > 1 then Inr (hd parts) else Inr []))"

text \<open>The loop dereferences the metadata at its first iteration.\<close>

definition ShouldUpdateServiceTargets :: "('r, 'p) Proxy \<Rightarrow> ConfigKey gset \<Rightarrow> panic + bool" where
  "ShouldUpdateServiceTargets node updates =
     (case px_Metadata node of
        None \<Rightarrow> if Len updates = 0 then Inr False else Inl NilDeref
      | Some m \<Rightarrow> Inr (fBex (elems updates) (\<lambda>config. ck_Namespace config = nm_Namespace m)))"

text \<open>
  The comparison given to \<^verbatim>\<open>sort.SliceStable\<close>, for services that are not \<^verbatim>\<open>nil\<close>: creation time, then
  host name.
\<close>

definition target_key :: "ServiceTarget \<Rightarrow> time \<times> string" where
  "target_key st = (svc_CreationTime (st_Service st), svc_Hostname (st_Service st))"

fun insert_target :: "ServiceTarget \<Rightarrow> ServiceTarget list \<Rightarrow> ServiceTarget list" where
  "insert_target x [] = [x]"
| "insert_target x (y # ys) =
     (let (tx, hx) = target_key x; (ty, hy) = target_key y in
      if (if ty \<noteq> tx then ty < tx else hy < hx) then y # insert_target x ys else x # y # ys)"

definition SetServiceTargets ::
    "(('r, 'p) Proxy \<Rightarrow> ServiceTarget list) \<Rightarrow> ('r, 'p) Proxy \<Rightarrow> ('r, 'p) Proxy" where
  "SetServiceTargets getProxyServiceTargets node =
     node\<lparr>px_ServiceTargets := foldr insert_target (getProxyServiceTargets node) []\<rparr>"

definition computeProxyState ::
    "(('r, 'p) Proxy \<Rightarrow> ServiceTarget list) \<Rightarrow> ('r, 'p) Proxy \<Rightarrow> 'p PushRequest option \<Rightarrow> panic + ('r, 'p) Proxy" where
  "computeProxyState getProxyServiceTargets proxy request =
     (let set_targets =
        (case request of None \<Rightarrow> Inr True
         | Some r \<Rightarrow> if pr_Forced r then Inr True else ShouldUpdateServiceTargets proxy (pr_ConfigsUpdated r))
      in case set_targets of
           Inl p \<Rightarrow> Inl p
         | Inr update \<Rightarrow>
             (let proxy = (if update then SetServiceTargets getProxyServiceTargets proxy else proxy);
                  push = (case request of None \<Rightarrow> px_LastPushContext proxy | Some r \<Rightarrow> pr_Push r);
                  proxy = proxy\<lparr>px_LastPushContext := push\<rparr>
              in Inr (case request of None \<Rightarrow> proxy | Some r \<Rightarrow> proxy\<lparr>px_LastPushTime := pr_Start r\<rparr>)))"

section \<open>Authentication and authorization\<close>

record Identity =
  id_TrustDomain :: string
  id_Namespace :: string
  id_ServiceAccount :: string

definition URIPrefix :: string where "URIPrefix = ''spiffe://''"

definition ParseIdentity :: "string \<Rightarrow> err + Identity" where
  "ParseIdentity s =
     (if \<not> HasPrefix s URIPrefix then Inl (Errorf ''identity is not a spiffe format'')
      else case Split (drop (length URIPrefix) s) (CHR ''/'') of
             [td, seg1, ns, seg2, sa] \<Rightarrow>
               if seg1 \<noteq> ''ns'' \<or> seg2 \<noteq> ''sa'' then Inl (Errorf ''identity is not a spiffe format'')
               else Inr \<lparr>id_TrustDomain = td, id_Namespace = ns, id_ServiceAccount = sa\<rparr>
           | _ \<Rightarrow> Inl (Errorf ''identity is not a spiffe format''))"

definition is_workload_identity :: "string \<Rightarrow> bool" where
  "is_workload_identity raw \<longleftrightarrow>
     (case ParseIdentity raw of Inl e \<Rightarrow> False
      | Inr identity \<Rightarrow> id_TrustDomain identity \<noteq> [] \<and> id_Namespace identity \<noteq> [] \<and> id_ServiceAccount identity \<noteq> [])"

text \<open>An authenticator gives an error, no caller, or the identities of a caller.\<close>

fun authenticate :: "('ctx \<Rightarrow> err + string list option) list \<Rightarrow> 'ctx \<Rightarrow> err + string list" where
  "authenticate [] ctx = Inl (Errorf ''xDS requires an authenticated workload identity'')"
| "authenticate (authenticator # rest) ctx =
     (case authenticator ctx of
        Inr (Some raws) \<Rightarrow>
          (let identities = filter is_workload_identity raws
           in if length identities > 0 then Inr identities else authenticate rest ctx)
      | _ \<Rightarrow> authenticate rest ctx)"

text \<open>The expiry times of the certificates of the verified chains of a peer, if it has TLS information.\<close>

fun earliest_expiry :: "time list \<Rightarrow> time \<Rightarrow> time" where
  "earliest_expiry [] expires = expires"
| "earliest_expiry (notAfter # certs) expires =
     earliest_expiry certs (if IsZero expires \<or> notAfter < expires then notAfter else expires)"

definition certificateExpiry :: "time list list option \<Rightarrow> time" where
  "certificateExpiry verifiedChains =
     (case verifiedChains of
        Some (chain # _) \<Rightarrow> earliest_expiry chain zero_time
      | _ \<Rightarrow> zero_time)"

section \<open>Connections\<close>

record 'a Resource =
  res_Name :: string
  res_Resource :: 'a

record 'a DiscoveryResponse =
  dr_TypeUrl :: string
  dr_VersionInfo :: string
  dr_Nonce :: string
  dr_Resources :: "'a list"

record 'a DeltaDiscoveryResponse =
  ddr_TypeUrl :: string
  ddr_SystemVersionInfo :: string
  ddr_Nonce :: string
  ddr_Resources :: "'a Resource list"
  ddr_RemovedResources :: "string list"

datatype 'a response = Sotw "'a DiscoveryResponse" | Delta "'a DeltaDiscoveryResponse"

type_synonym ('a, 'cs) proxy = "('a Resource, 'cs PushContext) Proxy"

record ('a, 'cs) Connection =
  con_ID :: string
  con_proxy :: "('a, 'cs) proxy option"
  con_ids :: "string list"
  con_authExpiry :: time
  con_ticks :: nat
  con_sent :: "(nat \<times> 'a response \<times> err option) list"

text \<open>What a connection reads from outside at a tick: the time, a fresh identifier, the outcome of a send.\<close>

record io =
  io_now :: "nat \<Rightarrow> time"
  io_uuid :: "nat \<Rightarrow> string"
  io_send :: "nat \<Rightarrow> err option"

record XdsLogDetails =
  Incremental :: bool
  AdditionalInfo :: string

text \<open>
  Generators. A missing list of resources is \<^verbatim>\<open>nil\<close>. The second constructor is a generator that also
  implements \<^verbatim>\<open>XdsDeltaResourceGenerator\<close>.
\<close>

type_synonym ('a, 'cs) generate =
  "('a, 'cs) proxy \<Rightarrow> 'a Resource WatchedResource \<Rightarrow> 'cs PushContext PushRequest \<Rightarrow>
   'a Resource list option \<times> XdsLogDetails \<times> err option"

type_synonym ('a, 'cs) generate_deltas =
  "('a, 'cs) proxy \<Rightarrow> 'cs PushContext PushRequest \<Rightarrow> 'a Resource WatchedResource \<Rightarrow>
   'a Resource list option \<times> string list option \<times> XdsLogDetails \<times> bool \<times> err option"

datatype ('a, 'cs) generator =
  ResourceGenerator "('a, 'cs) generate"
| DeltaResourceGenerator "('a, 'cs) generate" "('a, 'cs) generate_deltas"

text \<open>The configuration of the server that the handlers of a connection use.\<close>

record ('a, 'cs) server =
  srv_Authorize :: "(('a, 'cs) proxy \<Rightarrow> string list \<Rightarrow> err option) option"
  srv_Generators :: "(string, ('a, 'cs) generator) fmap"
  srv_ProxyNeedsPush :: "(('a, 'cs) proxy \<Rightarrow> 'cs PushContext PushRequest \<Rightarrow> 'cs PushContext PushRequest \<times> bool) option"
  srv_GetProxyServiceTargets :: "('a, 'cs) proxy \<Rightarrow> ServiceTarget list"

text \<open>The method \<^verbatim>\<open>Error\<close> of the errors of the model.\<close>

fun code_name :: "code \<Rightarrow> string" where
  "code_name InvalidArgument = ''InvalidArgument''"
| "code_name PermissionDenied = ''PermissionDenied''"
| "code_name Unauthenticated = ''Unauthenticated''"
| "code_name Unavailable = ''Unavailable''"
| "code_name ResourceExhausted = ''ResourceExhausted''"
| "code_name Unimplemented = ''Unimplemented''"
| "code_name DeadlineExceeded = ''DeadlineExceeded''"

fun err_text :: "err \<Rightarrow> string" where
  "err_text (Status c s) = ''rpc error: code = '' @ code_name c @ '' desc = '' @ s"
| "err_text (Errorf s) = s"

definition authorize_at :: "('a, 'cs) server \<Rightarrow> time \<Rightarrow> ('a, 'cs) Connection option \<Rightarrow> err option" where
  "authorize_at s now con =
     (case con of None \<Rightarrow> Some (Status PermissionDenied ''xDS workload authorization is not configured'')
      | Some con \<Rightarrow>
        (case (con_proxy con, srv_Authorize s) of
           (Some proxy, Some authorize) \<Rightarrow>
             if \<not> IsZero (con_authExpiry con) \<and> \<not> now < con_authExpiry con
             then Some (Status Unauthenticated
               ''xDS client certificate has expired; reconnect with renewed credentials'')
             else (case authorize proxy (con_ids con) of
                     Some e \<Rightarrow> Some (Status PermissionDenied (err_text e))
                   | None \<Rightarrow> None)
         | _ \<Rightarrow> Some (Status PermissionDenied ''xDS workload authorization is not configured'')))"

text \<open>The call reads the clock once, so the connection moves to the next tick.\<close>

definition authorizeConnection ::
    "('a, 'cs) server \<Rightarrow> io \<Rightarrow> ('a, 'cs) Connection \<Rightarrow> err option \<times> ('a, 'cs) Connection" where
  "authorizeConnection s w con =
     (authorize_at s (io_now w (con_ticks con)) (Some con), con\<lparr>con_ticks := con_ticks con + 1\<rparr>)"

definition findGenerator ::
    "('a, 'cs) server \<Rightarrow> string \<Rightarrow> ('a, 'cs) Connection option \<Rightarrow> ('a, 'cs) generator option" where
  "findGenerator s typeURL con =
     (case con of None \<Rightarrow> None
      | Some con \<Rightarrow>
        (case con_proxy con of None \<Rightarrow> None
         | Some proxy \<Rightarrow>
           (case px_Metadata proxy of None \<Rightarrow> None
            | Some m \<Rightarrow> fmlookup (srv_Generators s) (nm_Generator m @ ''/'' @ typeURL))))"

definition PushOrder :: "string list" where
  "PushOrder = [ClusterType, EndpointType, ListenerType, RouteType]"

definition KnownOrderedTypeUrls :: "string fset" where
  "KnownOrderedTypeUrls = fset_of_list PushOrder"

text \<open>\<open>ks\<close> is the order in which the map of watches is traversed.\<close>

definition watchedResourcesByOrder :: "string list \<Rightarrow> 'r watches \<Rightarrow> 'r WatchedResource list" where
  "watchedResourcesByOrder ks allWatched =
     List.map_filter (fmlookup allWatched) PushOrder @
     List.map_filter (\<lambda>tp. if tp |\<in>| KnownOrderedTypeUrls then None else fmlookup allWatched tp) ks"

section \<open>Facts on connections\<close>

lemma watchesByOrder_split:
  "watchedResourcesByOrder ks ws =
     map (\<lambda>u. the (fmlookup ws u)) (filter (\<lambda>u. u |\<in>| fmdom ws) PushOrder) @
     map (\<lambda>u. the (fmlookup ws u)) (filter (\<lambda>u. u |\<in>| fmdom ws \<and> u \<notin> set PushOrder) ks)"
proof -
  have "List.map_filter (fmlookup ws) us =
      map (\<lambda>u. the (fmlookup ws u)) (filter (\<lambda>u. u |\<in>| fmdom ws) us)" for us
    by (induction us) (auto simp: List.map_filter_def fmdom_notI split: option.splits dest: fmdomI)
  moreover have "List.map_filter (\<lambda>tp. if tp |\<in>| KnownOrderedTypeUrls then None else fmlookup ws tp) us =
      map (\<lambda>u. the (fmlookup ws u)) (filter (\<lambda>u. u |\<in>| fmdom ws \<and> u \<notin> set PushOrder) us)" for us
    by (induction us)
      (auto simp: List.map_filter_def KnownOrderedTypeUrls_def fset_of_list_elem fmdom_notI split: option.splits dest: fmdomI)
  ultimately show ?thesis by (simp add: watchedResourcesByOrder_def)
qed

lemma PushOrder_distinct: "distinct PushOrder"
  by (simp add: PushOrder_def type_urls)

lemma ParseIdentity_iff:
  "ParseIdentity s = Inr i \<longleftrightarrow>
     s = URIPrefix @ id_TrustDomain i @ ''/ns/'' @ id_Namespace i @ ''/sa/'' @ id_ServiceAccount i \<and>
     CHR ''/'' \<notin> set (id_TrustDomain i) \<union> set (id_Namespace i) \<union> set (id_ServiceAccount i)"
  (is "?l \<longleftrightarrow> ?r")
proof
  assume l: ?l
  then have p: "HasPrefix s URIPrefix" by (auto simp: ParseIdentity_def split: if_splits)
  then obtain t where t: "s = URIPrefix @ t" by (auto simp: HasPrefix_iff prefix_def)
  from l p t have "Split t (CHR ''/'') =
      [id_TrustDomain i, ''ns'', id_Namespace i, ''sa'', id_ServiceAccount i]"
    by (auto simp: ParseIdentity_def split: if_splits list.splits)
  then show ?r
    using Join_Split [of t "CHR ''/''"] Split_no_sep_in [of _ t "CHR ''/''"] t by auto
next
  assume r: ?r
  let ?t = "id_TrustDomain i @ ''/ns/'' @ id_Namespace i @ ''/sa/'' @ id_ServiceAccount i"
  have "Split ?t (CHR ''/'') = [id_TrustDomain i, ''ns'', id_Namespace i, ''sa'', id_ServiceAccount i]"
    using r Split_append [of "CHR ''/''" "id_TrustDomain i" "''ns/'' @ id_Namespace i @ ''/sa/'' @ id_ServiceAccount i"]
      Split_append [of "CHR ''/''" "''ns''" "id_Namespace i @ ''/sa/'' @ id_ServiceAccount i"]
      Split_append [of "CHR ''/''" "id_Namespace i" "''sa/'' @ id_ServiceAccount i"]
      Split_append [of "CHR ''/''" "''sa''" "id_ServiceAccount i"] Split_no_sep [of "CHR ''/''" "id_ServiceAccount i"]
    by simp
  with r show ?l by (simp add: ParseIdentity_def HasPrefix_iff)
qed

lemma earliest_expiry_Min:
  assumes "zero_time \<notin> set certs" "certs \<noteq> []"
  shows "earliest_expiry certs zero_time = Min (set certs)"
proof -
  have "t \<noteq> zero_time \<Longrightarrow> zero_time \<notin> set cs \<Longrightarrow> earliest_expiry cs t = Min (insert t (set cs))" for t cs
  proof (induction cs arbitrary: t)
    case (Cons c cs)
    then show ?case
      by (cases "cs = []") (auto simp: IsZero_def Min_insert min_def insert_commute)
  qed simp
  with assms show ?thesis by (cases certs) (auto simp: IsZero_def)
qed

text \<open>An authorization in force: what the server's rule and the certificate of the client say at \<open>now\<close>.\<close>

definition authorized :: "('a, 'cs) server \<Rightarrow> time \<Rightarrow> ('a, 'cs) Connection \<Rightarrow> bool" where
  "authorized s now con \<longleftrightarrow>
     (\<exists>proxy authorize. con_proxy con = Some proxy \<and> srv_Authorize s = Some authorize \<and>
        authorize proxy (con_ids con) = None) \<and>
     (con_authExpiry con = zero_time \<or> now < con_authExpiry con)"

lemma authorize_at_iff: "authorize_at s now (Some con) = None \<longleftrightarrow> authorized s now con"
  by (auto simp: authorize_at_def authorized_def IsZero_def split: option.splits)

lemma is_workload_identity_iff:
  "is_workload_identity raw \<longleftrightarrow>
     (\<exists>td ns sa. raw = URIPrefix @ td @ ''/ns/'' @ ns @ ''/sa/'' @ sa \<and>
        td \<noteq> [] \<and> ns \<noteq> [] \<and> sa \<noteq> [] \<and> CHR ''/'' \<notin> set td \<union> set ns \<union> set sa)" (is "_ \<longleftrightarrow> ?r")
proof
  assume "is_workload_identity raw"
  then obtain i where "ParseIdentity raw = Inr i" "id_TrustDomain i \<noteq> []" "id_Namespace i \<noteq> []"
    "id_ServiceAccount i \<noteq> []"
    by (auto simp: is_workload_identity_def split: sum.splits)
  then show ?r unfolding ParseIdentity_iff by blast
next
  assume ?r
  then obtain td ns sa where r: "raw = URIPrefix @ td @ ''/ns/'' @ ns @ ''/sa/'' @ sa"
      "td \<noteq> []" "ns \<noteq> []" "sa \<noteq> []" "CHR ''/'' \<notin> set td \<union> set ns \<union> set sa" by blast
  then have "ParseIdentity raw = Inr \<lparr>id_TrustDomain = td, id_Namespace = ns, id_ServiceAccount = sa\<rparr>"
    by (subst ParseIdentity_iff) simp
  with r show "is_workload_identity raw" by (simp add: is_workload_identity_def)
qed

text \<open>The complete workload identities an authenticator vouches for.\<close>

definition vouched :: "('ctx \<Rightarrow> err + string list option) \<Rightarrow> 'ctx \<Rightarrow> string list" where
  "vouched a ctx = (case a ctx of Inr (Some raws) \<Rightarrow> filter is_workload_identity raws | _ \<Rightarrow> [])"

lemma authenticate_Cons:
  "authenticate (a # as) ctx = (if vouched a ctx = [] then authenticate as ctx else Inr (vouched a ctx))"
  by (simp add: vouched_def Let_def split: sum.splits option.splits)

lemma authenticate_find:
  "authenticate as ctx = (case find (\<lambda>ids. ids \<noteq> []) (map (\<lambda>a. vouched a ctx) as) of
     None \<Rightarrow> Inl (Errorf ''xDS requires an authenticated workload identity'') | Some ids \<Rightarrow> Inr ids)"
  by (induction as) (simp_all only: authenticate.simps(1) authenticate_Cons, simp_all)

section \<open>Properties\<close>


definition example_identity :: string where
  "example_identity = ''spiffe://cluster.local/ns/app/sa/default''"

definition example_authenticators :: "(unit \<Rightarrow> err + string list option) list" where
  "example_authenticators =
     [\<lambda>_. Inl (Errorf ''no token''), \<lambda>_. Inr (Some [''spiffe://cluster.local/ns//sa/default'']),
      \<lambda>_. Inr (Some [''admin'', example_identity])]"

lemma example_identity_split:
  "example_identity = URIPrefix @ ''cluster.local'' @ ''/ns/'' @ ''app'' @ ''/sa/'' @ ''default''"
  by (simp add: example_identity_def URIPrefix_def)

lemma example_authenticate: "authenticate example_authenticators () = Inr [example_identity]"
  by (simp add: example_authenticators_def example_identity_def is_workload_identity_def ParseIdentity_def
      URIPrefix_def HasPrefix_def)


text \<open>
  A push visits every watch of a connection exactly once, in dependency order. The watches are
  listed with clusters before endpoints before listeners before routes, each if it is watched, and
  then every watch of another type; no watch is missing and none is listed twice, whatever the
  order in which the map of watches is traversed.
\<close>

lemma watches_pushed_once_in_order:
  assumes "is_range ks (fmdom ws)"
  shows "\<exists>others. watchedResourcesByOrder ks ws =
           map (\<lambda>u. the (fmlookup ws u))
             (filter (\<lambda>u. u |\<in>| fmdom ws) [ClusterType, EndpointType, ListenerType, RouteType] @ others) \<and>
         set others = fset (fmdom ws) - {ClusterType, EndpointType, ListenerType, RouteType} \<and>
         distinct (filter (\<lambda>u. u |\<in>| fmdom ws) [ClusterType, EndpointType, ListenerType, RouteType] @ others)"
  using assms PushOrder_distinct is_range_set [OF assms] is_range_distinct [OF assms]
  by (intro exI [of _ "filter (\<lambda>u. u |\<in>| fmdom ws \<and> u \<notin> set PushOrder) ks"])
    (auto simp: watchesByOrder_split PushOrder_def)

lemma watches_pushed_once_in_order_witness:
  "map wr_TypeUrl (watchedResourcesByOrder [''custom'', EndpointType, ClusterType]
     (fmupd ''custom'' (zero_WatchedResource ''custom'')
       (fmupd EndpointType (zero_WatchedResource EndpointType)
         (fmupd ClusterType (zero_WatchedResource ClusterType) fmempty)))) =
   [ClusterType, EndpointType, ''custom'']"
  using watches_pushed_once_in_order [of "[''custom'', EndpointType, ClusterType]"
      "fmupd ''custom'' (zero_WatchedResource ''custom'')
       (fmupd EndpointType (zero_WatchedResource EndpointType)
         (fmupd ClusterType (zero_WatchedResource ClusterType) fmempty))"]
  by (simp add: watchedResourcesByOrder_def PushOrder_def KnownOrderedTypeUrls_def type_urls
      zero_WatchedResource_def List.map_filter_def is_range_def)

text \<open>
  A push that is not forced and names no changed configuration leaves the service targets of a
  proxy as they are, also when it is a global one.
\<close>

lemma global_push_keeps_targets:
  assumes "Len (pr_ConfigsUpdated r) = 0" "\<not> pr_Forced r"
  shows "computeProxyState getTargets proxy (Some r) =
           Inr (proxy\<lparr>px_LastPushContext := pr_Push r, px_LastPushTime := pr_Start r\<rparr>)"
  using assms by (cases "px_Metadata proxy")
    (auto simp: computeProxyState_def ShouldUpdateServiceTargets_def Len_def elems_def split: option.splits)

end
