(* ===== verification/Snapshot.thy ===== *)
theory Snapshot
  imports Policies Endpoints Connections
begin

text \<open>
  The configuration snapshot (\<^verbatim>\<open>dubbod/discovery/pkg/model/config_snapshot.go\<close>) and how it is replaced
  (\<^verbatim>\<open>config_state.go\<close>): the service index with its visibility rules and aliases, the indexes of HTTP
  routes, backend TLS policies and fault injection policies, the service accounts, and the choice
  between building a snapshot from scratch and reusing parts of the previous one. The environment
  is given by what its registries, stores and the mesh watcher return. Maps that a loop ranges over
  in an order that matters come with that order, a function from the set of keys.
\<close>

section \<open>Data\<close>

record MeshConfig =
  mesh_DefaultServiceExportTo :: "string list option"
  mesh_TrustDomainAliases :: "string list"
  mesh_RootNamespace :: string

record serviceIndex =
  si_privateByNamespace :: "(string, Service list) fmap"
  si_public :: "Service list"
  si_exportedToNamespace :: "(string, Service list) fmap"
  si_HostnameAndNamespace :: "(host_name, (string, Service) fmap) fmap"
  si_instancesByPort :: "(string, (int, DubboEndpoint list) fmap) fmap"

record BackendTLSSettings =
  bs_SNI :: string

record FaultInjectionSettings =
  fs_Delay :: int
  fs_DelayPercentage :: "32 word"
  fs_AbortStatus :: "32 word"
  fs_AbortPercentage :: "32 word"

record 'g ConfigSnapshot =
  cs_Mesh :: "MeshConfig option"
  cs_InitDone :: bool
  cs_GatewayAPIController :: "'g option"
  cs_exportToDefaults :: "string gset"
  cs_ServiceIndex :: serviceIndex
  cs_hostToRoutes :: "(host_name, Config list) fmap"
  cs_serviceTLS :: "(string, BackendTLSSettings) fmap"
  cs_serviceFaults :: "(string, FaultInjectionSettings) fmap"
  cs_serviceAccounts :: "(host_name \<times> string, string list) fmap"
  cs_AuthenticationPolicies :: "AuthenticationPolicies option"

record ('x, 'g) Environment =
  env_Services :: "Service list"
  env_Mesh :: "MeshConfig option"
  env_List :: "kind \<Rightarrow> Config list"
  env_EndpointIndex :: "'x EndpointIndex"
  env_GatewayAPIController :: "'g option"
  env_configSnapshot :: "'g ConfigSnapshot option"

text \<open>What is not part of the code: the orders of iteration and the digest function.\<close>

record orders =
  or_aliases :: "NamespacedHostname fset \<Rightarrow> NamespacedHostname list"
  or_shards :: "ShardKey fset \<Rightarrow> ShardKey list"
  or_md5 :: "string \<Rightarrow> string"

definition newServiceIndex :: serviceIndex where
  "newServiceIndex = \<lparr>si_privateByNamespace = fmempty, si_public = [], si_exportedToNamespace = fmempty,
     si_HostnameAndNamespace = fmempty, si_instancesByPort = fmempty\<rparr>"

definition NewConfigSnapshot :: "'g ConfigSnapshot" where
  "NewConfigSnapshot = \<lparr>cs_Mesh = None, cs_InitDone = False, cs_GatewayAPIController = None,
     cs_exportToDefaults = None, cs_ServiceIndex = newServiceIndex, cs_hostToRoutes = fmempty,
     cs_serviceTLS = fmempty, cs_serviceFaults = fmempty, cs_serviceAccounts = fmempty,
     cs_AuthenticationPolicies = None\<rparr>"

definition Private :: string where "Private = ''.''"
definition Public :: string where "Public = ''*''"
definition Invisible :: string where "Invisible = ''~''"
definition Kubernetes :: string where "Kubernetes = ''Kubernetes''"

section \<open>Services\<close>

definition initDefaultExportMaps :: "'g ConfigSnapshot \<Rightarrow> panic + 'g ConfigSnapshot" where
  "initDefaultExportMaps ps =
     (case cs_Mesh ps of None \<Rightarrow> Inl NilDeref
      | Some mesh \<Rightarrow>
          Inr (ps\<lparr>cs_exportToDefaults :=
            (case mesh_DefaultServiceExportTo mesh of
               Some es \<Rightarrow> Some (fset_of_list es)
             | None \<Rightarrow> Some {|Public|})\<rparr>))"

definition service_key :: "Service \<Rightarrow> time \<times> string \<times> string" where
  "service_key s = (svc_CreationTime s, sa_Name (svc_Attributes s), sa_Namespace (svc_Attributes s))"

definition SortServicesByCreationTime :: "Service list \<Rightarrow> Service list" where
  "SortServicesByCreationTime services = sort_key service_key services"

text \<open>The aliases, by name and namespace and, with the last one winning, by name only.\<close>

definition raw_aliases :: "Service list \<Rightarrow> (NamespacedHostname, host_name) fmap" where
  "raw_aliases allServices = fold (\<lambda>s m.
     if svc_Resolution s \<noteq> Alias then m
     else fmupd \<lparr>nh_Hostname = svc_Hostname s, nh_Namespace = sa_Namespace (svc_Attributes s)\<rparr>
       (k8s_ExternalName (sa_K8sAttributes (svc_Attributes s))) m) allServices fmempty"

definition unnamespaced ::
    "NamespacedHostname list \<Rightarrow> (NamespacedHostname, host_name) fmap \<Rightarrow> (host_name, host_name) fmap" where
  "unnamespaced ks raw = fold (\<lambda>k m.
     case fmlookup raw k of None \<Rightarrow> m | Some v \<Rightarrow> fmupd (nh_Hostname k) v m) ks fmempty"

text \<open>The inner loop follows a chain of aliases and gives up when it meets a name again.\<close>

function follow_aliases :: "(host_name, host_name) fmap \<Rightarrow> host_name fset \<Rightarrow> host_name \<Rightarrow> host_name option" where
  "follow_aliases m seen referencedService =
     (case fmlookup m referencedService of
        None \<Rightarrow> Some referencedService
      | Some n \<Rightarrow> if n |\<in>| seen then None else follow_aliases m (finsert n seen) n)"
  by pat_completeness auto
termination
proof (relation "measure (\<lambda>(m, seen, r). fcard (fmran m |-| seen))")
  fix m :: "(host_name, host_name) fmap" and seen r n
  assume "fmlookup m r = Some n" "n |\<notin>| seen"
  then have "fmran m |-| finsert n seen |\<subset>| fmran m |-| seen" by (auto intro: fmranI)
  then show "((m, finsert n seen, n), m, seen, r) \<in> measure (\<lambda>(m, seen, r). fcard (fmran m |-| seen))"
    by (simp add: pfsubset_fcard_mono)
qed simp

definition resolve_alias ::
    "(host_name, host_name) fmap \<Rightarrow> NamespacedHostname \<Rightarrow> host_name \<Rightarrow> host_name option" where
  "resolve_alias m alias referencedService =
     (if fmlookup m referencedService = None then Some referencedService
      else follow_aliases m {|nh_Hostname alias, referencedService|} referencedService)"

definition resolved_aliases ::
    "(NamespacedHostname fset \<Rightarrow> NamespacedHostname list) \<Rightarrow> Service list \<Rightarrow> (NamespacedHostname, host_name) fmap" where
  "resolved_aliases rng allServices =
     (let raw = raw_aliases allServices; ks = rng (fmdom raw); m = unnamespaced ks raw
      in fold (\<lambda>alias res. case fmlookup raw alias of None \<Rightarrow> res
           | Some referencedService \<Rightarrow>
               (case resolve_alias m alias referencedService of None \<Rightarrow> res | Some c \<Rightarrow> fmupd alias c res))
         ks fmempty)"

text \<open>
  The configuration keys that the code compares and inserts for an alias are all the zero key, so
  that inserting one into a set that contains one changes nothing.
\<close>

definition aliases_for_service ::
    "(NamespacedHostname fset \<Rightarrow> NamespacedHostname list) \<Rightarrow> (NamespacedHostname, host_name) fmap \<Rightarrow>
       (host_name, NamespacedHostname list) fmap" where
  "aliases_for_service rng resolved =
     fmmap (sort_key (\<lambda>a. (nh_Namespace a, nh_Hostname a)))
       (fold (\<lambda>alias m. case fmlookup resolved alias of None \<Rightarrow> m | Some concrete \<Rightarrow> append_at concrete alias m)
         (rng (fmdom resolved)) fmempty)"

definition resolveServiceAliases ::
    "(NamespacedHostname fset \<Rightarrow> NamespacedHostname list) \<Rightarrow> Service list \<Rightarrow> Service list" where
  "resolveServiceAliases rng allServices =
     (let aliasesForService = aliases_for_service rng (resolved_aliases rng allServices)
      in map (\<lambda>s. case fmlookup aliasesForService (svc_Hostname s) of None \<Rightarrow> s
           | Some aliases \<Rightarrow> (let s = Service_DeepCopy s
               in s\<lparr>svc_Attributes := (svc_Attributes s)\<lparr>sa_Aliases := aliases\<rparr>\<rparr>)) allServices)"

fun port_maps :: "Port option list \<Rightarrow> (string, int) fmap \<Rightarrow> int fset \<Rightarrow> panic + ((string, int) fmap \<times> int fset)" where
  "port_maps [] portMap ports = Inr (portMap, ports)"
| "port_maps (None # rest) portMap ports = Inl NilDeref"
| "port_maps (Some p # rest) portMap ports =
     port_maps rest (fmupd (port_Name p) (port_Port p) portMap) (finsert (port_Port p) ports)"

definition at_or_empty :: "('k, ('l, 'v) fmap) fmap \<Rightarrow> 'k \<Rightarrow> ('l, 'v) fmap" where
  "at_or_empty m k = (case fmlookup m k of None \<Rightarrow> fmempty | Some v \<Rightarrow> v)"

definition index_instances ::
    "(ShardKey fset \<Rightarrow> ShardKey list) \<Rightarrow> 'x EndpointIndex \<Rightarrow> Service \<Rightarrow> (string, int) fmap \<Rightarrow> int fset \<Rightarrow>
       serviceIndex \<Rightarrow> serviceIndex" where
  "index_instances rng index s portMap ports si =
     (let svcKey = Service_Key (Some s);
          byPort = at_or_empty (si_instancesByPort si) svcKey;
          byPort = (case ShardsForService index (svc_Hostname s) (sa_Namespace (svc_Attributes s)) of
            None \<Rightarrow> byPort
          | Some shards \<Rightarrow> fmadd byPort (CopyEndpoints (rng (fmdom (es_Shards shards))) shards portMap (Some ports)))
      in si\<lparr>si_instancesByPort := fmupd svcKey byPort (si_instancesByPort si)\<rparr>)"

text \<open>Of two services with the same name and namespace the one of Kubernetes wins, then the first.\<close>

definition index_hostname :: "Service \<Rightarrow> serviceIndex \<Rightarrow> serviceIndex" where
  "index_hostname s si =
     (let byNs = at_or_empty (si_HostnameAndNamespace si) (svc_Hostname s);
          ns = sa_Namespace (svc_Attributes s);
          keep = (case fmlookup byNs ns of None \<Rightarrow> False
            | Some existing \<Rightarrow> sa_ServiceRegistry (svc_Attributes existing) = Kubernetes \<or>
                sa_ServiceRegistry (svc_Attributes s) \<noteq> Kubernetes)
      in si\<lparr>si_HostnameAndNamespace := fmupd (svc_Hostname s) (if keep then byNs else fmupd ns s byNs)
           (si_HostnameAndNamespace si)\<rparr>)"

definition export_one :: "Service \<Rightarrow> string \<Rightarrow> serviceIndex \<Rightarrow> serviceIndex" where
  "export_one s exportTo si =
     (let ns = sa_Namespace (svc_Attributes s) in
      if exportTo = Private \<or> exportTo = ns
      then si\<lparr>si_privateByNamespace := append_at ns s (si_privateByNamespace si)\<rparr>
      else si\<lparr>si_exportedToNamespace := append_at exportTo s (si_exportedToNamespace si)\<rparr>)"

text \<open>Each element of the set appends to one list, so the order of the loop does not matter.\<close>

definition index_visibility :: "string gset \<Rightarrow> Service \<Rightarrow> serviceIndex \<Rightarrow> serviceIndex" where
  "index_visibility defaults s si =
     (let ns = sa_Namespace (svc_Attributes s); ExportTo = sa_ExportTo (svc_Attributes s) in
      if IsEmpty ExportTo then
        if Contains defaults Private
        then si\<lparr>si_privateByNamespace := append_at ns s (si_privateByNamespace si)\<rparr>
        else if Contains defaults Public then si\<lparr>si_public := si_public si @ [s]\<rparr>
        else si
      else if Contains ExportTo Public then si\<lparr>si_public := si_public si @ [s]\<rparr>
      else if Contains ExportTo Invisible then si
      else fold (export_one s) (sorted_list_of_fset (elems ExportTo)) si)"

definition Identity_String :: "Identity \<Rightarrow> string" where
  "Identity_String i = URIPrefix @ id_TrustDomain i @ ''/ns/'' @ id_Namespace i @ ''/sa/'' @ id_ServiceAccount i"

definition expand_identity :: "string list \<Rightarrow> string \<Rightarrow> string fset" where
  "expand_identity trustDomainAliases ident =
     finsert ident
       (if \<not> HasPrefix ident URIPrefix then {||}
        else case ParseIdentity ident of Inl _ \<Rightarrow> {||}
          | Inr m \<Rightarrow> fset_of_list (map (\<lambda>td. Identity_String (m\<lparr>id_TrustDomain := td\<rparr>)) trustDomainAliases))"

definition ExpandWithTrustDomains :: "string gset \<Rightarrow> string list \<Rightarrow> string gset" where
  "ExpandWithTrustDomains spiffeIdentities trustDomainAliases =
     (if length trustDomainAliases = 0 then spiffeIdentities
      else Some (ffUnion (expand_identity trustDomainAliases |`| elems spiffeIdentities)))"

definition accounts_of :: "'x EndpointIndex \<Rightarrow> Service \<Rightarrow> string gset" where
  "accounts_of index svc =
     (let accounts = (case ShardsForService index (svc_Hostname svc) (sa_Namespace (svc_Attributes svc)) of
            None \<Rightarrow> None | Some shard \<Rightarrow> Some (es_ServiceAccounts shard))
      in if length (svc_ServiceAccounts svc) > 0
         then Some (elems accounts |\<union>| fset_of_list (svc_ServiceAccounts svc))
         else accounts)"

definition initServiceAccounts ::
    "'x EndpointIndex \<Rightarrow> Service list \<Rightarrow> 'g ConfigSnapshot \<Rightarrow> panic + 'g ConfigSnapshot" where
  "initServiceAccounts index services ps =
     (if services = [] then Inr ps
      else case cs_Mesh ps of None \<Rightarrow> Inl NilDeref
      | Some mesh \<Rightarrow> Inr (ps\<lparr>cs_serviceAccounts :=
          fold (\<lambda>svc. fmupd (svc_Hostname svc, sa_Namespace (svc_Attributes svc))
             (sorted_list_of_fset (elems (ExpandWithTrustDomains (accounts_of index svc) (mesh_TrustDomainAliases mesh)))))
           services (cs_serviceAccounts ps)\<rparr>))"

definition index_service ::
    "orders \<Rightarrow> 'x EndpointIndex \<Rightarrow> string gset \<Rightarrow> Service \<Rightarrow> serviceIndex \<Rightarrow> panic + serviceIndex" where
  "index_service ord index defaults s si =
     (case port_maps (case svc_Ports s of None \<Rightarrow> [] | Some ps \<Rightarrow> ps) fmempty {||} of Inl p \<Rightarrow> Inl p
      | Inr (portMap, ports) \<Rightarrow>
          Inr (index_visibility defaults s (index_hostname s
            (index_instances (or_shards ord) index s portMap ports si))))"

fun index_services ::
    "orders \<Rightarrow> 'x EndpointIndex \<Rightarrow> string gset \<Rightarrow> Service list \<Rightarrow> serviceIndex \<Rightarrow> panic + serviceIndex" where
  "index_services ord index defaults [] si = Inr si"
| "index_services ord index defaults (s # rest) si =
     (case index_service ord index defaults s si of Inl p \<Rightarrow> Inl p
      | Inr si \<Rightarrow> index_services ord index defaults rest si)"

definition initServiceRegistry ::
    "orders \<Rightarrow> ('x, 'g) Environment \<Rightarrow> 'g ConfigSnapshot \<Rightarrow> panic + 'g ConfigSnapshot" where
  "initServiceRegistry ord env ps =
     (let allServices = resolveServiceAliases (or_aliases ord) (SortServicesByCreationTime (env_Services env)) in
      case index_services ord (env_EndpointIndex env) (cs_exportToDefaults ps) allServices (cs_ServiceIndex ps) of
        Inl p \<Rightarrow> Inl p
      | Inr si \<Rightarrow> initServiceAccounts (env_EndpointIndex env) allServices (ps\<lparr>cs_ServiceIndex := si\<rparr>))"

definition ServiceAccounts :: "'g ConfigSnapshot \<Rightarrow> host_name \<Rightarrow> string \<Rightarrow> string list" where
  "ServiceAccounts ps hostname namespace =
     (case fmlookup (cs_serviceAccounts ps) (hostname, namespace) of None \<Rightarrow> [] | Some accounts \<Rightarrow> accounts)"

text \<open>The first service the loop over the namespaces of a host name meets; the proxy is not used.\<close>

definition ServiceForHostname ::
    "(string fset \<Rightarrow> string list) \<Rightarrow> 'g ConfigSnapshot \<Rightarrow> host_name \<Rightarrow> Service option" where
  "ServiceForHostname rng ps hostname =
     (let byNs = at_or_empty (si_HostnameAndNamespace (cs_ServiceIndex ps)) hostname
      in case rng (fmdom byNs) of [] \<Rightarrow> None | ns # _ \<Rightarrow> fmlookup byNs ns)"

definition servicesExportedToNamespace ::
    "(string fset \<Rightarrow> string list) \<Rightarrow> 'g ConfigSnapshot \<Rightarrow> string \<Rightarrow> Service list" where
  "servicesExportedToNamespace rng ps ns =
     (let si = cs_ServiceIndex ps in
      (if ns = [] then concat (map (slice_at (si_privateByNamespace si)) (rng (fmdom (si_privateByNamespace si))))
       else slice_at (si_privateByNamespace si) ns @ slice_at (si_exportedToNamespace si) ns) @
      si_public si)"

definition GetAllServices :: "(string fset \<Rightarrow> string list) \<Rightarrow> 'g ConfigSnapshot \<Rightarrow> Service list" where
  "GetAllServices rng ps = servicesExportedToNamespace rng ps []"

section \<open>HTTP routes\<close>

definition route_hosts :: "Config \<Rightarrow> HTTPRouteSpec \<Rightarrow> host_name list" where
  "route_hosts hr spec =
     (if hr_Hostnames spec = [] then [''*'']
      else map (\<lambda>h. if h = [] then ''*'' else ResolveShortnameToFQDN h hr) (hr_Hostnames spec))"

fun index_routes ::
    "Config list \<Rightarrow> (host_name, Config list) fmap \<Rightarrow> panic + (host_name, Config list) fmap" where
  "index_routes [] hostToRoutes = Inr hostToRoutes"
| "index_routes (hr # rest) hostToRoutes =
     (case cfg_Spec hr of
        HTTPRoute None \<Rightarrow> Inl NilDeref
      | HTTPRoute (Some spec) \<Rightarrow> index_routes rest (fold (\<lambda>h. append_at h hr) (route_hosts hr spec) hostToRoutes)
      | _ \<Rightarrow> index_routes rest hostToRoutes)"

definition initHTTPRoutes :: "('x, 'g) Environment \<Rightarrow> 'g ConfigSnapshot \<Rightarrow> panic + 'g ConfigSnapshot" where
  "initHTTPRoutes env ps =
     map_sum id (\<lambda>m. ps\<lparr>cs_hostToRoutes := m\<rparr>) (index_routes (env_List env KindHTTPRoute) fmempty)"

definition HTTPRouteForHost ::
    "(host_name fset \<Rightarrow> host_name list) \<Rightarrow> 'g ConfigSnapshot \<Rightarrow> host_name \<Rightarrow> Config list" where
  "HTTPRouteForHost rng ps hostname =
     (let hostToRoutes = cs_hostToRoutes ps; patterns = rng (fmdom hostToRoutes) in
      if hostname = ''*'' then concat (map (slice_at hostToRoutes) patterns)
      else slice_at hostToRoutes hostname @
        concat (map (\<lambda>patternHost.
          if patternHost = ''*'' then []
          else if HasPrefix patternHost ''*.'' \<and> HasSuffix hostname (drop 2 patternHost)
          then slice_at hostToRoutes patternHost else []) patterns) @
        slice_at hostToRoutes ''*'')"

section \<open>Backend TLS and fault injection policies\<close>

text \<open>\<^verbatim>\<open>strings.TrimSpace\<close> and \<^verbatim>\<open>strings.EqualFold\<close> on ASCII strings.\<close>

definition is_space :: "char \<Rightarrow> bool" where
  "is_space c \<longleftrightarrow> (of_char c :: nat) \<in> {9, 10, 11, 12, 13, 32}"

definition TrimSpace :: "string \<Rightarrow> string" where
  "TrimSpace s = rev (dropWhile is_space (rev (dropWhile is_space s)))"

definition to_lower :: "char \<Rightarrow> char" where
  "to_lower c = (let n = (of_char c :: nat) in if 65 \<le> n \<and> n \<le> 90 then char_of (n + 32) else c)"

definition EqualFold :: "string \<Rightarrow> string \<Rightarrow> bool" where
  "EqualFold s t \<longleftrightarrow> map to_lower s = map to_lower t"

definition supportsSystemBackendTLS :: "BackendTLSPolicySpec option \<Rightarrow> bool" where
  "supportsSystemBackendTLS spec =
     (case spec of None \<Rightarrow> False
      | Some spec \<Rightarrow> if bt_Hostname spec = [] then False else bt_WellKnownCACertificates spec = Some ''System'')"

definition isBackendTLSPolicyServiceTarget :: "LocalPolicyTargetReference \<Rightarrow> bool" where
  "isBackendTLSPolicyServiceTarget target =
     (if lt_SectionName target \<noteq> None then False
      else let group = TrimSpace (lt_Group target); kind = TrimSpace (lt_Kind target)
           in (group = [] \<or> group = ''core'') \<and> EqualFold kind ''Service'')"

definition backendTLSPolicyServiceKey :: "string \<Rightarrow> string \<Rightarrow> string" where
  "backendTLSPolicyServiceKey namespace name = namespace @ ''/'' @ name"

text \<open>The first assignment of a key is kept.\<close>

definition set_first :: "'v \<Rightarrow> 'k \<Rightarrow> ('k, 'v) fmap \<Rightarrow> ('k, 'v) fmap" where
  "set_first v k m = (if fmlookup m k = None then fmupd k v m else m)"

definition index_backend_tls :: "Config \<Rightarrow> (string, BackendTLSSettings) fmap \<Rightarrow> (string, BackendTLSSettings) fmap" where
  "index_backend_tls cfg serviceTLS =
     (case cfg_Spec cfg of
        BackendTLSPolicy spec \<Rightarrow>
          (if \<not> supportsSystemBackendTLS spec then serviceTLS
           else case spec of None \<Rightarrow> serviceTLS
           | Some spec \<Rightarrow>
               fold (set_first \<lparr>bs_SNI = bt_Hostname spec\<rparr>)
                 (map (\<lambda>target. backendTLSPolicyServiceKey (meta_Namespace cfg) (lt_Name target))
                   (filter isBackendTLSPolicyServiceTarget (bt_TargetRefs spec))) serviceTLS)
      | _ \<Rightarrow> serviceTLS)"

definition initBackendTLSPolicies :: "('x, 'g) Environment \<Rightarrow> 'g ConfigSnapshot \<Rightarrow> 'g ConfigSnapshot" where
  "initBackendTLSPolicies env ps =
     ps\<lparr>cs_serviceTLS := fold index_backend_tls (sortConfigByCreationTime (env_List env KindBackendTLSPolicy)) fmempty\<rparr>"

definition BackendTLSForService :: "'g ConfigSnapshot option \<Rightarrow> string \<Rightarrow> string \<Rightarrow> BackendTLSSettings \<times> bool" where
  "BackendTLSForService ps namespace name =
     (case Option.bind ps (\<lambda>ps. fmlookup (cs_serviceTLS ps) (backendTLSPolicyServiceKey namespace name)) of
        None \<Rightarrow> (\<lparr>bs_SNI = []\<rparr>, False) | Some settings \<Rightarrow> (settings, True))"

definition faultPercentage :: "32 word option \<Rightarrow> 32 word" where
  "faultPercentage v = (case v of None \<Rightarrow> 100 | Some p \<Rightarrow> p)"

definition isFaultInjectionServiceTarget :: "PolicyTargetReference option \<Rightarrow> bool" where
  "isFaultInjectionServiceTarget target =
     (case target of None \<Rightarrow> False
      | Some t \<Rightarrow> if pt_Name t = [] then False
          else let group = TrimSpace (pt_Group t) in (group = [] \<or> group = ''core'') \<and> pt_Kind t = ''Service'')"

definition faultInjectionServiceKey :: "string \<Rightarrow> string \<Rightarrow> string \<Rightarrow> string" where
  "faultInjectionServiceKey namespace name section = namespace @ ''/'' @ name @ ''#'' @ section"

definition no_fault :: FaultInjectionSettings where
  "no_fault = \<lparr>fs_Delay = 0, fs_DelayPercentage = 0, fs_AbortStatus = 0, fs_AbortPercentage = 0\<rparr>"

definition fault_settings :: "FaultInjectionPolicy \<Rightarrow> FaultInjectionSettings" where
  "fault_settings spec =
     (let settings = no_fault;
          settings = (case fi_Delay spec of None \<Rightarrow> settings
            | Some delay \<Rightarrow> (case fd_FixedDelay delay of None \<Rightarrow> settings
              | Some d \<Rightarrow> if du_Valid d \<and> du_AsDuration d > 0
                  then settings\<lparr>fs_Delay := du_AsDuration d, fs_DelayPercentage := faultPercentage (fd_Percentage delay)\<rparr>
                  else settings))
      in case fi_Abort spec of None \<Rightarrow> settings
         | Some abort \<Rightarrow> if 400 \<le> fa_HttpStatus abort \<and> fa_HttpStatus abort \<le> 599
             then settings\<lparr>fs_AbortStatus := fa_HttpStatus abort, fs_AbortPercentage := faultPercentage (fa_Percentage abort)\<rparr>
             else settings)"

definition index_faults ::
    "Config \<Rightarrow> (string, FaultInjectionSettings) fmap \<Rightarrow> (string, FaultInjectionSettings) fmap" where
  "index_faults cfg serviceFaults =
     (case cfg_Spec cfg of
        FaultInjection (Some spec) \<Rightarrow>
          (let settings = fault_settings spec in
           if fs_Delay settings = 0 \<and> fs_AbortStatus settings = 0 then serviceFaults
           else fold (set_first settings)
             (map (\<lambda>t. faultInjectionServiceKey (meta_Namespace cfg) (pt_Name t) (pt_SectionName t))
               (List.map_filter id (filter isFaultInjectionServiceTarget (fi_TargetRefs spec)))) serviceFaults)
      | _ \<Rightarrow> serviceFaults)"

definition initFaultInjectionPolicies :: "('x, 'g) Environment \<Rightarrow> 'g ConfigSnapshot \<Rightarrow> 'g ConfigSnapshot" where
  "initFaultInjectionPolicies env ps =
     ps\<lparr>cs_serviceFaults := fold index_faults (sortConfigByCreationTime (env_List env KindFaultInjectionPolicy)) fmempty\<rparr>"

definition FaultInjectionForService ::
    "'g ConfigSnapshot option \<Rightarrow> string \<Rightarrow> string \<Rightarrow> string \<Rightarrow> FaultInjectionSettings \<times> bool" where
  "FaultInjectionForService ps namespace name portName =
     (case ps of None \<Rightarrow> (no_fault, False)
      | Some ps \<Rightarrow>
          let whole = (case fmlookup (cs_serviceFaults ps) (faultInjectionServiceKey namespace name []) of
                None \<Rightarrow> (no_fault, False) | Some settings \<Rightarrow> (settings, True))
          in if portName \<noteq> [] then
               (case fmlookup (cs_serviceFaults ps) (faultInjectionServiceKey namespace name portName) of
                  Some settings \<Rightarrow> (settings, True) | None \<Rightarrow> whole)
             else whole)"

section \<open>Building and replacing a snapshot\<close>

text \<open>
  The gateway controller is an interface: \<^verbatim>\<open>Reconcile\<close> hands it the snapshot. The second component of
  the results below tells whether that call was made.
\<close>

definition initKubernetesGateways ::
    "('x, 'g) Environment \<Rightarrow> 'g ConfigSnapshot \<Rightarrow> 'g ConfigSnapshot \<times> bool" where
  "initKubernetesGateways env ps =
     (case env_GatewayAPIController env of None \<Rightarrow> (ps, False)
      | Some c \<Rightarrow> (ps\<lparr>cs_GatewayAPIController := Some c\<rparr>, True))"

definition init_authentication ::
    "orders \<Rightarrow> ('x, 'g) Environment \<Rightarrow> 'g ConfigSnapshot \<Rightarrow> panic + 'g ConfigSnapshot" where
  "init_authentication ord env ps =
     map_sum id (\<lambda>policies. ps\<lparr>cs_AuthenticationPolicies := Some policies\<rparr>)
       (initAuthenticationPolicies (or_md5 ord)
         (case env_Mesh env of None \<Rightarrow> [] | Some mesh \<Rightarrow> mesh_RootNamespace mesh) (env_List env))"

definition createNewContext ::
    "orders \<Rightarrow> ('x, 'g) Environment \<Rightarrow> 'g ConfigSnapshot \<Rightarrow> panic + ('g ConfigSnapshot \<times> bool)" where
  "createNewContext ord env ps =
     bind_panic (initServiceRegistry ord env ps) (\<lambda>ps.
     case initKubernetesGateways env ps of (ps, reconciled) \<Rightarrow>
     bind_panic (initHTTPRoutes env ps) (\<lambda>ps.
     let ps = initFaultInjectionPolicies env (initBackendTLSPolicies env ps) in
     bind_panic (init_authentication ord env ps) (\<lambda>ps. Inr (ps, reconciled))))"

definition authPolicyKindsChanged :: "ConfigKey gset \<Rightarrow> bool" where
  "authPolicyKindsChanged configs \<longleftrightarrow>
     HasConfigsOfKind configs KindPeerAuthentication \<or> HasConfigsOfKind configs KindRequestAuthentication \<or>
     HasConfigsOfKind configs KindAuthorizationPolicy"

definition services_in_change :: "ConfigChange \<Rightarrow> bool" where
  "services_in_change change \<longleftrightarrow>
     Len (cc_AddressesUpdated change) > 0 \<or> HasConfigsOfKind (cc_ConfigsUpdated change) KindService \<or>
     HasConfigsOfKind (cc_ConfigsUpdated change) KindServiceEntry"

definition indexed_services :: "'g ConfigSnapshot \<Rightarrow> nat" where
  "indexed_services ps = (let m = si_HostnameAndNamespace (cs_ServiceIndex ps)
     in \<Sum>h \<in> fset (fmdom m). fm_len (at_or_empty m h))"

definition updateContext ::
    "orders \<Rightarrow> ('x, 'g) Environment \<Rightarrow> 'g ConfigSnapshot \<Rightarrow> 'g ConfigSnapshot \<Rightarrow> ConfigChange \<Rightarrow>
       panic + ('g ConfigSnapshot \<times> bool)" where
  "updateContext ord env ps old change =
     (let servicesChanged = (services_in_change change \<or> length (env_Services env) \<noteq> indexed_services old);
          kind_changed = HasConfigsOfKind (cc_ConfigsUpdated change) in
      bind_panic
        (if servicesChanged then initServiceRegistry ord env ps
         else Inr (ps\<lparr>cs_ServiceIndex := cs_ServiceIndex old, cs_serviceAccounts := cs_serviceAccounts old\<rparr>)) (\<lambda>ps.
      case (if servicesChanged then initKubernetesGateways env ps
            else (ps\<lparr>cs_GatewayAPIController := cs_GatewayAPIController old\<rparr>, False)) of (ps, reconciled) \<Rightarrow>
      bind_panic
        (if kind_changed KindHTTPRoute then initHTTPRoutes env ps
         else Inr (ps\<lparr>cs_hostToRoutes := cs_hostToRoutes old\<rparr>)) (\<lambda>ps.
      let ps = (if kind_changed KindBackendTLSPolicy then initBackendTLSPolicies env ps
                else ps\<lparr>cs_serviceTLS := cs_serviceTLS old\<rparr>);
          ps = (if kind_changed KindFaultInjectionPolicy then initFaultInjectionPolicies env ps
                else ps\<lparr>cs_serviceFaults := cs_serviceFaults old\<rparr>);
          authnPoliciesChanged = (cc_Full change \<or> authPolicyKindsChanged (cc_ConfigsUpdated change)) in
      bind_panic
        (if authnPoliciesChanged \<or> cs_AuthenticationPolicies old = None then init_authentication ord env ps
         else Inr (ps\<lparr>cs_AuthenticationPolicies := cs_AuthenticationPolicies old\<rparr>)) (\<lambda>ps.
      Inr (ps, reconciled)))))"

definition Initialize ::
    "orders \<Rightarrow> 'g ConfigSnapshot \<Rightarrow> ('x, 'g) Environment \<Rightarrow> 'g ConfigSnapshot option \<Rightarrow> ConfigChange option \<Rightarrow>
       panic + ('g ConfigSnapshot \<times> bool)" where
  "Initialize ord ps env oldSnapshot change =
     (if cs_InitDone ps then Inr (ps, False)
      else bind_panic (initDefaultExportMaps (ps\<lparr>cs_Mesh := env_Mesh env\<rparr>)) (\<lambda>ps.
        map_sum id (apfst (\<lambda>ps. ps\<lparr>cs_InitDone := True\<rparr>))
          (case (oldSnapshot, change) of
             (Some old, Some change) \<Rightarrow>
               if \<not> cs_InitDone old \<or> cc_Forced change then createNewContext ord env ps
               else updateContext ord env ps old change
           | _ \<Rightarrow> createNewContext ord env ps)))"

text \<open>Handlers registered with the environment are called with the change after the snapshot is published.\<close>

definition ReconcileConfig ::
    "orders \<Rightarrow> ('x, 'g) Environment \<Rightarrow> ConfigChange option \<Rightarrow> panic + ('x, 'g) Environment" where
  "ReconcileConfig ord env change =
     map_sum id (\<lambda>(current, reconciled). env\<lparr>env_configSnapshot := Some current\<rparr>)
       (Initialize ord NewConfigSnapshot env (env_configSnapshot env) change)"

definition PushContext_InitContext ::
    "orders \<Rightarrow> ('x, 'g) Environment \<Rightarrow> panic + ('x, 'g) Environment" where
  "PushContext_InitContext ord env =
     (case env_configSnapshot env of None \<Rightarrow> Inl NilDeref
      | Some ps \<Rightarrow> map_sum id (\<lambda>(ps, reconciled). env\<lparr>env_configSnapshot := Some ps\<rparr>)
          (Initialize ord ps env None None))"

definition InboundMTLSModeForProxy ::
    "'g ConfigSnapshot option \<Rightarrow> ('r, 'p) Proxy option \<Rightarrow> 32 word \<Rightarrow> panic + MutualTLSMode" where
  "InboundMTLSModeForProxy ps proxy port =
     (case (ps, proxy) of
        (Some ps, Some proxy) \<Rightarrow>
          (if cs_AuthenticationPolicies ps = None then Inr MTLSUnknown
           else let namespace = (case px_Metadata proxy of None \<Rightarrow> [] | Some m \<Rightarrow> nm_Namespace m);
                    namespace = (if namespace = [] then px_ConfigNamespace proxy else namespace)
                in EffectiveMutualTLSMode (cs_AuthenticationPolicies ps) namespace fmempty port)
      | _ \<Rightarrow> Inr MTLSUnknown)"

section \<open>The parts of a snapshot\<close>

text \<open>The index of instances by port is written but never read.\<close>

definition strip :: "serviceIndex \<Rightarrow> serviceIndex" where
  "strip si = si\<lparr>si_instancesByPort := fmempty\<rparr>"

definition served :: "'g ConfigSnapshot \<Rightarrow> 'g ConfigSnapshot" where
  "served ps = ps\<lparr>cs_ServiceIndex := strip (cs_ServiceIndex ps)\<rparr>"

lemma strip_index_instances: "strip (index_instances rng index s portMap ports si) = strip si"
  by (simp add: index_instances_def strip_def Let_def)

lemma strip_index_hostname: "strip (index_hostname s si) = index_hostname s (strip si)"
  by (simp add: index_hostname_def strip_def Let_def)

lemma strip_export_one: "strip (export_one s e si) = export_one s e (strip si)"
  by (simp add: export_one_def strip_def Let_def)

lemma strip_export: "strip (fold (export_one s) es si) = fold (export_one s) es (strip si)"
  by (induction es arbitrary: si) (simp_all add: strip_export_one)

lemma strip_index_visibility: "strip (index_visibility d s si) = index_visibility d s (strip si)"
  by (simp add: index_visibility_def Let_def strip_export) (simp add: strip_def)

lemma index_service_strip:
  "strip si = strip si' \<Longrightarrow>
     map_sum id strip (index_service ord index d s si) = map_sum id strip (index_service ord index' d s si')"
  by (simp add: index_service_def strip_index_visibility strip_index_hostname strip_index_instances
      split: sum.splits prod.splits)

lemma index_services_strip:
  "strip si = strip si' \<Longrightarrow>
     map_sum id strip (index_services ord index d ss si) = map_sum id strip (index_services ord index' d ss si')"
proof (induction ss arbitrary: si si')
  case (Cons s ss)
  have "map_sum id strip (index_service ord index d s si) = map_sum id strip (index_service ord index' d s si')"
    by (rule index_service_strip [OF Cons.prems])
  then show ?case
    using Cons.IH
    by (cases "index_service ord index d s si"; cases "index_service ord index' d s si'") simp_all
qed simp

text \<open>What the registries contribute: the service index and the service accounts.\<close>

definition account_lists ::
    "'x EndpointIndex \<Rightarrow> MeshConfig \<Rightarrow> Service list \<Rightarrow> (host_name \<times> string, string list) fmap" where
  "account_lists index mesh services =
     fold (\<lambda>svc. fmupd (svc_Hostname svc, sa_Namespace (svc_Attributes svc))
        (sorted_list_of_fset (elems (ExpandWithTrustDomains (accounts_of index svc) (mesh_TrustDomainAliases mesh)))))
      services fmempty"

definition sorted_services :: "orders \<Rightarrow> ('x, 'g) Environment \<Rightarrow> Service list" where
  "sorted_services ord env =
     resolveServiceAliases (or_aliases ord) (SortServicesByCreationTime (env_Services env))"

definition default_exports :: "MeshConfig \<Rightarrow> string gset" where
  "default_exports mesh = (case mesh_DefaultServiceExportTo mesh of
     Some es \<Rightarrow> Some (fset_of_list es) | None \<Rightarrow> Some {|Public|})"

definition fresh :: "MeshConfig \<Rightarrow> 'g ConfigSnapshot" where
  "fresh mesh = NewConfigSnapshot\<lparr>cs_Mesh := Some mesh, cs_exportToDefaults := default_exports mesh\<rparr>"

definition registry ::
    "orders \<Rightarrow> ('x, 'g) Environment \<Rightarrow> MeshConfig \<Rightarrow> panic + (serviceIndex \<times> (host_name \<times> string, string list) fmap)" where
  "registry ord env mesh =
     map_sum id (\<lambda>si. (si, account_lists (env_EndpointIndex env) mesh (sorted_services ord env)))
       (index_services ord (env_EndpointIndex env) (default_exports mesh) (sorted_services ord env) newServiceIndex)"

lemma fresh_fields [simp]:
  "cs_Mesh (fresh mesh) = Some mesh" "cs_InitDone (fresh mesh) = False"
  "cs_GatewayAPIController (fresh mesh) = None" "cs_exportToDefaults (fresh mesh) = default_exports mesh"
  "cs_ServiceIndex (fresh mesh) = newServiceIndex" "cs_serviceAccounts (fresh mesh) = fmempty"
  by (simp_all add: fresh_def NewConfigSnapshot_def)

lemma registry_eq:
  "initServiceRegistry ord env (fresh mesh) =
     map_sum id (\<lambda>(si, accounts). (fresh mesh)\<lparr>cs_ServiceIndex := si, cs_serviceAccounts := accounts\<rparr>)
       (registry ord env mesh)"
proof -
  have "fresh mesh = (fresh mesh :: 'b ConfigSnapshot)\<lparr>cs_serviceAccounts := fmempty\<rparr>"
    by (simp add: fresh_def NewConfigSnapshot_def)
  then show ?thesis
    by (cases "index_services ord (env_EndpointIndex env) (default_exports mesh) (sorted_services ord env) newServiceIndex")
      (auto simp: initServiceRegistry_def registry_def sorted_services_def [symmetric] initServiceAccounts_def
        account_lists_def Let_def)
qed

text \<open>A snapshot from its parts; \<open>build\<close> and \<open>update\<close> differ in where the parts come from.\<close>

definition assemble ::
    "MeshConfig \<Rightarrow> 'g option \<Rightarrow> serviceIndex \<times> (host_name \<times> string, string list) fmap \<Rightarrow>
       (host_name, Config list) fmap \<Rightarrow> (string, BackendTLSSettings) fmap \<Rightarrow>
       (string, FaultInjectionSettings) fmap \<Rightarrow> AuthenticationPolicies \<Rightarrow> 'g ConfigSnapshot" where
  "assemble mesh gateway services routes tls faults authn =
     \<lparr>cs_Mesh = Some mesh, cs_InitDone = True, cs_GatewayAPIController = gateway,
      cs_exportToDefaults = default_exports mesh, cs_ServiceIndex = fst services, cs_hostToRoutes = routes,
      cs_serviceTLS = tls, cs_serviceFaults = faults, cs_serviceAccounts = snd services,
      cs_AuthenticationPolicies = Some authn\<rparr>"

definition tls_index :: "('x, 'g) Environment \<Rightarrow> (string, BackendTLSSettings) fmap" where
  "tls_index env = fold index_backend_tls (sortConfigByCreationTime (env_List env KindBackendTLSPolicy)) fmempty"

definition fault_index :: "('x, 'g) Environment \<Rightarrow> (string, FaultInjectionSettings) fmap" where
  "fault_index env = fold index_faults (sortConfigByCreationTime (env_List env KindFaultInjectionPolicy)) fmempty"

definition authn_index :: "orders \<Rightarrow> ('x, 'g) Environment \<Rightarrow> MeshConfig \<Rightarrow> panic + AuthenticationPolicies" where
  "authn_index ord env mesh = initAuthenticationPolicies (or_md5 ord) (mesh_RootNamespace mesh) (env_List env)"

lemma assemble_fresh:
  "assemble mesh gateway services routes tls faults authn =
     (fresh mesh)\<lparr>cs_InitDone := True, cs_GatewayAPIController := gateway, cs_ServiceIndex := fst services,
       cs_hostToRoutes := routes, cs_serviceTLS := tls, cs_serviceFaults := faults,
       cs_serviceAccounts := snd services, cs_AuthenticationPolicies := Some authn\<rparr>"
  by (simp add: assemble_def fresh_def NewConfigSnapshot_def)

lemma build_eq:
  assumes "env_Mesh env = Some mesh"
  shows "map_sum id fst (Initialize ord NewConfigSnapshot env None None) =
    bind_panic (registry ord env mesh) (\<lambda>services.
    bind_panic (index_routes (env_List env KindHTTPRoute) fmempty) (\<lambda>routes.
    bind_panic (authn_index ord env mesh) (\<lambda>authn.
    Inr (assemble mesh (env_GatewayAPIController env) services routes (tls_index env) (fault_index env) authn))))"
proof -
  have start: "initDefaultExportMaps (NewConfigSnapshot\<lparr>cs_Mesh := env_Mesh env\<rparr>) = Inr (fresh mesh)"
    by (simp add: initDefaultExportMaps_def assms fresh_def default_exports_def NewConfigSnapshot_def)
  have new: "\<not> cs_InitDone NewConfigSnapshot" by (simp add: NewConfigSnapshot_def)
  show ?thesis
    unfolding Initialize_def start createNewContext_def
    by (cases "registry ord env mesh"; cases "index_routes (env_List env KindHTTPRoute) fmempty";
        cases "authn_index ord env mesh"; cases "env_GatewayAPIController env")
      (auto simp: new registry_eq initKubernetesGateways_def initHTTPRoutes_def initBackendTLSPolicies_def
        initFaultInjectionPolicies_def init_authentication_def authn_index_def assms tls_index_def
        fault_index_def Let_def assemble_fresh)
qed

lemma update_eq:
  fixes old :: "'g ConfigSnapshot"
  assumes "env_Mesh env = Some mesh" "cs_InitDone old" "\<not> cc_Forced change"
    and old: "old = assemble mesh0 gateway0 services0 routes0 tls0 faults0 authn0"
  shows "map_sum id fst (Initialize ord NewConfigSnapshot env (Some old) (Some change)) =
    (let changed = HasConfigsOfKind (cc_ConfigsUpdated change);
         servicesChanged = (services_in_change change \<or> length (env_Services env) \<noteq> indexed_services old) in
     bind_panic (if servicesChanged then registry ord env mesh else Inr services0) (\<lambda>services.
     bind_panic (if changed KindHTTPRoute then index_routes (env_List env KindHTTPRoute) fmempty else Inr routes0) (\<lambda>routes.
     bind_panic (if cc_Full change \<or> authPolicyKindsChanged (cc_ConfigsUpdated change)
       then authn_index ord env mesh else Inr authn0) (\<lambda>authn.
     Inr (assemble mesh (if servicesChanged then env_GatewayAPIController env else gateway0) services routes
       (if changed KindBackendTLSPolicy then tls_index env else tls0)
       (if changed KindFaultInjectionPolicy then fault_index env else faults0) authn)))))"
proof -
  have start: "initDefaultExportMaps (NewConfigSnapshot\<lparr>cs_Mesh := env_Mesh env\<rparr>) = Inr (fresh mesh)"
    by (simp add: initDefaultExportMaps_def assms fresh_def default_exports_def NewConfigSnapshot_def)
  have new: "\<not> cs_InitDone NewConfigSnapshot" by (simp add: NewConfigSnapshot_def)
  have fields: "cs_ServiceIndex old = fst services0" "cs_serviceAccounts old = snd services0"
    "cs_GatewayAPIController old = gateway0" "cs_hostToRoutes old = routes0" "cs_serviceTLS old = tls0"
    "cs_serviceFaults old = faults0" "cs_AuthenticationPolicies old = Some authn0"
    by (simp_all add: old assemble_def)
  show ?thesis
    using assms(2,3)
    unfolding Initialize_def start updateContext_def
    by (cases "registry ord env mesh"; cases "index_routes (env_List env KindHTTPRoute) fmempty";
        cases "authn_index ord env mesh"; cases "env_GatewayAPIController env")
      (auto simp: new registry_eq fields initKubernetesGateways_def initHTTPRoutes_def initBackendTLSPolicies_def
        initFaultInjectionPolicies_def init_authentication_def authn_index_def assms(1) tls_index_def
        fault_index_def Let_def assemble_fresh)
qed

section \<open>Updating agrees with building from scratch\<close>

text \<open>
  A change covers the step from one state of the environment to the next when everything that it
  does not name is unchanged. Mesh settings are only replaced by forced changes, and endpoints may
  always change as long as the service accounts stay.
\<close>

definition same_accounts :: "'x EndpointIndex \<Rightarrow> 'x EndpointIndex \<Rightarrow> bool" where
  "same_accounts a b \<longleftrightarrow> (\<forall>h ns. map_option es_ServiceAccounts (ShardsForService a h ns) =
     map_option es_ServiceAccounts (ShardsForService b h ns))"

definition covers :: "ConfigChange \<Rightarrow> ('x, 'g) Environment \<Rightarrow> ('x, 'g) Environment \<Rightarrow> bool" where
  "covers change env env' \<longleftrightarrow> cc_Forced change \<or>
     env_Mesh env' = env_Mesh env \<and>
     (\<not> services_in_change change \<longrightarrow> env_Services env' = env_Services env \<and>
        same_accounts (env_EndpointIndex env') (env_EndpointIndex env) \<and>
        env_GatewayAPIController env' = env_GatewayAPIController env) \<and>
     (\<forall>k \<in> {KindHTTPRoute, KindBackendTLSPolicy, KindFaultInjectionPolicy}.
        \<not> HasConfigsOfKind (cc_ConfigsUpdated change) k \<longrightarrow> env_List env' k = env_List env k) \<and>
     (\<not> cc_Full change \<and> \<not> authPolicyKindsChanged (cc_ConfigsUpdated change) \<longrightarrow>
        (\<forall>k \<in> {KindPeerAuthentication, KindRequestAuthentication, KindAuthorizationPolicy}.
           env_List env' k = env_List env k))"

definition from_scratch :: "orders \<Rightarrow> ('x, 'g) Environment \<Rightarrow> panic + 'g ConfigSnapshot" where
  "from_scratch ord env = map_sum id (served \<circ> fst) (Initialize ord NewConfigSnapshot env None None)"

lemma accounts_of_same: "same_accounts a b \<Longrightarrow> accounts_of a svc = accounts_of b svc"
  unfolding accounts_of_def same_accounts_def Let_def
  by (drule spec [of _ "svc_Hostname svc"], drule spec [of _ "sa_Namespace (svc_Attributes svc)"])
    (auto split: option.splits)

definition stripped ::
    "serviceIndex \<times> (host_name \<times> string, string list) fmap \<Rightarrow> serviceIndex \<times> (host_name \<times> string, string list) fmap" where
  "stripped = apfst strip"

lemma registry_same:
  assumes "env_Services env' = env_Services env"
    and "same_accounts (env_EndpointIndex env') (env_EndpointIndex env)"
  shows "map_sum id stripped (registry ord env' mesh) = map_sum id stripped (registry ord env mesh)"
proof -
  have s: "sorted_services ord env' = sorted_services ord env"
    by (simp add: sorted_services_def assms(1))
  have a: "account_lists (env_EndpointIndex env') mesh ss = account_lists (env_EndpointIndex env) mesh ss" for ss
    using accounts_of_same [OF assms(2)] by (simp add: account_lists_def)
  let ?i = "\<lambda>index. index_services ord index (default_exports mesh) (sorted_services ord env) newServiceIndex"
  have "map_sum id strip (?i (env_EndpointIndex env')) = map_sum id strip (?i (env_EndpointIndex env))"
    by (rule index_services_strip) simp
  then show ?thesis
    unfolding registry_def stripped_def s a
    by (cases "?i (env_EndpointIndex env')"; cases "?i (env_EndpointIndex env)") simp_all
qed

lemma served_assemble:
  "served (assemble mesh gateway services routes tls faults authn) =
     assemble mesh gateway (stripped services) routes tls faults authn"
  by (cases services) (simp add: served_def assemble_def stripped_def)

lemma initAuthenticationPolicies_cong:
  assumes "\<forall>k \<in> {KindPeerAuthentication, KindRequestAuthentication, KindAuthorizationPolicy}. l k = l' k"
  shows "initAuthenticationPolicies md5 root l = initAuthenticationPolicies md5 root l'"
  using assms by (simp add: initAuthenticationPolicies_def)

lemma from_scratch_eq:
  assumes "env_Mesh env = Some mesh"
  shows "from_scratch ord env =
    bind_panic (map_sum id stripped (registry ord env mesh)) (\<lambda>services.
    bind_panic (index_routes (env_List env KindHTTPRoute) fmempty) (\<lambda>routes.
    bind_panic (authn_index ord env mesh) (\<lambda>authn.
    Inr (assemble mesh (env_GatewayAPIController env) services routes (tls_index env) (fault_index env) authn))))"
proof -
  have "from_scratch ord env =
      map_sum id served (map_sum id fst (Initialize ord NewConfigSnapshot env None None))"
    by (simp add: from_scratch_def sum.map_comp)
  then show ?thesis
    unfolding build_eq [OF assms] by (simp add: map_bind_panic bind_map_panic served_assemble)
qed

lemma from_scratch_mesh: "from_scratch ord env = Inr ps \<Longrightarrow> env_Mesh env \<noteq> None"
  by (cases "env_Mesh env") (auto simp: from_scratch_def Initialize_def initDefaultExportMaps_def NewConfigSnapshot_def)

lemma indexed_services_served: "indexed_services (served ps) = indexed_services ps"
  by (simp add: indexed_services_def served_def strip_def)

lemma updating_is_building:
  fixes old :: "'g ConfigSnapshot"
  assumes old: "from_scratch ord env = Inr (served old)" and covers: "covers change env env'"
    and unforced: "\<not> cc_Forced change"
  shows "map_sum id (served \<circ> fst) (Initialize ord NewConfigSnapshot env' (Some old) (Some change)) =
    from_scratch ord env'"
proof -
  obtain mesh where mesh: "env_Mesh env = Some mesh" using from_scratch_mesh [OF old] by auto
  then have mesh': "env_Mesh env' = Some mesh" using covers unforced by (simp add: covers_def)
  obtain services routes authn where parts: "map_sum id stripped (registry ord env mesh) = Inr services"
    "index_routes (env_List env KindHTTPRoute) fmempty = Inr routes" "authn_index ord env mesh = Inr authn"
    and served_old: "served old = assemble mesh (env_GatewayAPIController env) services routes (tls_index env) (fault_index env) authn"
    using old unfolding from_scratch_eq [OF mesh] by (auto simp: bind_panic_Inr)
  have old_eq: "old = assemble mesh (env_GatewayAPIController env) (cs_ServiceIndex old, snd services) routes
      (tls_index env) (fault_index env) authn"
    and index: "strip (cs_ServiceIndex old) = fst services"
    using served_old by (cases old, simp add: served_def assemble_def)+
  have services: "stripped (cs_ServiceIndex old, snd services) = services"
    using index by (cases services) (simp add: stripped_def)
  let ?new = "Initialize ord NewConfigSnapshot env' (Some old) (Some change)"
  have new: "map_sum id (served \<circ> fst) ?new = map_sum id served (map_sum id fst ?new)"
    by (simp add: sum.map_comp)
  have init: "cs_InitDone old" by (subst old_eq) (simp add: assemble_def)
  have reg: "\<not> services_in_change change \<Longrightarrow> \<exists>x. registry ord env' mesh = Inr x \<and> stripped x = services"
    using registry_same [of env' env ord mesh] covers unforced parts(1)
    by (cases "registry ord env' mesh") (auto simp: covers_def)
  have gw: "\<not> services_in_change change \<Longrightarrow> env_GatewayAPIController env = env_GatewayAPIController env'"
    using covers unforced by (simp add: covers_def)
  have routes: "\<not> HasConfigsOfKind (cc_ConfigsUpdated change) KindHTTPRoute \<Longrightarrow>
      index_routes (env_List env' KindHTTPRoute) fmempty = Inr routes"
    and tls: "\<not> HasConfigsOfKind (cc_ConfigsUpdated change) KindBackendTLSPolicy \<Longrightarrow> tls_index env = tls_index env'"
    and faults: "\<not> HasConfigsOfKind (cc_ConfigsUpdated change) KindFaultInjectionPolicy \<Longrightarrow> fault_index env = fault_index env'"
    using covers unforced parts(2) by (simp_all add: covers_def tls_index_def fault_index_def)
  have authn: "\<not> (cc_Full change \<or> authPolicyKindsChanged (cc_ConfigsUpdated change)) \<Longrightarrow>
      authn_index ord env' mesh = Inr authn"
    using covers unforced parts(3) initAuthenticationPolicies_cong [of "env_List env'" "env_List env"]
    by (simp add: covers_def authn_index_def)
  show ?thesis
    unfolding from_scratch_eq [OF mesh'] new update_eq [OF mesh' init unforced old_eq] Let_def
    using reg gw routes tls faults authn services
    by (auto simp: map_bind_panic bind_map_panic served_assemble)
qed

text \<open>
  The environments a control plane goes through: snapshots are reconciled with a change, and opening
  a stream builds the first snapshot when none was built before. Between two steps the environment
  may change, but when a snapshot is updated the change covers what happened since the last one.
\<close>

definition initialized :: "('x, 'g) Environment \<Rightarrow> bool" where
  "initialized env \<longleftrightarrow> (\<exists>ps. env_configSnapshot env = Some ps \<and> cs_InitDone ps)"

inductive reconciled :: "orders \<Rightarrow> ('x, 'g) Environment \<Rightarrow> bool" for ord where
  start: "env_configSnapshot env = Some NewConfigSnapshot \<Longrightarrow> reconciled ord env"
| reconcile:
    "reconciled ord env \<Longrightarrow> env_configSnapshot env' = env_configSnapshot env \<Longrightarrow>
     (initialized env \<Longrightarrow> covers change env env') \<Longrightarrow>
     ReconcileConfig ord env' (Some change) = Inr env'' \<Longrightarrow> reconciled ord env''"
| open_stream:
    "reconciled ord env \<Longrightarrow> env_configSnapshot env' = env_configSnapshot env \<Longrightarrow>
     (initialized env \<Longrightarrow> env' = env) \<Longrightarrow>
     PushContext_InitContext ord env' = Inr env'' \<Longrightarrow> reconciled ord env''"

lemma from_scratch_snapshot: "from_scratch ord (env\<lparr>env_configSnapshot := ps\<rparr>) = from_scratch ord env"
proof (cases "env_Mesh env")
  case None
  then show ?thesis
    by (simp add: from_scratch_def Initialize_def initDefaultExportMaps_def NewConfigSnapshot_def)
next
  case (Some mesh)
  then have "env_Mesh (env\<lparr>env_configSnapshot := ps\<rparr>) = Some mesh" by simp
  then show ?thesis
    by (simp add: from_scratch_eq Some registry_def sorted_services_def authn_index_def tls_index_def fault_index_def)
qed

lemma from_scratch_done: "from_scratch ord env = Inr (served ps) \<Longrightarrow> cs_InitDone ps"
proof -
  assume *: "from_scratch ord env = Inr (served ps)"
  obtain mesh where mesh: "env_Mesh env = Some mesh" using from_scratch_mesh [OF *] by auto
  have "cs_InitDone (served ps)"
    using * unfolding from_scratch_eq [OF mesh]
    by (auto simp: bind_panic_Inr assemble_def dest!: sym [of _ "served ps"])
  then show ?thesis by (simp add: served_def)
qed

lemma Initialize_not_done:
  "\<not> cs_InitDone old \<Longrightarrow> Initialize ord NewConfigSnapshot env (Some old) change = Initialize ord NewConfigSnapshot env None None"
  by (cases change) (simp_all add: Initialize_def)

lemma Initialize_forced:
  "cc_Forced change \<Longrightarrow> Initialize ord NewConfigSnapshot env (Some old) (Some change) =
     Initialize ord NewConfigSnapshot env None None"
  by (simp add: Initialize_def)

lemma initialize_from_scratch:
  assumes "\<not> cs_InitDone old \<or> cc_Forced change \<or> from_scratch ord env = Inr (served old) \<and> covers change env env'"
  shows "map_sum id (served \<circ> fst) (Initialize ord NewConfigSnapshot env' (Some old) (Some change)) =
    from_scratch ord env'"
  using assms updating_is_building [of ord env old change env']
  by (cases "cs_InitDone old"; cases "cc_Forced change")
    (auto simp: from_scratch_def Initialize_not_done Initialize_forced)

lemma reconcile_from_scratch:
  assumes "ReconcileConfig ord env' (Some change) = Inr env''" and "env_configSnapshot env' = Some old"
    and "\<not> cs_InitDone old \<or> cc_Forced change \<or> from_scratch ord env = Inr (served old) \<and> covers change env env'"
  shows "\<exists>ps. env_configSnapshot env'' = Some ps \<and> from_scratch ord env'' = Inr (served ps)"
proof -
  obtain current r where init: "Initialize ord NewConfigSnapshot env' (Some old) (Some change) = Inr (current, r)"
    and env'': "env'' = env'\<lparr>env_configSnapshot := Some current\<rparr>"
    using assms(1,2)
    by (cases "Initialize ord NewConfigSnapshot env' (Some old) (Some change)") (auto simp: ReconcileConfig_def)
  then show ?thesis using init initialize_from_scratch [OF assms(3)] by (simp add: env'' from_scratch_snapshot)
qed

lemma reconcile_returns:
  assumes "from_scratch ord env' = Inr built" and "env_configSnapshot env' = Some old"
    and "\<not> cs_InitDone old \<or> cc_Forced change \<or> from_scratch ord env = Inr (served old) \<and> covers change env env'"
  shows "\<exists>ps. ReconcileConfig ord env' (Some change) = Inr (env'\<lparr>env_configSnapshot := Some ps\<rparr>) \<and> served ps = built"
proof -
  have "map_sum id (served \<circ> fst) (Initialize ord NewConfigSnapshot env' (Some old) (Some change)) = Inr built"
    using initialize_from_scratch [OF assms(3)] assms(1) by simp
  then show ?thesis
    by (cases "Initialize ord NewConfigSnapshot env' (Some old) (Some change)")
      (auto simp: ReconcileConfig_def assms(2))
qed

lemma reconciled_inv:
  assumes "reconciled ord env"
  shows "env_configSnapshot env = Some NewConfigSnapshot \<or>
    (\<exists>ps. env_configSnapshot env = Some ps \<and> from_scratch ord env = Inr (served ps))"
  using assms
proof induction
  case (reconcile env env' change env'')
  then obtain old where old: "env_configSnapshot env = Some old"
    and "\<not> cs_InitDone old \<or> from_scratch ord env = Inr (served old)"
    by (auto simp: NewConfigSnapshot_def)
  then have "\<not> cs_InitDone old \<or> cc_Forced change \<or> from_scratch ord env = Inr (served old) \<and> covers change env env'"
    using reconcile.hyps by (auto simp: initialized_def)
  then show ?case
    using reconcile_from_scratch [OF reconcile.hyps(4), of old env] old reconcile.hyps(2) by simp
next
  case (open_stream env env' env'')
  obtain old where old: "env_configSnapshot env = Some old" using open_stream.IH by blast
  show ?case
  proof (cases "cs_InitDone old")
    case True
    then have "env'' = env"
      using open_stream.hyps old by (auto simp: initialized_def PushContext_InitContext_def Initialize_def)
    then show ?thesis using open_stream.IH by simp
  next
    case False
    then have "old = NewConfigSnapshot"
      using open_stream.IH old from_scratch_done by auto
    then obtain ps r where init: "Initialize ord NewConfigSnapshot env' None None = Inr (ps, r)"
      and env'': "env'' = env'\<lparr>env_configSnapshot := Some ps\<rparr>"
      using open_stream.hyps old
      by (cases "Initialize ord NewConfigSnapshot env' None None") (auto simp: PushContext_InitContext_def)
    then show ?thesis by (simp add: env'' from_scratch_snapshot) (simp add: from_scratch_def)
  qed
qed simp

section \<open>Aliases\<close>

text \<open>\<open>refers services a b\<close>: the services make the name \<open>a\<close> an alias of the name \<open>b\<close>.\<close>

definition refers :: "Service list \<Rightarrow> host_name \<Rightarrow> host_name \<Rightarrow> bool" where
  "refers services a b \<longleftrightarrow> (\<exists>s \<in> set services. svc_Resolution s = Alias \<and> svc_Hostname s = a \<and>
     k8s_ExternalName (sa_K8sAttributes (svc_Attributes s)) = b)"

definition alias_name :: "Service \<Rightarrow> NamespacedHostname" where
  "alias_name s = \<lparr>nh_Hostname = svc_Hostname s, nh_Namespace = sa_Namespace (svc_Attributes s)\<rparr>"

lemma alias_name_hostname: "nh_Hostname (alias_name s) = svc_Hostname s"
  by (simp add: alias_name_def)

definition external_name :: "Service \<Rightarrow> host_name" where
  "external_name s = k8s_ExternalName (sa_K8sAttributes (svc_Attributes s))"

definition alias_services :: "Service list \<Rightarrow> Service list" where
  "alias_services services = filter (\<lambda>s. svc_Resolution s = Alias) services"

definition alias_step :: "(host_name, host_name) fmap \<Rightarrow> host_name \<Rightarrow> host_name \<Rightarrow> bool" where
  "alias_step m a b \<longleftrightarrow> fmlookup m a = Some b"

lemma alias_cycle:
  assumes "(alias_step m)\<^sup>+\<^sup>+ r r" and "(alias_step m)\<^sup>*\<^sup>* r c"
  shows "fmlookup m c \<noteq> None"
proof -
  have "(alias_step m)\<^sup>+\<^sup>+ c c"
    using assms(2,1)
  proof induction
    case (step y z)
    then obtain w where "alias_step m y w" "(alias_step m)\<^sup>*\<^sup>* w y" by (meson tranclpD)
    then have "(alias_step m)\<^sup>*\<^sup>* z y" using step.hyps(2) by (simp add: alias_step_def)
    then show ?case using step.hyps(2) by (rule rtranclp_into_tranclp1)
  qed
  then show ?thesis by (auto simp: alias_step_def dest: tranclpD)
qed

lemma follow_aliases_iff:
  assumes "\<forall>x \<in> fset seen. (alias_step m)\<^sup>*\<^sup>* x r"
  shows "follow_aliases m seen r = Some c \<longleftrightarrow> (alias_step m)\<^sup>*\<^sup>* r c \<and> fmlookup m c = None"
  using assms
proof (induction m seen r rule: follow_aliases.induct)
  case (1 m seen r)
  show ?case
  proof (cases "fmlookup m r")
    case None
    then have "(alias_step m)\<^sup>*\<^sup>* r c \<longleftrightarrow> c = r"
      by (auto simp: alias_step_def elim: converse_rtranclpE)
    then show ?thesis using None by (auto simp: follow_aliases.simps)
  next
    case (Some n)
    then have step: "alias_step m r n" by (simp add: alias_step_def)
    have split: "(alias_step m)\<^sup>*\<^sup>* r c \<and> fmlookup m c = None \<longleftrightarrow> (alias_step m)\<^sup>*\<^sup>* n c \<and> fmlookup m c = None"
      using Some step by (auto simp: alias_step_def elim: converse_rtranclpE intro: converse_rtranclp_into_rtranclp)
    show ?thesis
    proof (cases "n |\<in>| seen")
      case True
      then have "(alias_step m)\<^sup>+\<^sup>+ r r" using "1.prems" step by (auto intro: rtranclp_into_tranclp2)
      then show ?thesis using True Some alias_cycle [of m r c] by (auto simp: follow_aliases.simps)
    next
      case False
      have "\<forall>x \<in> fset (finsert n seen). (alias_step m)\<^sup>*\<^sup>* x n"
        using "1.prems" step by (auto intro: rtranclp.rtrancl_into_rtrancl)
      then show ?thesis using "1.IH" [OF Some False] False Some split by (simp add: follow_aliases.simps [of m seen r])
    qed
  qed
qed

lemma resolve_alias_iff:
  assumes "fmlookup m (nh_Hostname alias) = Some r"
  shows "resolve_alias m alias r = Some c \<longleftrightarrow> (alias_step m)\<^sup>*\<^sup>* r c \<and> fmlookup m c = None"
proof (cases "fmlookup m r")
  case None
  then show ?thesis by (auto simp: resolve_alias_def alias_step_def elim: converse_rtranclpE)
next
  case (Some n)
  have "\<forall>x \<in> fset {|nh_Hostname alias, r|}. (alias_step m)\<^sup>*\<^sup>* x r"
    using assms by (auto simp: alias_step_def)
  then show ?thesis using Some follow_aliases_iff [of "{|nh_Hostname alias, r|}" m r c]
    by (simp add: resolve_alias_def del: follow_aliases.simps)
qed

lemma raw_aliases_snoc:
  "raw_aliases (services @ [s]) =
     (if svc_Resolution s \<noteq> Alias then raw_aliases services
      else fmupd (alias_name s) (external_name s) (raw_aliases services))"
  by (simp add: raw_aliases_def alias_name_def external_name_def)

lemma raw_aliases_lookup:
  assumes "distinct (map svc_Hostname (alias_services services))"
  shows "fmlookup (raw_aliases services) k = Some r \<longleftrightarrow>
    (\<exists>s \<in> set (alias_services services). alias_name s = k \<and> external_name s = r)"
  using assms
proof (induction services rule: rev_induct)
  case Nil
  then show ?case by (simp add: raw_aliases_def alias_services_def)
next
  case (snoc s services)
  then show ?case
    by (force simp: raw_aliases_snoc alias_services_def alias_name_def)
qed

lemma unnamespaced_lookup:
  assumes "distinct (map svc_Hostname (alias_services services))"
    and "is_range ks (fmdom (raw_aliases services))"
  shows "fmlookup (unnamespaced ks (raw_aliases services)) h = Some r \<longleftrightarrow> refers services h r"
proof -
  let ?raw = "raw_aliases services"
  have *: "fmlookup (unnamespaced ks' ?raw) h = Some r \<longleftrightarrow> (\<exists>k \<in> set ks'. nh_Hostname k = h \<and> fmlookup ?raw k = Some r)"
    if "distinct (map nh_Hostname ks')" for ks'
    using that
  proof (induction ks' rule: rev_induct)
    case Nil
    then show ?case by (simp add: unnamespaced_def)
  next
    case (snoc k ks')
    have "unnamespaced (ks' @ [k]) ?raw =
        (case fmlookup ?raw k of None \<Rightarrow> unnamespaced ks' ?raw | Some v \<Rightarrow> fmupd (nh_Hostname k) v (unnamespaced ks' ?raw))"
      unfolding unnamespaced_def by simp
    then show ?case
      using snoc by (cases "fmlookup ?raw k"; cases "nh_Hostname k = h") (auto simp: rev_image_eqI)
  qed
  have keys: "set ks = fset (fmdom ?raw)" and "distinct ks"
    using assms(2) is_range_set is_range_distinct by blast+
  have names: "k \<in> set ks \<longleftrightarrow> (\<exists>s \<in> set (alias_services services). alias_name s = k)" for k
    using raw_aliases_lookup [OF assms(1), of k] by (auto simp: keys fmlookup_dom_iff)
  have "inj_on nh_Hostname (set ks)"
  proof (rule inj_onI)
    fix k k' assume "k \<in> set ks" "k' \<in> set ks" "nh_Hostname k = nh_Hostname k'"
    then obtain s s' where s: "s \<in> set (alias_services services)" "s' \<in> set (alias_services services)"
      "alias_name s = k" "alias_name s' = k'" "svc_Hostname s = svc_Hostname s'"
      unfolding names by (auto simp: alias_name_def)
    moreover have "s = s'" using s assms(1) by (auto simp: distinct_map inj_on_def)
    ultimately show "k = k'" by simp
  qed
  then have "distinct (map nh_Hostname ks)" using \<open>distinct ks\<close> by (simp add: distinct_map)
  then have "fmlookup (unnamespaced ks ?raw) h = Some r \<longleftrightarrow>
      (\<exists>k. nh_Hostname k = h \<and> fmlookup ?raw k = Some r)"
    using * by (auto simp: keys intro: fmdomI)
  also have "\<dots> \<longleftrightarrow> (\<exists>s \<in> set (alias_services services). svc_Hostname s = h \<and> external_name s = r)"
    unfolding raw_aliases_lookup [OF assms(1)] by (metis alias_name_hostname)
  finally show ?thesis by (auto simp: refers_def alias_services_def external_name_def)
qed

text \<open>The name at the end of a chain of aliases, which is not an alias itself.\<close>

definition resolves :: "Service list \<Rightarrow> host_name \<Rightarrow> host_name \<Rightarrow> bool" where
  "resolves services r c \<longleftrightarrow> (refers services)\<^sup>*\<^sup>* r c \<and> (\<forall>d. \<not> refers services c d)"

lemma fold_fmupd_filter:
  "fmlookup (fold (\<lambda>k m. case f k of None \<Rightarrow> m | Some v \<Rightarrow> fmupd k v m) ks m) k =
     (if k \<in> set ks \<and> f k \<noteq> None then f k else fmlookup m k)"
  by (induction ks arbitrary: m) (auto split: option.splits)

lemma resolved_aliases_lookup:
  assumes "distinct (map svc_Hostname (alias_services services))"
    and "is_range (rng (fmdom (raw_aliases services))) (fmdom (raw_aliases services))"
  shows "fmlookup (resolved_aliases rng services) k = Some c \<longleftrightarrow>
    (\<exists>a \<in> set (alias_services services). alias_name a = k \<and> resolves services (external_name a) c)"
proof -
  let ?raw = "raw_aliases services" and ?ks = "rng (fmdom (raw_aliases services))"
  let ?m = "unnamespaced ?ks ?raw"
  have keys: "set ?ks = fset (fmdom ?raw)" by (rule is_range_set [OF assms(2)])
  have m: "alias_step ?m = refers services"
    by (auto simp: fun_eq_iff alias_step_def unnamespaced_lookup [OF assms])
  have none: "fmlookup ?m x = None \<longleftrightarrow> (\<forall>d. \<not> refers services x d)" for x
    using unnamespaced_lookup [OF assms, of x] by (metis not_Some_eq)
  have body: "(\<lambda>alias res. case fmlookup ?raw alias of None \<Rightarrow> res
        | Some r \<Rightarrow> (case resolve_alias ?m alias r of None \<Rightarrow> res | Some c \<Rightarrow> fmupd alias c res)) =
      (\<lambda>alias res. case Option.bind (fmlookup ?raw alias) (resolve_alias ?m alias) of None \<Rightarrow> res
        | Some c \<Rightarrow> fmupd alias c res)"
    by (auto simp: fun_eq_iff split: option.splits)
  have "fmlookup (resolved_aliases rng services) k =
      (if k |\<in>| fmdom ?raw then Option.bind (fmlookup ?raw k) (resolve_alias ?m k) else None)"
    unfolding resolved_aliases_def Let_def body fold_fmupd_filter keys by auto
  then have "fmlookup (resolved_aliases rng services) k = Some c \<longleftrightarrow>
      (\<exists>r. fmlookup ?raw k = Some r \<and> resolve_alias ?m k r = Some c)"
    by (auto simp: bind_eq_Some_conv fmlookup_dom_iff)
  also have "\<dots> \<longleftrightarrow> (\<exists>r. fmlookup ?raw k = Some r \<and> resolves services r c)"
  proof -
    have "resolve_alias ?m k r = Some c \<longleftrightarrow> resolves services r c" if r: "fmlookup ?raw k = Some r" for r
    proof -
      have "refers services (nh_Hostname k) r"
        using r unfolding raw_aliases_lookup [OF assms(1)]
        by (auto simp: refers_def alias_services_def external_name_def alias_name_def)
      then have "fmlookup ?m (nh_Hostname k) = Some r" using unnamespaced_lookup [OF assms] by simp
      then show ?thesis by (simp add: resolve_alias_iff m none resolves_def)
    qed
    then show ?thesis by blast
  qed
  finally show ?thesis unfolding raw_aliases_lookup [OF assms(1)] by blast
qed

lemma slice_at_fold_append:
  "slice_at (fold (\<lambda>k m. case f k of None \<Rightarrow> m | Some c \<Rightarrow> append_at c k m) ks m) c =
     slice_at m c @ filter (\<lambda>k. f k = Some c) ks"
  by (induction ks arbitrary: m) (auto simp: slice_at_append_at split: option.splits)

lemma fold_append_None:
  "fmlookup (fold (\<lambda>k m. case f k of None \<Rightarrow> m | Some c \<Rightarrow> append_at c k m) ks m) c = None \<longleftrightarrow>
     fmlookup m c = None \<and> (\<forall>k \<in> set ks. f k \<noteq> Some c)"
  by (induction ks arbitrary: m) (auto simp: append_at_def split: option.splits)

lemma aliases_for_service_lookup:
  fixes resolved :: "(NamespacedHostname, host_name) fmap"
  assumes "is_range (rng (fmdom resolved)) (fmdom resolved)"
    and A: "A = {k. fmlookup resolved k = Some c}"
  shows "(if A = {} then fmlookup (aliases_for_service rng resolved) c = None
    else \<exists>as. fmlookup (aliases_for_service rng resolved) c = Some as \<and> set as = A \<and> distinct as \<and>
      sorted (map (\<lambda>a. (nh_Namespace a, nh_Hostname a)) as))"
proof -
  let ?ks = "rng (fmdom resolved)"
  let ?lists = "fold (\<lambda>k m. case fmlookup resolved k of None \<Rightarrow> m | Some c \<Rightarrow> append_at c k m) ?ks fmempty"
  have keys: "set ?ks = fset (fmdom resolved)" "distinct ?ks"
    using assms(1) is_range_set is_range_distinct by blast+
  have slice: "slice_at ?lists c = filter (\<lambda>k. fmlookup resolved k = Some c) ?ks"
    by (simp add: slice_at_fold_append) (simp add: slice_at_def)
  have "set (slice_at ?lists c) = A" "distinct (slice_at ?lists c)"
    using keys by (auto simp: slice A intro: fmdomI)
  moreover have "fmlookup ?lists c = None \<longleftrightarrow> A = {}"
    using keys by (auto simp: fold_append_None A intro: fmdomI)
  moreover have "fmlookup ?lists c = Some l \<Longrightarrow> slice_at ?lists c = l" for l by (simp add: slice_at_def)
  ultimately show ?thesis
    by (cases "fmlookup ?lists c") (simp_all add: aliases_for_service_def)
qed

lemma resolveServiceAliases_nth:
  assumes "i < length services"
  shows "resolveServiceAliases rng services ! i =
    (case fmlookup (aliases_for_service rng (resolved_aliases rng services)) (svc_Hostname (services ! i)) of
       None \<Rightarrow> services ! i
     | Some aliases \<Rightarrow> (services ! i)\<lparr>svc_Attributes := (svc_Attributes (services ! i))\<lparr>sa_Aliases := aliases\<rparr>\<rparr>)"
  using assms unfolding resolveServiceAliases_def Let_def Service_DeepCopy_id by simp

section \<open>Visibility\<close>

text \<open>The namespaces that may use a service.\<close>

definition visible :: "string gset \<Rightarrow> string \<Rightarrow> Service \<Rightarrow> bool" where
  "visible defaults ns s \<longleftrightarrow>
     (let own = sa_Namespace (svc_Attributes s); ExportTo = sa_ExportTo (svc_Attributes s) in
      if IsEmpty ExportTo
      then if Contains defaults Private then ns = own else Contains defaults Public
      else Contains ExportTo Public \<or>
        \<not> Contains ExportTo Invisible \<and> (Contains ExportTo ns \<or> Contains ExportTo Private \<and> ns = own))"

definition listed :: "serviceIndex \<Rightarrow> string \<Rightarrow> Service set" where
  "listed si ns = set (slice_at (si_privateByNamespace si) ns) \<union> set (slice_at (si_exportedToNamespace si) ns) \<union>
     set (si_public si)"

lemma listed_append:
  "listed (si\<lparr>si_privateByNamespace := append_at own s (si_privateByNamespace si)\<rparr>) ns =
     listed si ns \<union> (if ns = own then {s} else {})"
  "listed (si\<lparr>si_public := si_public si @ [s]\<rparr>) ns = listed si ns \<union> {s}"
  by (auto simp: listed_def slice_at_append_at)

lemma listed_export_one:
  "ns \<noteq> Private \<Longrightarrow> listed (export_one s e si) ns =
     listed si ns \<union> (if e = ns \<or> e = Private \<and> ns = sa_Namespace (svc_Attributes s) then {s} else {})"
  by (auto simp: listed_def export_one_def Let_def slice_at_append_at)

lemma listed_exports:
  "ns \<noteq> Private \<Longrightarrow> listed (fold (export_one s) es si) ns =
     listed si ns \<union> (if ns \<in> set es \<or> Private \<in> set es \<and> ns = sa_Namespace (svc_Attributes s) then {s} else {})"
  by (induction es arbitrary: si) (auto simp: listed_export_one)

lemma listed_index_visibility:
  assumes "ns \<noteq> Private"
  shows "listed (index_visibility d s si) ns = listed si ns \<union> (if visible d ns s then {s} else {})"
  unfolding index_visibility_def visible_def Let_def
  using assms by (auto simp: listed_exports listed_append Contains_def)

lemma listed_index_service:
  assumes "ns \<noteq> Private" "index_service ord index d s si = Inr si'"
  shows "listed si' ns = listed si ns \<union> (if visible d ns s then {s} else {})"
proof -
  have "listed (index_hostname s si1) ns = listed si1 ns" for si1
    by (simp add: listed_def index_hostname_def Let_def)
  moreover have "listed (index_instances rng index s pm ps si1) ns = listed si1 ns" for rng pm ps si1
    by (simp add: listed_def index_instances_def Let_def)
  ultimately show ?thesis
    using assms by (auto simp: index_service_def listed_index_visibility split: sum.splits)
qed

lemma listed_index_services:
  assumes "ns \<noteq> Private" "index_services ord index d ss si = Inr si'"
  shows "listed si' ns = listed si ns \<union> {s \<in> set ss. visible d ns s}"
  using assms(2)
proof (induction ss arbitrary: si)
  case (Cons s ss)
  then obtain si1 where s: "index_service ord index d s si = Inr si1" and "index_services ord index d ss si1 = Inr si'"
    by (auto split: sum.splits)
  then have "listed si' ns = listed si1 ns \<union> {s \<in> set ss. visible d ns s}" by (intro Cons.IH)
  then show ?case using listed_index_service [OF assms(1) s] by auto
qed simp

section \<open>Routes\<close>

text \<open>The routes of a configuration that name a host, after resolution.\<close>

definition names_host :: "Config \<Rightarrow> host_name \<Rightarrow> bool" where
  "names_host hr h \<longleftrightarrow> (\<exists>spec. cfg_Spec hr = HTTPRoute (Some spec) \<and> h \<in> set (route_hosts hr spec))"

lemma slice_at_append_all:
  "set (slice_at (fold (\<lambda>h. append_at h hr) hosts m) h) = set (slice_at m h) \<union> (if h \<in> set hosts then {hr} else {})"
  by (induction hosts arbitrary: m) (auto simp: slice_at_append_at)

lemma index_routes_slice:
  assumes "index_routes configs m = Inr m'"
  shows "set (slice_at m' h) = set (slice_at m h) \<union> {hr \<in> set configs. names_host hr h}"
  using assms
proof (induction configs arbitrary: m)
  case (Cons hr rest)
  show ?case
  proof (cases "\<exists>spec. cfg_Spec hr = HTTPRoute (Some spec)")
    case True
    then obtain spec where spec: "cfg_Spec hr = HTTPRoute (Some spec)" by blast
    then have "names_host hr h \<longleftrightarrow> h \<in> set (route_hosts hr spec)" by (simp add: names_host_def)
    then show ?thesis using Cons.IH Cons.prems spec by (auto simp: slice_at_append_all)
  next
    case False
    then have "\<not> names_host hr h" by (auto simp: names_host_def)
    moreover have "index_routes rest m = Inr m'"
      using Cons.prems False by (auto split: Spec.splits option.splits)
    ultimately show ?thesis using Cons.IH by auto
  qed
qed simp

lemma set_concat_if:
  "set (concat (map (\<lambda>p. if p = a then [] else if W p then f p else []) ps)) =
     (\<Union>p \<in> {p \<in> set ps. p \<noteq> a \<and> W p}. set (f p))"
  by auto

lemma union_slices:
  "(\<Union>p \<in> {p. p |\<in>| fmdom m \<and> W p}. set (slice_at m p)) = (\<Union>p \<in> {p. W p}. set (slice_at m p))"
proof -
  have "p |\<in>| fmdom m" if "x \<in> set (slice_at m p)" for p x
    using that by (cases "fmlookup m p") (auto simp: slice_at_def intro: fmdomI)
  then show ?thesis by blast
qed

section \<open>Properties\<close>

text \<open>
  C28: reusing parts of the previous snapshot is an optimisation only. However the environment got
  to its current state, through any sequence of reconciliations whose changes cover what happened
  in between, the snapshot it holds is the one that building from scratch would give, up to the
  index of instances that nothing reads.
\<close>

theorem snapshot_is_from_scratch:
  assumes "reconciled ord env" and "env_configSnapshot env = Some ps" and "cs_InitDone ps"
  shows "from_scratch ord env = Inr (served ps)"
  using reconciled_inv [OF assms(1)] assms(2,3) by (auto simp: NewConfigSnapshot_def)

text \<open>
  C30: alias services are resolved through chains of aliases of any length, and cycles of aliases are
  dropped. When the alias services have different host names, a service gets as aliases exactly
  the alias services whose chain ends at its host name, each once and in order, provided that the
  name is not an alias itself; everything else of the services is kept.
\<close>

theorem aliases_resolved:
  assumes range: "\<And>K. is_range (rng K) K"
    and "distinct (map svc_Hostname (alias_services services))" and "i < length services"
    and s: "s = services ! i"
    and A: "A = {alias_name a | a. a \<in> set (alias_services services) \<and>
      resolves services (external_name a) (svc_Hostname s)}"
  shows "\<exists>as. set as = A \<and> distinct as \<and> sorted (map (\<lambda>a. (nh_Namespace a, nh_Hostname a)) as) \<and>
    resolveServiceAliases rng services ! i =
      (if A = {} then s else s\<lparr>svc_Attributes := (svc_Attributes s)\<lparr>sa_Aliases := as\<rparr>\<rparr>)"
proof -
  have "A = {k. fmlookup (resolved_aliases rng services) k = Some (svc_Hostname s)}"
    using resolved_aliases_lookup [of services rng, OF assms(2) range] by (auto simp: A)
  from aliases_for_service_lookup [of rng "resolved_aliases rng services", OF range this] show ?thesis
    using resolveServiceAliases_nth [OF assms(3), of rng] s
    by (cases "A = {}") (auto split: option.splits)
qed

text \<open>
  C31: a namespace sees exactly the services that are visible to it by their export settings or, if
  they have none, by the default of the mesh: nothing private leaks and nothing exported is lost.
\<close>

theorem namespace_sees_exported:
  assumes "initServiceRegistry ord env (fresh mesh) = Inr ps" and "ns \<noteq> []" and "ns \<noteq> Private"
  shows "set (servicesExportedToNamespace rng ps ns) =
    {s \<in> set (resolveServiceAliases (or_aliases ord) (SortServicesByCreationTime (env_Services env))).
       visible (default_exports mesh) ns s}"
proof -
  obtain si where si: "index_services ord (env_EndpointIndex env) (default_exports mesh) (sorted_services ord env)
      newServiceIndex = Inr si" and "cs_ServiceIndex ps = si"
    using assms(1) unfolding registry_eq registry_def by (auto simp: map_sum_def split: sum.splits)
  moreover have "listed newServiceIndex ns = {}" by (simp add: listed_def newServiceIndex_def slice_at_def)
  ultimately have "listed (cs_ServiceIndex ps) ns = {s \<in> set (sorted_services ord env). visible (default_exports mesh) ns s}"
    using listed_index_services [OF assms(3) si] by simp
  then show ?thesis
    using assms(2) by (simp add: servicesExportedToNamespace_def Let_def listed_def sorted_services_def Un_assoc)
qed

text \<open>
  C32: the HTTP routes found for a host are those that name the host, those that apply to all hosts,
  and those that name a wildcard of which the host ends in the part after the dot. The last rule
  ignores label boundaries: the witness shows a route for \<^verbatim>\<open>*.example.com\<close> that is applied to
  \<^verbatim>\<open>badexample.com\<close>, which the host matching of the repository does not cover.
\<close>

theorem routes_for_host:
  assumes "initHTTPRoutes env ps = Inr ps'" and "\<And>K. is_range (rng K) K" and "hostname \<noteq> ''*''"
  shows "set (HTTPRouteForHost rng ps' hostname) = {hr \<in> set (env_List env KindHTTPRoute).
    \<exists>h. names_host hr h \<and> (h = hostname \<or> h = ''*'' \<or> (\<exists>sfx. h = ''*.'' @ sfx \<and> suffix sfx hostname))}"
proof -
  let ?m = "cs_hostToRoutes ps'"
  have slice: "set (slice_at ?m h) = {hr \<in> set (env_List env KindHTTPRoute). names_host hr h}" for h
  proof -
    have "index_routes (env_List env KindHTTPRoute) fmempty = Inr ?m"
      using assms(1) by (auto simp: initHTTPRoutes_def map_sum_def split: sum.splits)
    from index_routes_slice [OF this] show ?thesis by (simp add: slice_at_def)
  qed
  have pattern: "HasPrefix p ''*.'' \<and> HasSuffix hostname (drop 2 p) \<longleftrightarrow> (\<exists>sfx. p = ''*.'' @ sfx \<and> suffix sfx hostname)" for p
    by (auto simp: go_string prefix_def)
  have patterns: "set (rng (fmdom ?m)) = fset (fmdom ?m)" by (rule is_range_set [OF assms(2)])
  have "set (HTTPRouteForHost rng ps' hostname) = set (slice_at ?m hostname) \<union> set (slice_at ?m ''*'') \<union>
      (\<Union>p \<in> {p \<in> set (rng (fmdom ?m)). p \<noteq> ''*'' \<and> HasPrefix p ''*.'' \<and> HasSuffix hostname (drop 2 p)}. set (slice_at ?m p))"
    using assms(3) unfolding HTTPRouteForHost_def Let_def set_append set_concat_if if_not_P [OF assms(3)] by blast
  also have "{p \<in> set (rng (fmdom ?m)). p \<noteq> ''*'' \<and> HasPrefix p ''*.'' \<and> HasSuffix hostname (drop 2 p)} =
      {p. p |\<in>| fmdom ?m \<and> (\<exists>sfx. p = ''*.'' @ sfx \<and> suffix sfx hostname)}"
    unfolding pattern patterns by auto
  also have "(\<Union>p \<in> {p. p |\<in>| fmdom ?m \<and> (\<exists>sfx. p = ''*.'' @ sfx \<and> suffix sfx hostname)}. set (slice_at ?m p)) =
      (\<Union>p \<in> {p. \<exists>sfx. p = ''*.'' @ sfx \<and> suffix sfx hostname}. set (slice_at ?m p))"
    by (rule union_slices)
  finally show ?thesis by (auto simp: slice)
qed

subsection \<open>Examples\<close>

lemma resolve_no_aliases:
  assumes "\<And>K. is_range (rng K) K" and "alias_services services = []"
  shows "resolveServiceAliases rng services = services"
proof -
  have "\<forall>s \<in> set services. svc_Resolution s \<noteq> Alias"
    using assms(2) by (simp add: alias_services_def filter_empty_conv)
  then have "raw_aliases services = fmempty"
    unfolding raw_aliases_def by (induction services) simp_all
  moreover have "rng {||} = []" using assms(1) [of "{||}"] by simp
  ultimately have "aliases_for_service rng (resolved_aliases rng services) = fmempty"
    by (simp add: resolved_aliases_def aliases_for_service_def)
  then show ?thesis by (simp add: resolveServiceAliases_def)
qed

definition sorted_range :: "NamespacedHostname fset \<Rightarrow> NamespacedHostname list" where
  "sorted_range K = map (\<lambda>(ns, h). \<lparr>nh_Hostname = h, nh_Namespace = ns\<rparr>)
     (sorted_list_of_fset ((\<lambda>k. (nh_Namespace k, nh_Hostname k)) |`| K))"

lemma sorted_range: "is_range (sorted_range K) K"
proof -
  let ?g = "\<lambda>(ns, h). \<lparr>nh_Hostname = h, nh_Namespace = ns\<rparr>"
  have "inj_on ?g A" for A by (auto simp: inj_on_def)
  moreover have id: "\<lparr>nh_Hostname = nh_Hostname x, nh_Namespace = nh_Namespace x\<rparr> = x" for x :: NamespacedHostname
    by simp
  ultimately show ?thesis
    by (simp add: is_range_def sorted_range_def id distinct_map fset_of_list.rep_eq image_image
        sorted_list_of_fset.rep_eq flip: fset_inject)
qed

definition example_orders :: orders where
  "example_orders = \<lparr>or_aliases = sorted_range,
     or_shards = (\<lambda>K. map (\<lambda>p. \<lparr>sk_Provider = p\<rparr>) (sorted_list_of_fset (sk_Provider |`| K))), or_md5 = (\<lambda>s. s)\<rparr>"

definition example_svc :: "string \<Rightarrow> Resolution \<Rightarrow> string \<Rightarrow> string gset \<Rightarrow> Service" where
  "example_svc h res ext exportTo =
     \<lparr>svc_Attributes = \<lparr>sa_Labels = None, sa_LabelSelectors = None, sa_ExportTo = exportTo, sa_Aliases = [],
        sa_PassthroughTargetPorts = None, sa_Name = h, sa_Namespace = ''app'', sa_ServiceRegistry = Kubernetes,
        sa_K8sAttributes = \<lparr>k8s_Type = [], k8s_ExternalName = ext, k8s_NodeLocal = False, k8s_ObjectName = [],
          k8s_PublishNotReadyAddresses = False\<rparr>\<rparr>,
      svc_Hostname = h, svc_Ports = None, svc_ServiceAccounts = [], svc_Addresses = [], svc_CreationTime = 0,
      svc_DefaultAddress = [], svc_ResourceVersion = [], svc_Resolution = res,
      svc_AutoAllocatedIPv4Address = [], svc_AutoAllocatedIPv6Address = [], svc_MeshExternal = False\<rparr>"

definition example_services :: "Service list" where
  "example_services = [example_svc ''a'' Alias ''b'' None, example_svc ''b'' Alias ''c'' None,
     example_svc ''c'' ClientSideLB [] None, example_svc ''x'' Alias ''y'' None,
     example_svc ''y'' Alias ''x'' None]"

lemma example_refers:
  "refers example_services h r \<longleftrightarrow> (h, r) \<in> {(''a'', ''b''), (''b'', ''c''), (''x'', ''y''), (''y'', ''x'')}"
  by (auto simp: refers_def example_services_def example_svc_def)

definition example_mesh :: MeshConfig where
  "example_mesh = \<lparr>mesh_DefaultServiceExportTo = None, mesh_TrustDomainAliases = [], mesh_RootNamespace = ''root''\<rparr>"

definition example_exported :: Service where
  "example_exported = example_svc ''c'' ClientSideLB [] (Some {|''team''|})"

definition example_env :: "Service list \<Rightarrow> Config list \<Rightarrow> nat ConfigSnapshot option \<Rightarrow> (unit, nat) Environment" where
  "example_env services routes ps =
     \<lparr>env_Services = services, env_Mesh = Some example_mesh,
      env_List = (\<lambda>k. if k = KindHTTPRoute then routes else []), env_EndpointIndex = NewEndpointIndex (),
      env_GatewayAPIController = Some 1, env_configSnapshot = ps\<rparr>"

definition example_route :: "string list \<Rightarrow> Config" where
  "example_route hosts =
     \<lparr>meta_GroupVersionKind = \<lparr>gvk_Group = ''gateway'', gvk_Version = ''v1'', gvk_Kind = ''HTTPRoute''\<rparr>,
      meta_UID = [], meta_Name = ''route'', meta_Namespace = ''app'', meta_Domain = [], meta_Labels = fmempty,
      meta_Annotations = fmempty, meta_ResourceVersion = ''1'', meta_CreationTimestamp = 0, meta_Generation = 1,
      cfg_Spec = HTTPRoute (Some \<lparr>hr_ParentRefs = [], hr_Hostnames = hosts, hr_Rules = []\<rparr>)\<rparr>"

definition example_change :: "bool \<Rightarrow> kind \<Rightarrow> ConfigChange" where
  "example_change forced k = \<lparr>cc_ConfigsUpdated = Some {|\<lparr>ck_Kind = k, ck_Name = ''route'', ck_Namespace = ''app''\<rparr>|},
     cc_AddressesUpdated = None, cc_Full = True, cc_Forced = forced, cc_EndpointsChanged = False, cc_Global = False\<rparr>"

lemma example_build:
  assumes "index_routes routes fmempty = Inr m"
  shows "\<exists>ps. from_scratch example_orders (example_env [] routes old) = Inr ps \<and> cs_hostToRoutes ps = m"
proof -
  let ?env = "example_env [] routes old"
  have mesh: "env_Mesh ?env = Some example_mesh" by (simp add: example_env_def)
  obtain services where "registry example_orders ?env example_mesh = Inr services"
    by (simp add: registry_def sorted_services_def resolveServiceAliases_def example_env_def
        SortServicesByCreationTime_def)
  moreover obtain authn where "authn_index example_orders ?env example_mesh = Inr authn"
    using initAuthenticationPolicies_returns [of "env_List ?env"] by (auto simp: authn_index_def example_env_def)
  ultimately show ?thesis
    using assms by (simp add: from_scratch_eq [OF mesh]) (simp add: example_env_def assemble_def)
qed

text \<open>The first snapshot is built from scratch, the second one after a route was added.\<close>

theorem snapshot_is_from_scratch_witness:
  "\<exists>ps. reconciled example_orders (example_env [] [example_route []] (Some ps)) \<and> cs_InitDone ps \<and>
     slice_at (cs_hostToRoutes ps) ''*'' = [example_route []] \<and>
     from_scratch example_orders (example_env [] [example_route []] (Some ps)) = Inr (served ps)"
proof -
  let ?m = "append_at ''*'' (example_route []) fmempty"
  let ?forced = "example_change True KindHTTPRoute" and ?change = "example_change False KindHTTPRoute"
  let ?env0 = "example_env [] [] (Some NewConfigSnapshot)"
  have snap: "env_configSnapshot (example_env [] routes old) = old" for routes old by (simp add: example_env_def)
  have new: "\<not> cs_InitDone NewConfigSnapshot \<or> P" for P by (simp add: NewConfigSnapshot_def)
  obtain built where built: "from_scratch example_orders ?env0 = Inr built"
    using example_build [of "[]" fmempty] by auto
  from reconcile_returns [OF built snap new] obtain ps1 where
    ps1: "ReconcileConfig example_orders ?env0 (Some ?forced) = Inr (?env0\<lparr>env_configSnapshot := Some ps1\<rparr>)"
    and "served ps1 = built" by blast
  then have served1: "from_scratch example_orders ?env0 = Inr (served ps1)" using built by simp
  let ?env1 = "example_env [] [] (Some ps1)" and ?env1' = "example_env [] [example_route []] (Some ps1)"
  have r1: "reconciled example_orders ?env1"
    using reconciled.reconcile [OF reconciled.start [of ?env0] _ _ ps1]
    by (simp add: example_env_def initialized_def NewConfigSnapshot_def)
  have index: "index_routes [example_route []] fmempty = Inr ?m"
    by (simp add: example_route_def route_hosts_def)
  have covers: "covers ?change ?env1 ?env1'"
    by (simp add: covers_def example_env_def example_change_def HasConfigsOfKind_def same_accounts_def)
  have "from_scratch example_orders ?env1 = Inr (served ps1)"
    using served1 from_scratch_snapshot [of example_orders "Some ps1" ?env0] by (simp add: example_env_def)
  then have ok: "\<not> cs_InitDone ps1 \<or> cc_Forced ?change \<or>
      from_scratch example_orders ?env1 = Inr (served ps1) \<and> covers ?change ?env1 ?env1'"
    using covers by blast
  obtain built' where built': "from_scratch example_orders ?env1' = Inr built'" "cs_hostToRoutes built' = ?m"
    using example_build [OF index] by blast
  from reconcile_returns [OF built'(1) snap ok] obtain ps where
    ps: "ReconcileConfig example_orders ?env1' (Some ?change) = Inr (?env1'\<lparr>env_configSnapshot := Some ps\<rparr>)"
    and "served ps = built'" by blast
  then have m: "cs_hostToRoutes (served ps) = ?m" and served: "from_scratch example_orders ?env1' = Inr (served ps)"
    using built' by simp_all
  have "reconciled example_orders (example_env [] [example_route []] (Some ps))"
    using reconciled.reconcile [OF r1 _ covers ps] by (simp add: example_env_def)
  moreover have "cs_InitDone ps" using from_scratch_done [OF served] .
  ultimately show ?thesis
    using snapshot_is_from_scratch [of example_orders "example_env [] [example_route []] (Some ps)" ps] m
    by (auto simp: example_env_def served_def slice_at_def append_at_def)
qed

theorem aliases_resolved_witness:
  "\<exists>as. set as = {alias_name (example_services ! 0), alias_name (example_services ! 1)} \<and>
     sa_Aliases (svc_Attributes (resolveServiceAliases sorted_range example_services ! 2)) = as"
proof -
  have no: "\<not> resolves example_services r ''c''" if "r = ''x'' \<or> r = ''y''" for r
  proof -
    have "c = ''x'' \<or> c = ''y''" if "(refers example_services)\<^sup>*\<^sup>* r c" for c
      using that \<open>r = ''x'' \<or> r = ''y''\<close> by (induction rule: rtranclp_induct) (auto simp: example_refers)
    then show ?thesis by (auto simp: resolves_def)
  qed
  have "resolves example_services ''b'' ''c''" "resolves example_services ''c'' ''c''"
    by (auto simp: resolves_def example_refers)
  then have A: "{alias_name a | a. a \<in> set (alias_services example_services) \<and>
      resolves example_services (external_name a) (svc_Hostname (example_services ! 2))} =
    {alias_name (example_services ! 0), alias_name (example_services ! 1)}"
    using no by (auto simp: alias_services_def example_services_def example_svc_def external_name_def)
  have "distinct (map svc_Hostname (alias_services example_services))" "2 < length example_services"
    by (simp_all add: alias_services_def example_services_def example_svc_def)
  from aliases_resolved [of sorted_range example_services 2, OF sorted_range this refl refl]
  obtain as where "set as = {alias_name (example_services ! 0), alias_name (example_services ! 1)}"
    and "resolveServiceAliases sorted_range example_services ! 2 =
      (example_services ! 2)\<lparr>svc_Attributes := (svc_Attributes (example_services ! 2))\<lparr>sa_Aliases := as\<rparr>\<rparr>"
    unfolding A by (metis insert_not_empty)
  then show ?thesis by (intro exI [of _ as]) simp
qed

text \<open>The service is exported to one other namespace, and not to its own.\<close>

theorem namespace_sees_exported_witness:
  "\<exists>ps. initServiceRegistry example_orders (example_env [example_exported] [] None) (fresh example_mesh) = Inr ps \<and>
     set (servicesExportedToNamespace sorted_list_of_fset ps ''team'') = {example_exported} \<and>
     set (servicesExportedToNamespace sorted_list_of_fset ps ''app'') = {}"
proof -
  let ?env = "example_env [example_exported] [] None :: (unit, nat) Environment"
  have all: "resolveServiceAliases (or_aliases example_orders) (SortServicesByCreationTime (env_Services ?env)) =
      [example_exported]"
    by (simp add: resolve_no_aliases sorted_range example_env_def SortServicesByCreationTime_def example_orders_def
        alias_services_def example_exported_def example_svc_def)
  have "\<exists>ps :: nat ConfigSnapshot. initServiceRegistry example_orders ?env (fresh example_mesh) = Inr ps"
    unfolding initServiceRegistry_def all Let_def
    by (simp add: index_service_def example_exported_def example_svc_def initServiceAccounts_def)
  then obtain ps :: "nat ConfigSnapshot"
    where ps: "initServiceRegistry example_orders ?env (fresh example_mesh) = Inr ps" by blast
  have "visible (default_exports example_mesh) ''team'' example_exported"
    "\<not> visible (default_exports example_mesh) ''app'' example_exported"
    by (simp_all add: visible_def example_exported_def example_svc_def IsEmpty_def Contains_def Len_def Public_def
        Invisible_def Private_def)
  then have "set (servicesExportedToNamespace sorted_list_of_fset ps ''team'') = {example_exported}"
    "set (servicesExportedToNamespace sorted_list_of_fset ps ''app'') = {}"
    using namespace_sees_exported [OF ps, of "''team''" sorted_list_of_fset]
      namespace_sees_exported [OF ps, of "''app''" sorted_list_of_fset]
    unfolding all by (auto simp: Private_def simp del: set_empty)
  then show ?thesis using ps by blast
qed

theorem routes_for_host_witness:
  "\<exists>ps. initHTTPRoutes (example_env [] [example_route [''*.example.com'']] None) NewConfigSnapshot = Inr ps \<and>
     set (HTTPRouteForHost sorted_list_of_fset ps ''badexample.com'') = {example_route [''*.example.com'']} \<and>
     \<not> Matches ''*.example.com'' ''badexample.com''"
proof -
  let ?route = "example_route [''*.example.com'']"
  let ?env = "example_env [] [?route] None :: (unit, nat) Environment"
  have "\<exists>ps :: nat ConfigSnapshot. initHTTPRoutes ?env NewConfigSnapshot = Inr ps"
    by (simp add: initHTTPRoutes_def example_env_def example_route_def)
  then obtain ps :: "nat ConfigSnapshot" where ps: "initHTTPRoutes ?env NewConfigSnapshot = Inr ps" by blast
  have range: "is_range (sorted_list_of_fset K) K" for K :: "string fset"
    by (simp add: is_range_def sorted_list_of_fset.rep_eq fset_of_list.rep_eq flip: fset_inject)
  have "names_host ?route ''*.example.com''"
    by (simp add: names_host_def example_route_def route_hosts_def ResolveShortnameToFQDN_def IsValidIPAddress_def)
  moreover have "suffix ''example.com'' ''badexample.com''" by (simp add: suffix_def)
  ultimately have "\<exists>h. names_host ?route h \<and> (h = ''badexample.com'' \<or> h = ''*'' \<or>
      (\<exists>sfx. h = ''*.'' @ sfx \<and> suffix sfx ''badexample.com''))" by force
  moreover have "\<not> Matches ''*.example.com'' ''badexample.com''"
    by (simp add: Matches_def IsWildCarded_def HasSuffix_def Let_def)
  ultimately show ?thesis
    using ps routes_for_host [OF ps range, of "''badexample.com''"] by (auto simp: example_env_def)
qed

end
