(* ===== verification/Delta.thy ===== *)
theory Delta
  imports Connections
begin

text \<open>
  The incremental (delta) protocol: \<^verbatim>\<open>dubbod/discovery/pkg/xds/delta.go\<close>, \<^verbatim>\<open>pushDeltaXds\<close> of
  \<^verbatim>\<open>xdsgen.go\<close> and \<^verbatim>\<open>processDeltaRequest\<close> of \<^verbatim>\<open>ads.go\<close>. The server keeps, for each resource type, the
  names it believes the client holds, and computes from them what to remove. The client is
  modelled by what the protocol says it does with a response: \<open>client_holds\<close>. Messages of errors
  are kept without their formatted arguments.
\<close>

section \<open>Requests\<close>

record DeltaDiscoveryRequest =
  dreq_TypeUrl :: string
  dreq_ResourceNamesSubscribe :: "string list"
  dreq_ResourceNamesUnsubscribe :: "string list"
  dreq_InitialResourceVersions :: "(string, string) fmap"
  dreq_ResponseNonce :: string
  dreq_ErrorDetail :: "(int \<times> string) option"

text \<open>
  The loops of \<^verbatim>\<open>deltaWatchedResources\<close>. \<open>res\<close> is never \<^verbatim>\<open>nil\<close> there, so the insertions do not panic. The
  flag is \<^verbatim>\<open>changed\<close>.
\<close>

fun insert_names :: "string list \<Rightarrow> string fset \<times> bool \<Rightarrow> string fset \<times> bool" where
  "insert_names [] (res, changed) = (res, changed)"
| "insert_names (r # rs) (res, changed) = insert_names rs (finsert r res, if r |\<in>| res then changed else True)"

fun delete_names :: "string list \<Rightarrow> string fset \<times> bool \<Rightarrow> string fset \<times> bool" where
  "delete_names [] (res, changed) = (res, changed)"
| "delete_names (r # rs) (res, changed) = delete_names rs (res |-| {|r|}, if r |\<in>| res then True else changed)"

text \<open>
  The map of initial versions is traversed in sorted order; \<open>insert_names_eq\<close> shows that the order
  does not matter.
\<close>

definition deltaWatchedResources :: "string gset \<Rightarrow> DeltaDiscoveryRequest \<Rightarrow> string fset \<times> bool \<times> bool" where
  "deltaWatchedResources existing request =
     (let res = (case existing of None \<Rightarrow> {||} | Some S \<Rightarrow> S);
          (res, changed) = insert_names (dreq_ResourceNamesSubscribe request) (res, False);
          (res, changed) = insert_names (sorted_list_of_fset (fmdom (dreq_InitialResourceVersions request))) (res, changed);
          (res, changed) = delete_names (dreq_ResourceNamesUnsubscribe request) (res, changed);
          wildcard = (''*'' |\<in>| res);
          res = (if wildcard then res |-| {|''*''|} else res);
          wildcard = (if length (dreq_ResourceNamesSubscribe request) = 0 then True else wildcard)
      in (res, wildcard, changed))"

definition apply_delta :: "DeltaDiscoveryRequest \<Rightarrow> bool \<Rightarrow> 'r update_fn" where
  "apply_delta request spontaneousReq wr =
     (case wr of None \<Rightarrow> Inl NilDeref
      | Some wr \<Rightarrow>
          let (res, _, _) = deltaWatchedResources (wr_ResourceNames wr) request;
              wr = wr\<lparr>wr_ResourceNames := Some res\<rparr>;
              wr = (if \<not> spontaneousReq
                    then wr\<lparr>wr_LastError := [], wr_NonceAcked := dreq_ResponseNonce request\<rparr> else wr)
          in Inr (Some (wr\<lparr>wr_AlwaysRespond := False\<rparr>)))"

definition shouldRespondDelta :: "'r watches \<Rightarrow> DeltaDiscoveryRequest \<Rightarrow> panic + (bool \<times> 'r watches)" where
  "shouldRespondDelta proxy request =
     (let url = dreq_TypeUrl request; nonce = dreq_ResponseNonce request in
      case dreq_ErrorDetail request of
        Some (errCode, message) \<Rightarrow>
          map_sum id (Pair False) (UpdateWatchedResource proxy url (record_error message))
      | None \<Rightarrow>
        (case GetWatchedResource proxy url of
           None \<Rightarrow>
             (let (res, wildcard, _) = deltaWatchedResources None request
              in Inr (True, fmupd url ((zero_WatchedResource url)
                   \<lparr>wr_ResourceNames := Some res, wr_Wildcard := wildcard\<rparr>) proxy))
         | Some previousInfo \<Rightarrow>
             if nonce \<noteq> [] \<and> nonce \<noteq> wr_NonceSent previousInfo then Inr (False, proxy)
             else
               let spontaneousReq = (nonce = []);
                   (_, _, subChanged) = deltaWatchedResources (wr_ResourceNames previousInfo) request;
                   alwaysRespond = wr_AlwaysRespond previousInfo
               in map_sum id (Pair (if \<not> subChanged then alwaysRespond else True))
                    (UpdateWatchedResource proxy url (apply_delta request spontaneousReq))))"

section \<open>Pushes\<close>

text \<open>The result of a push: an error for the caller, and the connection.\<close>

type_synonym ('a, 'cs) push_result = "panic + (err option \<times> ('a, 'cs) Connection)"

definition record_delta_sent :: "string \<Rightarrow> string \<Rightarrow> string gset \<Rightarrow> time \<Rightarrow> 'r update_fn" where
  "record_delta_sent url nonce newResourceNames now wr =
     (let wr = (case wr of None \<Rightarrow> zero_WatchedResource url | Some wr \<Rightarrow> wr);
          wr = (if newResourceNames \<noteq> None then wr\<lparr>wr_ResourceNames := newResourceNames\<rparr> else wr)
      in Inr (Some (wr\<lparr>wr_NonceSent := nonce, wr_LastSendTime := now\<rparr>)))"

text \<open>Updates the watches of the proxy of a connection.\<close>

definition update_watch ::
    "('a, 'cs) Connection \<Rightarrow> string \<Rightarrow> 'a Resource update_fn \<Rightarrow> panic + ('a, 'cs) Connection" where
  "update_watch con url f =
     (case con_proxy con of None \<Rightarrow> Inl NilDeref
      | Some proxy \<Rightarrow>
          map_sum id (\<lambda>ws. con\<lparr>con_proxy := Some (proxy\<lparr>px_WatchedResources := ws\<rparr>)\<rparr>)
            (UpdateWatchedResource (px_WatchedResources proxy) url f))"

definition hand_to_stream ::
    "io \<Rightarrow> ('a, 'cs) Connection \<Rightarrow> 'a response \<Rightarrow> err option \<times> ('a, 'cs) Connection" where
  "hand_to_stream w con resp =
     (let outcome = io_send w (con_ticks con)
      in (outcome, con\<lparr>con_ticks := con_ticks con + 1, con_sent := con_sent con @ [(con_ticks con, resp, outcome)]\<rparr>))"

definition sendDelta ::
    "io \<Rightarrow> ('a, 'cs) Connection \<Rightarrow> 'a DeltaDiscoveryResponse \<Rightarrow> string gset \<Rightarrow> ('a, 'cs) push_result" where
  "sendDelta w con res newResourceNames =
     (case hand_to_stream w con (Delta res) of
        (None, con') \<Rightarrow>
          map_sum id (Pair None) (update_watch con' (ddr_TypeUrl res)
            (record_delta_sent (ddr_TypeUrl res) (ddr_Nonce res) newResourceNames (io_now w (con_ticks con))))
      | (Some e, con') \<Rightarrow> Inr (Some e, con'))"

definition resourceNamesSet :: "'a Resource list \<Rightarrow> string gset" where
  "resourceNamesSet res = New (map res_Name res)"

definition shouldSetWatchedResources :: "'r WatchedResource option \<Rightarrow> bool" where
  "shouldSetWatchedResources w \<longleftrightarrow>
     (case w of None \<Rightarrow> False | Some w \<Rightarrow> IsWildcardTypeURL (wr_TypeUrl w) \<or> wr_TypeUrl w = RouteType)"

text \<open>The dispatch on the dynamic type of the generator.\<close>

fun run_generator ::
    "('a, 'cs) generator \<Rightarrow> ('a, 'cs) proxy \<Rightarrow> 'cs PushContext PushRequest \<Rightarrow> 'a Resource WatchedResource \<Rightarrow>
     'a Resource list option \<times> string list option \<times> bool \<times> err option" where
  "run_generator (DeltaResourceGenerator _ g) proxy req w =
     (let (res, deletedRes, logdata, usedDelta, err) = g proxy req w in (res, deletedRes, usedDelta, err))"
| "run_generator (ResourceGenerator g) proxy req w =
     (let (res, logdata, err) = g proxy w req in (res, None, False, err))"

definition removed_resources ::
    "bool \<Rightarrow> bool \<Rightarrow> string list option \<Rightarrow> string gset \<Rightarrow> 'a Resource list \<Rightarrow> string list" where
  "removed_resources usedDelta full deletedRes names res =
     (if usedDelta then (case deletedRes of None \<Rightarrow> [] | Some ds \<Rightarrow> ds)
      else if full then
        let removed = DeleteAll (Copy names) (map res_Name res)
        in SortedList (sorted_list_of_fset (elems removed)) removed
      else [])"

definition new_names ::
    "'a Resource WatchedResource \<Rightarrow> bool \<Rightarrow> string list \<Rightarrow> 'a Resource list \<Rightarrow> string gset" where
  "new_names w usedDelta removed res =
     (if shouldSetWatchedResources (Some w) then
        if usedDelta then
          Some (elems (DeleteAll (if wr_ResourceNames w \<noteq> None then Copy (wr_ResourceNames w) else New []) removed) |\<union>|
                fset_of_list (map res_Name res))
        else resourceNamesSet res
      else None)"

definition pushDeltaXds ::
    "('a, 'cs) server \<Rightarrow> io \<Rightarrow> ('a, 'cs) Connection \<Rightarrow> 'a Resource WatchedResource option \<Rightarrow>
     'cs PushContext PushRequest \<Rightarrow> ('a, 'cs) push_result" where
  "pushDeltaXds s io con w req =
     (case authorizeConnection s io con of
        (Some e, con) \<Rightarrow> Inr (Some e, con)
      | (None, con) \<Rightarrow>
        (case (w, con_proxy con) of
           (Some w, Some proxy) \<Rightarrow>
             (case findGenerator s (wr_TypeUrl w) (Some con) of
                None \<Rightarrow> Inr (None, con)
              | Some gen \<Rightarrow>
                  let w = (if \<not> ResourceDelta_IsEmpty (pr_Delta req)
                           then (zero_WatchedResource (wr_TypeUrl w))\<lparr>wr_ResourceNames := Subscribed (pr_Delta req)\<rparr>
                           else w);
                      (res, deletedRes, usedDelta, err) = run_generator gen proxy req w
                  in if err \<noteq> None \<or> (Option.is_none res \<and> deletedRes = None) then Inr (err, con)
                     else case pr_Push req of
                       None \<Rightarrow> Inl NilDeref
                     | Some push \<Rightarrow>
                         let resources = (case res of None \<Rightarrow> [] | Some rs \<Rightarrow> rs);
                             removed = removed_resources usedDelta (pr_Full req) deletedRes (wr_ResourceNames w) resources;
                             resp = \<lparr>ddr_TypeUrl = wr_TypeUrl w, ddr_SystemVersionInfo = pc_PushVersion push,
                               ddr_Nonce = pc_PushVersion push @ io_uuid io (con_ticks con),
                               ddr_Resources = resources, ddr_RemovedResources = removed\<rparr>
                         in sendDelta io con resp (new_names w usedDelta removed resources))
         | _ \<Rightarrow> Inr (None, con)))"

definition forceEDSPush ::
    "('a, 'cs) server \<Rightarrow> io \<Rightarrow> ('a, 'cs) Connection \<Rightarrow> ('a, 'cs) push_result" where
  "forceEDSPush s io con =
     (case con_proxy con of None \<Rightarrow> Inl NilDeref
      | Some proxy \<Rightarrow>
        (case GetWatchedResource (px_WatchedResources proxy) EndpointType of
           None \<Rightarrow> Inr (None, con)
         | Some dwr \<Rightarrow>
             pushDeltaXds s io con (Some dwr)
               (zero_PushRequest\<lparr>pr_Full := True, pr_Push := px_LastPushContext proxy,
                  pr_Reason := Some (NewReasonStats [DependentResource]), pr_Start := px_LastPushTime proxy,
                  pr_Forced := True\<rparr>)))"

definition delta_push_request :: "('a, 'cs) proxy \<Rightarrow> DeltaDiscoveryRequest \<Rightarrow> 'cs PushContext PushRequest" where
  "delta_push_request proxy req =
     (let (subs, _, _) = deltaWatchedResources None req
      in zero_PushRequest\<lparr>pr_Full := True, pr_Push := px_LastPushContext proxy,
           pr_Reason := Some (NewReasonStats [ProxyRequest]), pr_Start := px_LastPushTime proxy,
           pr_Delta := \<lparr>Subscribed = Some subs,
             Unsubscribed = Delete (New (dreq_ResourceNamesUnsubscribe req)) ''*''\<rparr>,
           pr_Forced := True\<rparr>)"

definition processDeltaRequest ::
    "('a, 'cs) server \<Rightarrow> io \<Rightarrow> DeltaDiscoveryRequest \<Rightarrow> ('a, 'cs) Connection \<Rightarrow> ('a, 'cs) push_result" where
  "processDeltaRequest s io req con =
     (case authorizeConnection s io con of
        (Some e, con) \<Rightarrow> Inr (Some e, con)
      | (None, con) \<Rightarrow>
          if Option.is_none (findGenerator s (dreq_TypeUrl req) (Some con))
          then Inr (Some (Status InvalidArgument ''unsupported xDS resource type''), con)
          else case con_proxy con of None \<Rightarrow> Inl NilDeref
            | Some proxy \<Rightarrow>
              (case shouldRespondDelta (px_WatchedResources proxy) req of
                 Inl p \<Rightarrow> Inl p
               | Inr (respond, ws) \<Rightarrow>
                   let proxy = proxy\<lparr>px_WatchedResources := ws\<rparr>; con = con\<lparr>con_proxy := Some proxy\<rparr>
                   in if \<not> respond then Inr (None, con)
                      else case pushDeltaXds s io con (GetWatchedResource ws (dreq_TypeUrl req)) (delta_push_request proxy req) of
                        Inr (None, con) \<Rightarrow>
                          if dreq_TypeUrl req \<noteq> ClusterType then Inr (None, con) else forceEDSPush s io con
                      | r \<Rightarrow> r))"

text \<open>
  \<open>ks\<close> is the order in which the map of watches is traversed. The list of watches is made before the
  first push and holds pointers: each is read when its turn comes.
\<close>

fun push_watches_delta ::
    "('a, 'cs) server \<Rightarrow> io \<Rightarrow> 'cs PushContext PushRequest \<Rightarrow> string list \<Rightarrow> ('a, 'cs) Connection \<Rightarrow> ('a, 'cs) push_result" where
  "push_watches_delta s io req [] con = Inr (None, con)"
| "push_watches_delta s io req (url # urls) con =
     (case con_proxy con of None \<Rightarrow> Inl NilDeref
      | Some proxy \<Rightarrow>
        (case pushDeltaXds s io con (GetWatchedResource (px_WatchedResources proxy) url) req of
           Inr (None, con) \<Rightarrow> push_watches_delta s io req urls con
         | r \<Rightarrow> r))"

definition pushConnectionDelta ::
    "('a, 'cs) server \<Rightarrow> io \<Rightarrow> string list \<Rightarrow> ('a, 'cs) Connection \<Rightarrow> 'cs PushContext PushRequest option \<Rightarrow>
     ('a, 'cs) push_result" where
  "pushConnectionDelta s io ks con pushRequest =
     (case (con_proxy con, pushRequest) of
        (Some proxy, Some req) \<Rightarrow>
          (case (if pr_Full req then computeProxyState (srv_GetProxyServiceTargets s) proxy (Some req) else Inr proxy) of
             Inl p \<Rightarrow> Inl p
           | Inr proxy \<Rightarrow>
               let con = con\<lparr>con_proxy := Some proxy\<rparr>;
                   (req, needsPush) = (case srv_ProxyNeedsPush s of None \<Rightarrow> (req, True) | Some f \<Rightarrow> f proxy req)
               in if \<not> needsPush then Inr (None, con)
                  else push_watches_delta s io req
                    (map wr_TypeUrl (watchedResourcesByOrder ks (px_WatchedResources proxy))) con)
      | _ \<Rightarrow> Inr (None, con))"

section \<open>What the client holds\<close>

text \<open>The names a client holds for a type after a delta response for it.\<close>

definition client_holds :: "string fset \<Rightarrow> 'a DeltaDiscoveryResponse \<Rightarrow> string fset" where
  "client_holds held resp =
     (held |-| fset_of_list (ddr_RemovedResources resp)) |\<union>| fset_of_list (map res_Name (ddr_Resources resp))"

definition tracked :: "('a, 'cs) Connection \<Rightarrow> string \<Rightarrow> string fset" where
  "tracked con url =
     (case con_proxy con of None \<Rightarrow> {||}
      | Some proxy \<Rightarrow>
        (case GetWatchedResource (px_WatchedResources proxy) url of None \<Rightarrow> {||}
         | Some w \<Rightarrow> elems (wr_ResourceNames w)))"

section \<open>Facts\<close>

lemma insert_names_eq:
  "insert_names rs (res, changed) = (res |\<union>| fset_of_list rs, changed \<or> \<not> fset_of_list rs |\<subseteq>| res)"
  by (induction rs arbitrary: res changed) auto

lemma delete_names_eq:
  "delete_names rs (res, changed) = (res |-| fset_of_list rs, changed \<or> res |\<inter>| fset_of_list rs \<noteq> {||})"
  by (induction rs arbitrary: res changed) auto

text \<open>The names a request adds and removes.\<close>

definition added_names :: "DeltaDiscoveryRequest \<Rightarrow> string fset" where
  "added_names request =
     fset_of_list (dreq_ResourceNamesSubscribe request) |\<union>| fmdom (dreq_InitialResourceVersions request)"

lemma deltaWatchedResources_eq:
  "deltaWatchedResources existing request =
     ((elems existing |\<union>| added_names request) |-| fset_of_list (dreq_ResourceNamesUnsubscribe request) |-| {|''*''|},
      dreq_ResourceNamesSubscribe request = [] \<or>
        ''*'' |\<in>| (elems existing |\<union>| added_names request) |-| fset_of_list (dreq_ResourceNamesUnsubscribe request),
      \<not> added_names request |\<subseteq>| elems existing \<or>
        (elems existing |\<union>| added_names request) |\<inter>| fset_of_list (dreq_ResourceNamesUnsubscribe request) \<noteq> {||})"
proof -
  have dom: "fset_of_list (sorted_list_of_fset (fmdom m)) = fmdom m" for m :: "(string, string) fmap"
    by (metis fset_inverse fset_of_list.rep_eq set_sorted_list_of_set finite_fset sorted_list_of_fset.rep_eq)
  show ?thesis
    by (cases existing)
      (auto simp: deltaWatchedResources_def insert_names_eq delete_names_eq dom added_names_def Let_def)
qed

lemma sendDelta_ok:
  assumes "con_proxy con = Some proxy" "io_send io (con_ticks con) = None"
  shows "sendDelta io con resp names = Inr (None, con\<lparr>con_ticks := con_ticks con + 1,
      con_sent := con_sent con @ [(con_ticks con, Delta resp, None)],
      con_proxy := Some (proxy\<lparr>px_WatchedResources := fmupd (ddr_TypeUrl resp)
        (the (projr (record_delta_sent (ddr_TypeUrl resp) (ddr_Nonce resp) names (io_now io (con_ticks con))
          (fmlookup (px_WatchedResources proxy) (ddr_TypeUrl resp))))) (px_WatchedResources proxy)\<rparr>)\<rparr>)"
  using assms by (simp add: sendDelta_def hand_to_stream_def update_watch_def UpdateWatchedResource_def
      record_delta_sent_def Let_def split: option.splits)

text \<open>The watch that a push works on: the entry of the proxy, or the names the client just asked for.\<close>

definition pushed_watch :: "'a Resource WatchedResource \<Rightarrow> 'cs PushContext PushRequest \<Rightarrow> 'a Resource WatchedResource" where
  "pushed_watch w req =
     (if ResourceDelta_IsEmpty (pr_Delta req) then w
      else (zero_WatchedResource (wr_TypeUrl w))\<lparr>wr_ResourceNames := Subscribed (pr_Delta req)\<rparr>)"

lemma pushed_watch_TypeUrl [simp]: "wr_TypeUrl (pushed_watch w req) = wr_TypeUrl w"
  by (simp add: pushed_watch_def zero_WatchedResource_def)

lemma findGenerator_ticks [simp]:
  "findGenerator s url (Some (con\<lparr>con_ticks := n\<rparr>)) = findGenerator s url (Some con)"
  by (simp add: findGenerator_def)

lemma tracked_ticks [simp]: "tracked (con\<lparr>con_ticks := n\<rparr>) url = tracked con url"
  by (simp add: tracked_def)

lemma tracked_after_send:
  assumes "sendDelta io con resp names = Inr (None, con')" "con_proxy con = Some proxy"
  shows "con_sent con' = con_sent con @ [(con_ticks con, Delta resp, None)] \<and>
     tracked con' (ddr_TypeUrl resp) = (case names of None \<Rightarrow> tracked con (ddr_TypeUrl resp) | Some ns \<Rightarrow> ns)"
proof -
  have ok: "io_send io (con_ticks con) = None"
    using assms(1) by (auto simp: sendDelta_def hand_to_stream_def Let_def split: option.splits)
  show ?thesis
    using assms(1) unfolding sendDelta_ok [OF assms(2) ok]
    by (auto simp: tracked_def GetWatchedResource_def record_delta_sent_def zero_WatchedResource_def assms(2) Let_def
        split: option.splits)
qed

text \<open>The response of a push, and the push of an authorized connection with a generator.\<close>

definition delta_response ::
    "io \<Rightarrow> nat \<Rightarrow> 'cs PushContext \<Rightarrow> bool \<Rightarrow> 'a Resource WatchedResource \<Rightarrow> 'a Resource list option \<Rightarrow>
     string list option \<Rightarrow> bool \<Rightarrow> 'a DeltaDiscoveryResponse" where
  "delta_response io tick push full w res deletedRes usedDelta =
     (let resources = (case res of None \<Rightarrow> [] | Some rs \<Rightarrow> rs)
      in \<lparr>ddr_TypeUrl = wr_TypeUrl w, ddr_SystemVersionInfo = pc_PushVersion push,
          ddr_Nonce = pc_PushVersion push @ io_uuid io tick, ddr_Resources = resources,
          ddr_RemovedResources = removed_resources usedDelta full deletedRes (wr_ResourceNames w) resources\<rparr>)"

lemma pushDeltaXds_generated:
  assumes "authorized s (io_now io (con_ticks con)) con" "con_proxy con = Some proxy"
    and "findGenerator s (wr_TypeUrl w) (Some con) = Some gen"
    and "run_generator gen proxy req (pushed_watch w req) = (res, deletedRes, usedDelta, e)"
  shows "pushDeltaXds s io con (Some w) req =
    (let con = con\<lparr>con_ticks := con_ticks con + 1\<rparr>; w = pushed_watch w req in
     if e \<noteq> None \<or> (Option.is_none res \<and> deletedRes = None) then Inr (e, con)
     else case pr_Push req of None \<Rightarrow> Inl NilDeref
       | Some push \<Rightarrow>
           let resp = delta_response io (con_ticks con) push (pr_Full req) w res deletedRes usedDelta
           in sendDelta io con resp (new_names w usedDelta (ddr_RemovedResources resp) (ddr_Resources resp)))"
proof -
  have "authorize_at s (io_now io (con_ticks con)) (Some con) = None"
    using assms(1) by (simp add: authorize_at_iff)
  moreover have "(if \<not> ResourceDelta_IsEmpty (pr_Delta req)
      then (zero_WatchedResource (wr_TypeUrl w))\<lparr>wr_ResourceNames := Subscribed (pr_Delta req)\<rparr> else w) = pushed_watch w req"
    by (simp add: pushed_watch_def)
  ultimately show ?thesis
    using assms(2-4) unfolding pushDeltaXds_def authorizeConnection_def delta_response_def
    by (simp add: Let_def cong: option.case_cong)
qed

text \<open>A push that hands a response to the stream, in full.\<close>

lemma pushDeltaXds_sent:
  assumes push: "pushDeltaXds s io con (Some w) req = Inr (None, con')"
    and sent: "con_sent con' = con_sent con @ [(t, Delta resp, None)]"
  obtains proxy gen res deletedRes usedDelta p where
    "con_proxy con = Some proxy" "authorized s (io_now io (con_ticks con)) con"
    "findGenerator s (wr_TypeUrl w) (Some con) = Some gen"
    "run_generator gen proxy req (pushed_watch w req) = (res, deletedRes, usedDelta, None)"
    "pr_Push req = Some p"
    "resp = delta_response io (con_ticks con + 1) p (pr_Full req) (pushed_watch w req) res deletedRes usedDelta"
    "tracked con' (wr_TypeUrl w) =
       (case new_names (pushed_watch w req) usedDelta (ddr_RemovedResources resp) (ddr_Resources resp) of
          None \<Rightarrow> tracked con (wr_TypeUrl w) | Some names \<Rightarrow> names)"
proof -
  have auth: "authorized s (io_now io (con_ticks con)) con"
    using push by (auto simp: pushDeltaXds_def authorizeConnection_def authorize_at_iff [symmetric] split: option.splits)
  then have none: "authorize_at s (io_now io (con_ticks con)) (Some con) = None" by (simp add: authorize_at_iff)
  obtain proxy where proxy: "con_proxy con = Some proxy" using auth by (auto simp: authorized_def)
  obtain gen where gen: "findGenerator s (wr_TypeUrl w) (Some con) = Some gen"
    using push sent none proxy
    by (cases "findGenerator s (wr_TypeUrl w) (Some con)") (auto simp: pushDeltaXds_def authorizeConnection_def)
  obtain res deletedRes usedDelta e where
    run: "run_generator gen proxy req (pushed_watch w req) = (res, deletedRes, usedDelta, e)"
    by (metis prod_cases4)
  note generated = pushDeltaXds_generated [OF auth proxy gen run] push
  have e: "e = None" and some: "\<not> (Option.is_none res \<and> deletedRes = None)"
    using generated sent by (auto simp: Let_def split: if_splits)
  obtain p where p: "pr_Push req = Some p"
    using generated e some by (cases "pr_Push req") (auto simp: Let_def split: if_splits)
  let ?con = "con\<lparr>con_ticks := con_ticks con + 1\<rparr>"
  let ?resp = "delta_response io (con_ticks con + 1) p (pr_Full req) (pushed_watch w req) res deletedRes usedDelta"
  have send: "sendDelta io ?con ?resp (new_names (pushed_watch w req) usedDelta (ddr_RemovedResources ?resp)
      (ddr_Resources ?resp)) = Inr (None, con')"
    using generated e some p by (simp add: Let_def split: if_splits)
  have "con_proxy ?con = Some proxy" using proxy by simp
  note after = tracked_after_send [OF send this]
  have url: "ddr_TypeUrl ?resp = wr_TypeUrl w" by (simp add: delta_response_def Let_def)
  have resp: "resp = ?resp" using after sent proxy by simp
  show thesis
    by (rule that [OF proxy auth gen run [unfolded e] p resp])
      (use conjunct2 [OF after] in \<open>simp only: resp url tracked_ticks\<close>)
qed

text \<open>The connection of the witnesses: a client that watches two routes.\<close>

definition example_route :: "string \<Rightarrow> unit Resource" where
  "example_route n = \<lparr>res_Name = n, res_Resource = ()\<rparr>"

definition example_route_generator :: "(unit, unit) generator" where
  "example_route_generator = ResourceGenerator (\<lambda>proxy w req.
     (Some (filter (\<lambda>r. res_Name r |\<in>| elems (wr_ResourceNames w)) [example_route ''a'', example_route ''b'']),
      \<lparr>Incremental = False, AdditionalInfo = []\<rparr>, None))"

definition example_server :: "(unit, unit) server" where
  "example_server = \<lparr>srv_Authorize = Some (\<lambda>_ _. None),
     srv_Generators = fmupd (''grpc/'' @ RouteType) example_route_generator fmempty,
     srv_ProxyNeedsPush = None, srv_GetProxyServiceTargets = \<lambda>_. []\<rparr>"

definition example_io :: io where
  "example_io = \<lparr>io_now = int, io_uuid = \<lambda>_. ''u'', io_send = \<lambda>_. None\<rparr>"

definition example_watch :: "unit Resource WatchedResource" where
  "example_watch = (zero_WatchedResource RouteType)\<lparr>wr_ResourceNames := Some {|''a'', ''b''|}\<rparr>"

definition example_proxy :: "(unit, unit) proxy" where
  "example_proxy = \<lparr>px_LastPushContext = None, px_LastPushTime = 0, px_Type = Inherent,
     px_WatchedResources = fmupd RouteType example_watch fmempty, px_ID = ''p'', px_DNSDomain = [],
     px_Metadata = Some \<lparr>nm_Generator = ''grpc'', nm_ClusterID = [], nm_Namespace = ''app''\<rparr>,
     px_IPAddresses = [], px_ConfigNamespace = ''app'', px_ServiceTargets = []\<rparr>"

definition example_con :: "(unit, unit) Connection" where
  "example_con = \<lparr>con_ID = ''c'', con_proxy = Some example_proxy, con_ids = [], con_authExpiry = zero_time,
     con_ticks = 0, con_sent = []\<rparr>"

definition example_full :: "string gset \<Rightarrow> unit PushContext PushRequest" where
  "example_full subscribed = zero_PushRequest\<lparr>pr_Full := True,
     pr_Push := Some \<lparr>pc_ConfigSnapshot = (), pc_PushVersion = ''v''\<rparr>,
     pr_Delta := \<lparr>Subscribed = subscribed, Unsubscribed = None\<rparr>\<rparr>"

lemmas example_con_defs = example_con_def example_proxy_def example_watch_def example_server_def example_io_def
  example_route_generator_def example_full_def example_route_def zero_PushRequest_def zero_WatchedResource_def

lemma example_con_facts:
  "con_proxy example_con = Some example_proxy" "con_ticks example_con = 0" "con_sent example_con = []"
  "wr_TypeUrl example_watch = RouteType" "pr_Full (example_full S)"
  "pr_Push (example_full S) = Some \<lparr>pc_ConfigSnapshot = (), pc_PushVersion = ''v''\<rparr>"
  "pr_Delta (example_full S) = \<lparr>Subscribed = S, Unsubscribed = None\<rparr>"
  "findGenerator example_server RouteType (Some example_con) = Some example_route_generator"
  "authorized example_server now example_con"
  "shouldSetWatchedResources (Some example_watch)"
  "tracked example_con RouteType = {|''a'', ''b''|}" "elems (wr_ResourceNames example_watch) = {|''a'', ''b''|}"
  "fst (snd (snd (run_generator example_route_generator proxy req v))) = False"
  by (simp_all add: example_con_defs findGenerator_def authorized_def shouldSetWatchedResources_def tracked_def
      GetWatchedResource_def)

lemma example_push:
  assumes names: "wr_ResourceNames (pushed_watch example_watch (example_full S)) = Some names"
  obtains con' resp where
    "pushDeltaXds example_server example_io example_con (Some example_watch) (example_full S) = Inr (None, con')"
    "con_sent con' = con_sent example_con @ [(1, Delta resp, None)]"
    "map res_Name (ddr_Resources resp) = filter (\<lambda>n. n |\<in>| names) [''a'', ''b'']"
proof -
  let ?w = "pushed_watch example_watch (example_full S)"
  let ?rs = "filter (\<lambda>r. res_Name r |\<in>| names) [example_route ''a'', example_route ''b'']"
  let ?con = "example_con\<lparr>con_ticks := con_ticks example_con + 1\<rparr>"
  let ?resp = "delta_response example_io (con_ticks ?con) \<lparr>pc_ConfigSnapshot = (), pc_PushVersion = ''v''\<rparr>
      (pr_Full (example_full S)) ?w (Some ?rs) None False"
  let ?names = "new_names ?w False (ddr_RemovedResources ?resp) (ddr_Resources ?resp)"
  have run: "run_generator example_route_generator example_proxy (example_full S) ?w = (Some ?rs, None, False, None)"
    using names by (simp add: example_route_generator_def)
  have gen: "findGenerator example_server (wr_TypeUrl example_watch) (Some example_con) = Some example_route_generator"
    by (simp add: example_con_facts)
  have push: "pushDeltaXds example_server example_io example_con (Some example_watch) (example_full S) =
      sendDelta example_io ?con ?resp ?names"
    using pushDeltaXds_generated [OF example_con_facts(9) example_con_facts(1) gen run, of example_io]
    by (simp add: Let_def example_con_facts(6))
  have "con_proxy ?con = Some example_proxy" "io_send example_io (con_ticks ?con) = None"
    by (simp_all add: example_con_facts example_io_def)
  note sent = sendDelta_ok [OF this, of ?resp ?names]
  have "map res_Name (ddr_Resources ?resp) = filter (\<lambda>n. n |\<in>| names) [''a'', ''b'']"
    unfolding delta_response_def Let_def by (simp add: example_route_def)
  then show thesis
    by (intro that [OF trans [OF push sent]]) (simp_all add: example_con_facts)
qed

section \<open>Properties\<close>

lemma removed_full: "fset_of_list (removed_resources False True deletedRes names res) =
    elems names |-| fset_of_list (map res_Name res)"
proof -
  have "fset_of_list (sorted_list_of_fset F) = F" for F :: "string fset"
    by (metis fset_inverse fset_of_list.rep_eq set_sorted_list_of_set finite_fset sorted_list_of_fset.rep_eq)
  moreover have "is_range (sorted_list_of_fset F) F" for F :: "string fset"
    using calculation by (simp add: is_range_def sorted_list_of_fset.rep_eq)
  ultimately show ?thesis
    by (simp add: removed_resources_def Let_def SortedList_eq)
qed



text \<open>
  C24: A subscription makes the server forget what the client already holds. When a client that holds
  resources of a type subscribes to others, the push that answers it is full and carries the
  names of the subscription; unless the generator reports a difference, the names recorded for
  the type become those of the resources sent. Every name the client held before that is neither
  part of the subscription nor sent again is still held by the client, and the server no longer
  knows.
\<close>

theorem subscription_forgets_held_names:
  assumes "pushDeltaXds s io con (Some w) req = Inr (None, con')"
    and "con_sent con' = con_sent con @ [(t, Delta resp, None)]"
    and "findGenerator s (wr_TypeUrl w) (Some con) = Some gen"
    and "\<And>proxy v. fst (snd (snd (run_generator gen proxy req v))) = False"
    and "shouldSetWatchedResources (Some w)" "pr_Full req" "\<not> ResourceDelta_IsEmpty (pr_Delta req)"
    and "name |\<in>| held" "name |\<notin>| elems (Subscribed (pr_Delta req))"
    and "name \<notin> set (map res_Name (ddr_Resources resp))"
  shows "name |\<in>| client_holds held resp \<and> name |\<notin>| tracked con' (wr_TypeUrl w)"
proof -
  obtain proxy gen' res deletedRes usedDelta p where
    gen: "findGenerator s (wr_TypeUrl w) (Some con) = Some gen'"
      "run_generator gen' proxy req (pushed_watch w req) = (res, deletedRes, usedDelta, None)"
    and "pr_Push req = Some p" and resp: "resp = delta_response io (con_ticks con + 1) p (pr_Full req) (pushed_watch w req) res deletedRes usedDelta"
    and tracked: "tracked con' (wr_TypeUrl w) =
       (case new_names (pushed_watch w req) usedDelta (ddr_RemovedResources resp) (ddr_Resources resp) of
          None \<Rightarrow> tracked con (wr_TypeUrl w) | Some names \<Rightarrow> names)"
    by (rule pushDeltaXds_sent [OF assms(1,2)]) blast
  have used: "\<not> usedDelta" using gen assms(3) assms(4) [of proxy "pushed_watch w req"] by simp
  have "shouldSetWatchedResources (Some (pushed_watch w req))"
    using assms(5) by (simp add: shouldSetWatchedResources_def)
  then have "tracked con' (wr_TypeUrl w) = fset_of_list (map res_Name (ddr_Resources resp))"
    using tracked used by (simp add: new_names_def resourceNamesSet_def)
  moreover have "fset_of_list (ddr_RemovedResources resp) |\<subseteq>| elems (Subscribed (pr_Delta req))"
    using assms(6,7) used by (auto simp: resp delta_response_def Let_def removed_full pushed_watch_def)
  ultimately show ?thesis using assms(8-10) by (auto simp: client_holds_def fset_of_list_elem)
qed

theorem subscription_forgets_held_names_witness:
  "\<exists>con' (resp :: unit DeltaDiscoveryResponse). pushDeltaXds example_server example_io example_con (Some example_watch) (example_full (Some {|''b''|})) =
       Inr (None, con') \<and>
     ''a'' |\<in>| client_holds {|''a'', ''b''|} resp \<and> ''a'' |\<notin>| tracked con' RouteType"
proof -
  have names: "wr_ResourceNames (pushed_watch example_watch (example_full (Some {|''b''|}))) = Some {|''b''|}"
    by (simp add: pushed_watch_def example_con_facts ResourceDelta_IsEmpty_def)
  obtain con' resp where push:
    "pushDeltaXds example_server example_io example_con (Some example_watch) (example_full (Some {|''b''|})) = Inr (None, con')"
    "con_sent con' = con_sent example_con @ [(1, Delta resp, None)]"
    "map res_Name (ddr_Resources resp) = [''b'']"
    using example_push [OF names] by auto
  have "''a'' |\<in>| client_holds {|''a'', ''b''|} resp \<and> ''a'' |\<notin>| tracked con' RouteType"
    using subscription_forgets_held_names [OF push(1,2), of example_route_generator "''a''" "{|''a'', ''b''|}"]
    by (simp add: example_con_facts ResourceDelta_IsEmpty_def push(3) del: set_map)
  with push(1,3) show ?thesis by (intro exI [of _ con'] exI [of _ resp]) simp
qed

text \<open>
  C25: What a request of an incremental stream does to the names of its type. A first request starts the
  watch with the names it subscribes to or says it holds; a later one that carries no nonce or the
  nonce of the last response adds those and drops the names it unsubscribes from, and a stale one
  changes nothing. The wildcard name is never kept. A response is due to a first request, and
  otherwise exactly when a name was new or was dropped, or the type was marked for a response; the
  watches of other types are untouched.
\<close>

theorem delta_request_handling:
  assumes "dreq_ErrorDetail request = None"
  shows "\<exists>respond proxy'. shouldRespondDelta proxy request = Inr (respond, proxy') \<and>
    (\<forall>url. url \<noteq> dreq_TypeUrl request \<longrightarrow> GetWatchedResource proxy' url = GetWatchedResource proxy url) \<and>
    (let names = (\<lambda>ws. map_option (\<lambda>w. elems (wr_ResourceNames w)) (GetWatchedResource ws (dreq_TypeUrl request)));
         added = fset_of_list (dreq_ResourceNamesSubscribe request) |\<union>| fmdom (dreq_InitialResourceVersions request);
         dropped = fset_of_list (dreq_ResourceNamesUnsubscribe request);
         nonce = dreq_ResponseNonce request
     in case GetWatchedResource proxy (dreq_TypeUrl request) of
          None \<Rightarrow> respond \<and> names proxy' = Some (added |-| dropped |-| {|''*''|})
        | Some w \<Rightarrow>
            let old = elems (wr_ResourceNames w) in
            if nonce \<noteq> [] \<and> nonce \<noteq> wr_NonceSent w then \<not> respond \<and> proxy' = proxy
            else names proxy' = Some ((old |\<union>| added) |-| dropped |-| {|''*''|}) \<and>
                 (respond \<longleftrightarrow> \<not> added |\<subseteq>| old \<or> (old |\<union>| added) |\<inter>| dropped \<noteq> {||} \<or> wr_AlwaysRespond w))"
proof (cases "GetWatchedResource proxy (dreq_TypeUrl request)")
  case None
  let ?w = "(zero_WatchedResource (dreq_TypeUrl request))
    \<lparr>wr_ResourceNames := Some (fst (deltaWatchedResources None request)),
     wr_Wildcard := fst (snd (deltaWatchedResources None request))\<rparr>"
  have "shouldRespondDelta proxy request = Inr (True, fmupd (dreq_TypeUrl request) ?w proxy)"
    using None assms by (simp add: shouldRespondDelta_def Let_def split: prod.splits)
  with None show ?thesis
    by (intro exI [of _ True] exI [of _ "fmupd (dreq_TypeUrl request) ?w proxy"])
      (simp add: deltaWatchedResources_eq added_names_def GetWatchedResource_def Let_def)
next
  case (Some w)
  show ?thesis
  proof (cases "dreq_ResponseNonce request \<noteq> [] \<and> dreq_ResponseNonce request \<noteq> wr_NonceSent w")
    case True
    then have "shouldRespondDelta proxy request = Inr (False, proxy)"
      using Some assms by (simp add: shouldRespondDelta_def)
    with Some True show ?thesis
      by (intro exI [of _ False] exI [of _ proxy]) (simp add: Let_def)
  next
    case False
    have "\<exists>w'. apply_delta request (dreq_ResponseNonce request = []) (Some w) = Inr (Some w') \<and>
        wr_ResourceNames w' = Some (fst (deltaWatchedResources (wr_ResourceNames w) request))"
      by (cases "deltaWatchedResources (wr_ResourceNames w) request") (simp add: apply_delta_def Let_def)
    then obtain w' where w': "apply_delta request (dreq_ResponseNonce request = []) (Some w) = Inr (Some w')"
        "wr_ResourceNames w' = Some (fst (deltaWatchedResources (wr_ResourceNames w) request))"
      by blast
    let ?respond = "snd (snd (deltaWatchedResources (wr_ResourceNames w) request)) \<or> wr_AlwaysRespond w"
    have "shouldRespondDelta proxy request = Inr (?respond, fmupd (dreq_TypeUrl request) w' proxy)"
      using Some assms False w'(1)
      by (auto simp: shouldRespondDelta_def GetWatchedResource_def UpdateWatchedResource_def Let_def split: prod.splits)
    moreover have "\<not> (dreq_ResponseNonce request \<noteq> [] \<and> dreq_ResponseNonce request \<noteq> wr_NonceSent w)"
      using False by blast
    ultimately show ?thesis
      unfolding Some Let_def option.case if_not_P [OF \<open>\<not> (_ \<and> _)\<close>] using w'(2)
      by (intro exI [of _ ?respond] exI [of _ "fmupd (dreq_TypeUrl request) w' proxy"])
        (auto simp: deltaWatchedResources_eq added_names_def GetWatchedResource_def)
  qed
qed

definition example_delta_request :: DeltaDiscoveryRequest where
  "example_delta_request =
     \<lparr>dreq_TypeUrl = RouteType, dreq_ResourceNamesSubscribe = [''c'', ''*''], dreq_ResourceNamesUnsubscribe = [''a''],
      dreq_InitialResourceVersions = fmempty, dreq_ResponseNonce = [], dreq_ErrorDetail = None\<rparr>"

theorem delta_request_handling_witness:
  "\<exists>proxy'. shouldRespondDelta (px_WatchedResources example_proxy) example_delta_request = Inr (True, proxy') \<and>
     map_option (\<lambda>w. elems (wr_ResourceNames w)) (GetWatchedResource proxy' RouteType) = Some {|''b'', ''c''|}"
proof -
  have "GetWatchedResource (px_WatchedResources example_proxy) RouteType = Some example_watch"
    by (simp add: example_proxy_def GetWatchedResource_def)
  moreover have "{|''a'', ''b'', ''c'', ''*''|} |-| {|''a''|} |-| {|''*''|} = {|''b'', ''c''|}"
    by auto
  moreover have "{|''a'', ''b''|} |\<union>| (fset_of_list [''c'', ''*''] |\<union>| fmdom fmempty) = {|''a'', ''b'', ''c'', ''*''|}"
    by auto
  ultimately show ?thesis
    using delta_request_handling [of example_delta_request "px_WatchedResources example_proxy"]
    by (clarsimp simp: example_delta_request_def example_con_facts(12) Let_def simp del: fset_of_list_simps fmdom_empty)
      (simp add: fset_of_list.rep_eq)
qed

text \<open>A report of a rejected response for a type that is not watched dereferences \<^verbatim>\<open>nil\<close>.\<close>

lemma delta_error_panics:
  assumes "dreq_ErrorDetail request = Some (c, m)" "GetWatchedResource proxy (dreq_TypeUrl request) = None"
  shows "shouldRespondDelta proxy request = Inl NilDeref"
  using assms by (simp add: shouldRespondDelta_def UpdateWatchedResource_def GetWatchedResource_def record_error_def)

end
