(* ===== verification/PushXds.thy ===== *)
theory PushXds
  imports Delta HostNames
begin

text \<open>
  Pushes of the state-of-the-world protocol: \<^verbatim>\<open>dubbod/discovery/pkg/xds/xdsgen.go\<close>, with \<^verbatim>\<open>processRequest\<close>
  and \<^verbatim>\<open>pushConnection\<close> of \<^verbatim>\<open>ads.go\<close>. The decoding of protocol buffer messages is a parameter, the record
  \<open>proto\<close>; a decoder that fails gives \<^verbatim>\<open>None\<close>. Lists made from Go sets come in an unspecified order and
  are only used as sets, so the names extracted from resources are finite sets here. The watch
  given to \<^verbatim>\<open>pushXds\<close> is a pointer to the entry of the proxy for its type: an assignment to its names
  is written to the entry as well.
\<close>

section \<open>Names referenced by resources\<close>

datatype route_specifier = Rds "string option" | InlineRoutes

record 'a Filter =
  fl_Name :: string
  fl_TypedConfig :: "'a option"

record 'a Listener =
  li_FilterChains :: "'a Filter list list"
  li_ApiListener :: "'a option option"

datatype cluster_type = Cluster_EDS | Cluster_OtherType | Cluster_Custom

record ClusterMsg =
  cl_Name :: string
  cl_ClusterDiscoveryType :: "cluster_type option"

text \<open>The decoder of an HTTP connection manager gives its route specifier, which may be \<^verbatim>\<open>nil\<close>.\<close>

record 'a proto =
  pb_Listener :: "'a \<Rightarrow> 'a Listener option"
  pb_HttpConnectionManager :: "'a \<Rightarrow> route_specifier option option"
  pb_Cluster :: "'a \<Rightarrow> ClusterMsg option"

definition inboundListenerPrefix :: string where
  "inboundListenerPrefix = ''xds.dubbo.apache.org/grpc/lds/inbound/''"

text \<open>The name of the cluster or route of an outbound listener named \<^verbatim>\<open>hostname:port\<close>.\<close>

definition outbound_key :: "string \<Rightarrow> string option" where
  "outbound_key listenerName =
     (if Contains_str listenerName '':'' \<and> \<not> HasPrefix listenerName inboundListenerPrefix
      then case Split listenerName (CHR '':'') of
             [hostname, portStr] \<Rightarrow>
               (let (port, ok) = Atoi portStr
                in if ok then Some (BuildSubsetKey TrafficDirectionOutbound [] hostname port) else None)
           | _ \<Rightarrow> None
      else None)"

definition opt_set :: "string option \<Rightarrow> string fset" where
  "opt_set x = (case x of None \<Rightarrow> {||} | Some n \<Rightarrow> {|n|})"

fun extractClusterNamesFromLDS :: "'a Resource list \<Rightarrow> string fset" where
  "extractClusterNamesFromLDS [] = {||}"
| "extractClusterNamesFromLDS (r # rs) = opt_set (outbound_key (res_Name r)) |\<union>| extractClusterNamesFromLDS rs"

text \<open>The route name of a connection manager, when it uses RDS and names one.\<close>

definition rds_name :: "route_specifier option \<Rightarrow> string option" where
  "rds_name spec = (case spec of Some (Rds (Some routeName)) \<Rightarrow> if routeName \<noteq> [] then Some routeName else None | _ \<Rightarrow> None)"

fun filter_route_names :: "'a proto \<Rightarrow> 'a Filter list \<Rightarrow> string fset" where
  "filter_route_names pb [] = {||}"
| "filter_route_names pb (f # fs) =
     (if fl_Name f = ''http_connection_manager''
      then case (case fl_TypedConfig f of None \<Rightarrow> None | Some a \<Rightarrow> pb_HttpConnectionManager pb a) of
             None \<Rightarrow> {||}
           | Some spec \<Rightarrow> opt_set (rds_name spec)
      else {||}) |\<union>| filter_route_names pb fs"

text \<open>
  One listener. When the API listener cannot be decoded the iteration ends, before the name of the
  listener is looked at.
\<close>

definition listener_route_names :: "'a proto \<Rightarrow> 'a Resource \<Rightarrow> string fset" where
  "listener_route_names pb r =
     (case pb_Listener pb (res_Resource r) of
        None \<Rightarrow> {||}
      | Some ll \<Rightarrow>
          let chains = filter_route_names pb (concat (li_FilterChains ll)) in
          case li_ApiListener ll of
            Some (Some a) \<Rightarrow>
              (case pb_HttpConnectionManager pb a of
                 None \<Rightarrow> chains
               | Some spec \<Rightarrow> chains |\<union>| opt_set (rds_name spec) |\<union>| opt_set (outbound_key (res_Name r)))
          | _ \<Rightarrow> chains |\<union>| opt_set (outbound_key (res_Name r)))"

fun extractRouteNamesFromLDS :: "'a proto \<Rightarrow> 'a Resource list \<Rightarrow> string fset" where
  "extractRouteNamesFromLDS pb [] = {||}"
| "extractRouteNamesFromLDS pb (r # rs) = listener_route_names pb r |\<union>| extractRouteNamesFromLDS pb rs"

fun extractEDSClusterNamesFromCDS :: "'a proto \<Rightarrow> 'a Resource list \<Rightarrow> string fset" where
  "extractEDSClusterNamesFromCDS pb [] = {||}"
| "extractEDSClusterNamesFromCDS pb (r # rs) =
     (case pb_Cluster pb (res_Resource r) of
        None \<Rightarrow> {||}
      | Some cl \<Rightarrow> if cl_ClusterDiscoveryType cl = Some Cluster_EDS then {|cl_Name cl|} else {||}) |\<union>|
     extractEDSClusterNamesFromCDS pb rs"

section \<open>One push\<close>

definition xdsNeedsPush :: "'p PushRequest option \<Rightarrow> bool \<times> bool" where
  "xdsNeedsPush req =
     (case req of None \<Rightarrow> (True, True) | Some r \<Rightarrow> if pr_Forced r then (True, True) else (False, False))"

fun Generate_of :: "('a, 'cs) generator \<Rightarrow> ('a, 'cs) generate" where
  "Generate_of (ResourceGenerator g) = g"
| "Generate_of (DeltaResourceGenerator g _) = g"

definition follow_up_request ::
    "TriggerReason \<Rightarrow> ('a, 'cs) proxy \<Rightarrow> 'cs PushContext PushRequest \<Rightarrow> 'cs PushContext PushRequest" where
  "follow_up_request why proxy req =
     zero_PushRequest\<lparr>pr_Full := True, pr_Push := pr_Push req, pr_Reason := Some (NewReasonStats [why]),
       pr_Start := px_LastPushTime proxy, pr_Forced := False\<rparr>"

text \<open>The names a parent resource that was already sent refers to, found by generating it again.\<close>

definition parent_names ::
    "('a, 'cs) server \<Rightarrow> ('a, 'cs) Connection \<Rightarrow> ('a, 'cs) proxy \<Rightarrow> 'cs PushContext PushRequest \<Rightarrow> string \<Rightarrow>
     ('a Resource list \<Rightarrow> string fset) \<Rightarrow> string fset" where
  "parent_names s con proxy req parentType extract =
     (case GetWatchedResource (px_WatchedResources proxy) parentType of
        None \<Rightarrow> {||}
      | Some watched \<Rightarrow>
          if wr_NonceSent watched = [] then {||}
          else case findGenerator s parentType (Some con) of
            None \<Rightarrow> {||}
          | Some gen \<Rightarrow>
              (case Generate_of gen proxy watched (follow_up_request DependentResource proxy req) of
                 (Some res, _, _) \<Rightarrow> if length res > 0 then extract res else {||}
               | _ \<Rightarrow> {||}))"

definition wildcard_names ::
    "'a proto \<Rightarrow> ('a, 'cs) server \<Rightarrow> ('a, 'cs) Connection \<Rightarrow> ('a, 'cs) proxy \<Rightarrow> 'cs PushContext PushRequest \<Rightarrow> string \<Rightarrow>
     string fset" where
  "wildcard_names pb s con proxy req typeUrl =
     (if typeUrl = ClusterType then parent_names s con proxy req ListenerType extractClusterNamesFromLDS
      else if typeUrl = EndpointType then parent_names s con proxy req ClusterType (extractEDSClusterNamesFromCDS pb)
      else if typeUrl = RouteType then parent_names s con proxy req ListenerType (extractRouteNamesFromLDS pb)
      else {||})"

text \<open>
  The names a gRPC client is meant to receive, and the proxy and watch with the derived names
  written to the watch. The empty set stands for \<^verbatim>\<open>nil\<close>: only its length is tested.
\<close>

definition requested_names ::
    "'a proto \<Rightarrow> ('a, 'cs) server \<Rightarrow> ('a, 'cs) Connection \<Rightarrow> ('a, 'cs) proxy \<Rightarrow> 'a Resource WatchedResource \<Rightarrow>
     'cs PushContext PushRequest \<Rightarrow> string fset \<times> ('a, 'cs) proxy \<times> 'a Resource WatchedResource" where
  "requested_names pb s con proxy w req =
     (if \<not> IsInherentGrpc proxy then ({||}, proxy, w)
      else if Len (wr_ResourceNames w) > 0 then (elems (wr_ResourceNames w), proxy, w)
      else
        let names = wildcard_names pb s con proxy req (wr_TypeUrl w) in
        if names = {||} then ({||}, proxy, w)
        else let w = w\<lparr>wr_ResourceNames := Some names\<rparr>
             in (names, proxy\<lparr>px_WatchedResources := fmupd (wr_TypeUrl w) w (px_WatchedResources proxy)\<rparr>, w))"

definition filter_requested :: "bool \<Rightarrow> string fset \<Rightarrow> 'a Resource list \<Rightarrow> 'a Resource list" where
  "filter_requested grpc requested res =
     (if grpc \<and> requested \<noteq> {||} then
        let filteredRes = filter (\<lambda>r. res_Name r |\<in>| requested) res
        in if length filteredRes \<noteq> length res then filteredRes else res
      else res)"

definition set_nonce :: "string \<Rightarrow> 'r update_fn" where
  "set_nonce nonce wr = Inr (map_option (\<lambda>wr. wr\<lparr>wr_NonceSent := nonce\<rparr>) wr)"

text \<open>\<^verbatim>\<open>xds.Send\<close> on the stream of a connection, and the update of the nonce that follows it.\<close>

definition send_sotw :: "io \<Rightarrow> ('a, 'cs) Connection \<Rightarrow> 'a DiscoveryResponse \<Rightarrow> ('a, 'cs) push_result" where
  "send_sotw io con resp =
     (case hand_to_stream io con (Sotw resp) of
        (sendErr, con') \<Rightarrow>
          case con_proxy con' of None \<Rightarrow> Inl NilDeref
          | Some proxy \<Rightarrow>
              (case Send proxy_watcher (px_WatchedResources proxy) (dr_TypeUrl resp) (dr_Nonce resp) sendErr
                      (io_now io (con_ticks con)) of
                 Inl p \<Rightarrow> Inl p
               | Inr (Some e, ws) \<Rightarrow> Inr (Some e, con'\<lparr>con_proxy := Some (proxy\<lparr>px_WatchedResources := ws\<rparr>)\<rparr>)
               | Inr (None, ws) \<Rightarrow>
                   map_sum id (Pair None)
                     (update_watch (con'\<lparr>con_proxy := Some (proxy\<lparr>px_WatchedResources := ws\<rparr>)\<rparr>)
                        (dr_TypeUrl resp) (set_nonce (dr_Nonce resp)))))"

text \<open>The watch given to the generator: for a client that is not gRPC, only the names just subscribed to.\<close>

definition generated_watch ::
    "('a, 'cs) proxy \<Rightarrow> 'a Resource WatchedResource \<Rightarrow> 'cs PushContext PushRequest \<Rightarrow> 'a Resource WatchedResource" where
  "generated_watch proxy w req =
     (if \<not> ResourceDelta_IsEmpty (pr_Delta req) \<and> \<not> IsInherentGrpc proxy
      then (zero_WatchedResource (wr_TypeUrl w))\<lparr>wr_ResourceNames := Subscribed (pr_Delta req)\<rparr> else w)"

text \<open>
  The part of \<^verbatim>\<open>pushXds\<close> up to and including the response. The result is an outcome for the caller,
  or the connection with the resources that were sent.
\<close>

datatype ('a, 'cs) pushed =
  Returned "panic + (err option \<times> ('a, 'cs) Connection)"
| Sent "('a, 'cs) Connection" "'a Resource list"

definition push_one ::
    "'a proto \<Rightarrow> ('a, 'cs) server \<Rightarrow> io \<Rightarrow> ('a, 'cs) Connection \<Rightarrow> 'a Resource WatchedResource option \<Rightarrow>
     'cs PushContext PushRequest \<Rightarrow> ('a, 'cs) pushed" where
  "push_one pb s io con w req =
     (case authorizeConnection s io con of
        (Some e, con) \<Rightarrow> Returned (Inr (Some e, con))
      | (None, con) \<Rightarrow>
        (case (w, con_proxy con) of
           (Some w, Some proxy) \<Rightarrow>
             (case findGenerator s (wr_TypeUrl w) (Some con) of
                None \<Rightarrow> Returned (Inr (None, con))
              | Some gen \<Rightarrow>
                  let (requested, proxy, w) = requested_names pb s con proxy w req;
                      con = con\<lparr>con_proxy := Some proxy\<rparr>
                  in case Generate_of gen proxy (generated_watch proxy w req) req of
                       (_, _, Some e) \<Rightarrow> Returned (Inr (Some e, con))
                     | (None, _, None) \<Rightarrow> Returned (Inr (None, con))
                     | (Some res, _, None) \<Rightarrow>
                         let res = filter_requested (IsInherentGrpc proxy) requested res in
                         case pr_Push req of
                           None \<Rightarrow> Returned (Inl NilDeref)
                         | Some push \<Rightarrow>
                             (case send_sotw io con
                                     \<lparr>dr_TypeUrl = wr_TypeUrl w, dr_VersionInfo = pc_PushVersion push,
                                      dr_Nonce = pc_PushVersion push @ io_uuid io (con_ticks con),
                                      dr_Resources = map res_Resource res\<rparr> of
                                Inr (None, con) \<Rightarrow> Sent con res
                              | r \<Rightarrow> Returned r))
         | _ \<Rightarrow> Returned (Inr (None, con))))"

text \<open>Adds names to a watch, creating it if need be.\<close>

definition add_names :: "string \<Rightarrow> string fset \<Rightarrow> 'r update_fn" where
  "add_names url names wr =
     (let wr = (case wr of None \<Rightarrow> (zero_WatchedResource url)\<lparr>wr_ResourceNames := Some {||}\<rparr> | Some wr \<Rightarrow> wr)
      in Inr (Some (wr\<lparr>wr_ResourceNames := Some (elems (wr_ResourceNames wr) |\<union>| names)\<rparr>)))"

definition new_watch :: "('a, 'cs) Connection \<Rightarrow> ('a, 'cs) proxy \<Rightarrow> string \<Rightarrow> string fset \<Rightarrow> ('a, 'cs) Connection" where
  "new_watch con proxy url names =
     con\<lparr>con_proxy := Some (proxy\<lparr>px_WatchedResources :=
       NewWatchedResource (px_WatchedResources proxy) url (sorted_list_of_fset names)\<rparr>)\<rparr>"

definition unwatched :: "'r WatchedResource option \<Rightarrow> bool" where
  "unwatched w \<longleftrightarrow> (case w of None \<Rightarrow> True | Some w \<Rightarrow> Len (wr_ResourceNames w) = 0)"

text \<open>After a cluster response to a gRPC client: its endpoints are watched, and not pushed.\<close>

definition watch_endpoints ::
    "'a proto \<Rightarrow> ('a, 'cs) Connection \<Rightarrow> 'a Resource list \<Rightarrow> panic + ('a, 'cs) Connection" where
  "watch_endpoints pb con res =
     (let names = extractEDSClusterNamesFromCDS pb res in
      if names = {||} then Inr con
      else case con_proxy con of None \<Rightarrow> Inl NilDeref
        | Some proxy \<Rightarrow>
          (case GetWatchedResource (px_WatchedResources proxy) EndpointType of
             None \<Rightarrow> Inr (new_watch con proxy EndpointType names)
           | Some edsWatched \<Rightarrow>
               if names |\<subseteq>| elems (wr_ResourceNames edsWatched) then Inr con
               else update_watch con EndpointType (add_names EndpointType names)))"

text \<open>Runs the rest after a push whose error is only logged.\<close>

definition and_then ::
    "('a, 'cs) push_result option \<Rightarrow> (('a, 'cs) Connection \<Rightarrow> ('a, 'cs) push_result option) \<Rightarrow>
     ('a, 'cs) push_result option" where
  "and_then r k = (case r of None \<Rightarrow> None | Some (Inl p) \<Rightarrow> Some (Inl p) | Some (Inr (_, con)) \<Rightarrow> k con)"

text \<open>
  After a listener response to a request of a gRPC client: the clusters and routes it refers to are
  pushed as well. The argument \<open>push\<close> is the recursive call.
\<close>

type_synonym ('a, 'cs) pusher =
  "('a, 'cs) Connection \<Rightarrow> 'a Resource WatchedResource option \<Rightarrow> 'cs PushContext PushRequest \<Rightarrow> ('a, 'cs) push_result option"

definition push_watch ::
    "('a, 'cs) pusher \<Rightarrow> string \<Rightarrow> TriggerReason \<Rightarrow> 'cs PushContext PushRequest \<Rightarrow> ('a, 'cs) Connection \<Rightarrow>
     ('a, 'cs) push_result option" where
  "push_watch push url why req con =
     (case con_proxy con of None \<Rightarrow> Some (Inl NilDeref)
      | Some proxy \<Rightarrow> push con (GetWatchedResource (px_WatchedResources proxy) url) (follow_up_request why proxy req))"

definition push_clusters ::
    "('a, 'cs) pusher \<Rightarrow> 'cs PushContext PushRequest \<Rightarrow> string fset \<Rightarrow> ('a, 'cs) Connection \<Rightarrow> ('a, 'cs) push_result option" where
  "push_clusters push req clusterNames con =
     (if clusterNames = {||} then Some (Inr (None, con))
      else case con_proxy con of None \<Rightarrow> Some (Inl NilDeref)
        | Some proxy \<Rightarrow>
            if unwatched (GetWatchedResource (px_WatchedResources proxy) ClusterType)
            then push_watch push ClusterType ProxyRequest req (new_watch con proxy ClusterType clusterNames)
            else Some (Inr (None, con)))"

definition push_routes ::
    "('a, 'cs) pusher \<Rightarrow> 'cs PushContext PushRequest \<Rightarrow> string fset \<Rightarrow> ('a, 'cs) Connection \<Rightarrow> ('a, 'cs) push_result option" where
  "push_routes push req routeNames con =
     (if routeNames = {||} then Some (Inr (None, con))
      else case con_proxy con of None \<Rightarrow> Some (Inl NilDeref)
        | Some proxy \<Rightarrow>
          (case GetWatchedResource (px_WatchedResources proxy) RouteType of
             Some rdsWatched \<Rightarrow>
               if Len (wr_ResourceNames rdsWatched) = 0
               then push_watch push RouteType ProxyRequest req (new_watch con proxy RouteType routeNames)
               else if routeNames |\<subseteq>| elems (wr_ResourceNames rdsWatched) then Some (Inr (None, con))
               else (case update_watch con RouteType (add_names RouteType routeNames) of
                       Inl p \<Rightarrow> Some (Inl p)
                     | Inr con \<Rightarrow> push_watch push RouteType DependentResource req con)
           | None \<Rightarrow> push_watch push RouteType ProxyRequest req (new_watch con proxy RouteType routeNames)))"

definition push_referenced ::
    "'a proto \<Rightarrow> ('a, 'cs) pusher \<Rightarrow> 'cs PushContext PushRequest \<Rightarrow> 'a Resource list \<Rightarrow> ('a, 'cs) Connection \<Rightarrow>
     ('a, 'cs) push_result option" where
  "push_referenced pb push req res con =
     and_then (push_clusters push req (extractClusterNamesFromLDS res) con)
       (\<lambda>con. and_then (push_routes push req (extractRouteNamesFromLDS pb res) con) (\<lambda>con. Some (Inr (None, con))))"

definition con_grpc :: "('a, 'cs) Connection \<Rightarrow> bool" where
  "con_grpc con \<longleftrightarrow> (case con_proxy con of None \<Rightarrow> False | Some proxy \<Rightarrow> IsInherentGrpc proxy)"

definition after_listeners ::
    "'a proto \<Rightarrow> ('a, 'cs) pusher \<Rightarrow> 'cs PushContext PushRequest \<Rightarrow> string \<Rightarrow> 'a Resource list \<Rightarrow> ('a, 'cs) Connection \<Rightarrow>
     ('a, 'cs) push_result option" where
  "after_listeners pb push req url res con =
     (if url = ListenerType \<and> con_grpc con \<and> length res > 0 \<and> IsRequest req
      then push_referenced pb push req res con else Some (Inr (None, con)))"

definition after_clusters ::
    "'a proto \<Rightarrow> string \<Rightarrow> 'a Resource list \<Rightarrow> ('a, 'cs) Connection \<Rightarrow> ('a, 'cs) push_result" where
  "after_clusters pb url res con =
     (if url = ClusterType \<and> con_grpc con \<and> length res > 0
      then map_sum id (Pair None) (watch_endpoints pb con res) else Inr (None, con))"

text \<open>
  The recursion of \<^verbatim>\<open>pushXds\<close> is bounded by fuel, \<^verbatim>\<open>None\<close> when it runs out. Two levels are enough: only the
  push of listeners calls others, and those are not listeners.
\<close>

fun pushXds_fuel :: "nat \<Rightarrow> 'a proto \<Rightarrow> ('a, 'cs) server \<Rightarrow> io \<Rightarrow> ('a, 'cs) pusher" where
  "pushXds_fuel 0 pb s io con w req = None"
| "pushXds_fuel (Suc n) pb s io con w req =
     (case push_one pb s io con w req of
        Returned r \<Rightarrow> Some r
      | Sent con res \<Rightarrow>
          let url = (case w of None \<Rightarrow> [] | Some w \<Rightarrow> wr_TypeUrl w) in
          and_then (after_listeners pb (pushXds_fuel n pb s io) req url res con)
            (\<lambda>con. Some (after_clusters pb url res con)))"

definition pushXds ::
    "'a proto \<Rightarrow> ('a, 'cs) server \<Rightarrow> io \<Rightarrow> ('a, 'cs) Connection \<Rightarrow> 'a Resource WatchedResource option \<Rightarrow>
     'cs PushContext PushRequest \<Rightarrow> ('a, 'cs) push_result option" where
  "pushXds pb s io con w req = pushXds_fuel 2 pb s io con w req"

section \<open>Requests and push events\<close>

definition sotw_push_request ::
    "('a, 'cs) proxy \<Rightarrow> ResourceDelta \<Rightarrow> 'cs PushContext PushRequest" where
  "sotw_push_request proxy delta =
     zero_PushRequest\<lparr>pr_Full := True, pr_Push := px_LastPushContext proxy,
       pr_Reason := Some (NewReasonStats [ProxyRequest]), pr_Start := px_LastPushTime proxy,
       pr_Delta := delta, pr_Forced := False\<rparr>"

definition processRequest ::
    "'a proto \<Rightarrow> ('a, 'cs) server \<Rightarrow> io \<Rightarrow> DiscoveryRequest \<Rightarrow> ('a, 'cs) Connection \<Rightarrow> ('a, 'cs) push_result option" where
  "processRequest pb s io req con =
     (case authorizeConnection s io con of
        (Some e, con) \<Rightarrow> Some (Inr (Some e, con))
      | (None, con) \<Rightarrow>
          if Option.is_none (findGenerator s (req_TypeUrl req) (Some con))
          then Some (Inr (Some (Status InvalidArgument ''unsupported xDS resource type''), con))
          else case con_proxy con of None \<Rightarrow> Some (Inl NilDeref)
            | Some proxy \<Rightarrow>
              (case ShouldRespond proxy_watcher (px_WatchedResources proxy) req of
                 Inl p \<Rightarrow> Some (Inl p)
               | Inr (respond, delta, ws) \<Rightarrow>
                   let con = con\<lparr>con_proxy := Some (proxy\<lparr>px_WatchedResources := ws\<rparr>)\<rparr> in
                   if \<not> respond then Some (Inr (None, con))
                   else
                     let ws = (case GetWatchedResource ws (req_TypeUrl req) of
                                 None \<Rightarrow> NewWatchedResource ws (req_TypeUrl req) (req_ResourceNames req)
                               | Some _ \<Rightarrow> ws);
                         proxy = proxy\<lparr>px_WatchedResources := ws\<rparr>;
                         con = con\<lparr>con_proxy := Some proxy\<rparr>
                     in pushXds pb s io con (GetWatchedResource ws (req_TypeUrl req)) (sotw_push_request proxy delta)))"

fun push_watches ::
    "'a proto \<Rightarrow> ('a, 'cs) server \<Rightarrow> io \<Rightarrow> 'cs PushContext PushRequest \<Rightarrow> string list \<Rightarrow> ('a, 'cs) Connection \<Rightarrow>
     ('a, 'cs) push_result option" where
  "push_watches pb s io req [] con = Some (Inr (None, con))"
| "push_watches pb s io req (url # urls) con =
     (case con_proxy con of None \<Rightarrow> Some (Inl NilDeref)
      | Some proxy \<Rightarrow>
        (case pushXds pb s io con (GetWatchedResource (px_WatchedResources proxy) url) req of
           Some (Inr (None, con)) \<Rightarrow> push_watches pb s io req urls con
         | r \<Rightarrow> r))"

definition pushConnection ::
    "'a proto \<Rightarrow> ('a, 'cs) server \<Rightarrow> io \<Rightarrow> string list \<Rightarrow> ('a, 'cs) Connection \<Rightarrow> 'cs PushContext PushRequest option \<Rightarrow>
     ('a, 'cs) push_result option" where
  "pushConnection pb s io ks con pushRequest =
     (case (con_proxy con, pushRequest) of
        (Some proxy, Some req) \<Rightarrow>
          (case (if pr_Full req then computeProxyState (srv_GetProxyServiceTargets s) proxy (Some req) else Inr proxy) of
             Inl p \<Rightarrow> Some (Inl p)
           | Inr proxy \<Rightarrow>
               let con = con\<lparr>con_proxy := Some proxy\<rparr>;
                   (req, needsPush) = (case srv_ProxyNeedsPush s of None \<Rightarrow> (req, True) | Some f \<Rightarrow> f proxy req)
               in if \<not> needsPush then Some (Inr (None, con))
                  else push_watches pb s io req
                    (map wr_TypeUrl (watchedResourcesByOrder ks (px_WatchedResources proxy))) con)
      | _ \<Rightarrow> Some (Inr (None, con)))"

section \<open>Watches are stored under their type\<close>

definition keyed :: "'r watches \<Rightarrow> bool" where
  "keyed ws \<longleftrightarrow> (\<forall>url w. fmlookup ws url = Some w \<longrightarrow> wr_TypeUrl w = url)"

definition con_keyed :: "('a, 'cs) Connection \<Rightarrow> bool" where
  "con_keyed con \<longleftrightarrow> (case con_proxy con of None \<Rightarrow> True | Some proxy \<Rightarrow> keyed (px_WatchedResources proxy))"

definition keeps_type :: "string \<Rightarrow> 'r update_fn \<Rightarrow> bool" where
  "keeps_type url f \<longleftrightarrow>
     (\<forall>w w'. (\<forall>v. w = Some v \<longrightarrow> wr_TypeUrl v = url) \<longrightarrow> f w = Inr (Some w') \<longrightarrow> wr_TypeUrl w' = url)"

lemma keyed_fmupd [intro]: "keyed ws \<Longrightarrow> wr_TypeUrl w = url \<Longrightarrow> keyed (fmupd url w ws)"
  by (auto simp: keyed_def)

lemma keyed_NewWatchedResource [intro]: "keyed ws \<Longrightarrow> keyed (NewWatchedResource ws url names)"
  by (auto simp: NewWatchedResource_def zero_WatchedResource_def)

lemma keyed_DeleteWatchedResource [intro]: "keyed ws \<Longrightarrow> keyed (DeleteWatchedResource ws url)"
  by (auto simp: keyed_def DeleteWatchedResource_def split: if_splits)

lemma keyed_UpdateWatchedResource:
  assumes "keyed ws" "keeps_type url f" "UpdateWatchedResource ws url f = Inr ws'"
  shows "keyed ws'"
proof -
  have "wr_TypeUrl w = url" if "f (fmlookup ws url) = Inr (Some w)" for w
    using assms(1,2) that unfolding keeps_type_def keyed_def by metis
  then show ?thesis
    using assms(1,3) by (auto simp: UpdateWatchedResource_def keyed_def split: sum.splits option.splits if_splits)
qed

lemma keeps_type_updates [simp, intro]:
  "keeps_type url (record_error m)" "keeps_type url (keep_watch n)" "keeps_type url (change_names s)"
  "keeps_type url (accept_ack n names)" "keeps_type url (restore_names s)" "keeps_type url (record_sent url n now)"
  "keeps_type url (set_nonce n)" "keeps_type url (add_names url ns)" "keeps_type url (apply_delta r b)"
  "keeps_type url (record_delta_sent url n s now)"
  by (auto simp: keeps_type_def record_error_def keep_watch_def change_names_def accept_ack_def restore_names_def
      record_sent_def set_nonce_def add_names_def apply_delta_def record_delta_sent_def zero_WatchedResource_def Let_def
      split: option.splits prod.splits if_splits)

lemma update_watch_obtain:
  assumes "update_watch con url f = Inr con'"
  obtains proxy ws where "con_proxy con = Some proxy"
    "UpdateWatchedResource (px_WatchedResources proxy) url f = Inr ws"
    "con' = con\<lparr>con_proxy := Some (proxy\<lparr>px_WatchedResources := ws\<rparr>)\<rparr>"
  using assms by (auto simp: update_watch_def map_sum_def split: option.splits sum.splits)

section \<open>What every handler keeps\<close>

text \<open>
  \<open>permitted\<close> is a successful authorization of a proxy with the given identity at a time; \<open>advance\<close>
  is what every operation on a connection guarantees: the identities, the expiry and the identity of
  the proxy stay, watches stay under their types, and responses are only added, each right after
  an authorization.
\<close>

definition proxy_ident :: "('r, 'p) Proxy \<Rightarrow> string \<times> string \<times> NodeMetadata option" where
  "proxy_ident proxy = (px_Type proxy, px_ID proxy, px_Metadata proxy)"

definition con_ident :: "('a, 'cs) Connection \<Rightarrow> string list \<times> time \<times> (string \<times> string \<times> NodeMetadata option) option" where
  "con_ident con = (con_ids con, con_authExpiry con, map_option proxy_ident (con_proxy con))"

definition permitted ::
    "('a, 'cs) server \<Rightarrow> time \<Rightarrow> string list \<times> time \<times> (string \<times> string \<times> NodeMetadata option) option \<Rightarrow> bool" where
  "permitted s now ident \<longleftrightarrow>
     (case ident of (ids, expiry, who) \<Rightarrow>
        (expiry = zero_time \<or> now < expiry) \<and>
        (\<exists>proxy authorize. who = Some (proxy_ident proxy) \<and> srv_Authorize s = Some authorize \<and> authorize proxy ids = None))"

definition sent_permitted :: "('a, 'cs) server \<Rightarrow> io \<Rightarrow> ('a, 'cs) Connection \<Rightarrow> nat \<times> 'a response \<times> err option \<Rightarrow> bool" where
  "sent_permitted s io con entry \<longleftrightarrow> (case entry of (t, _, _) \<Rightarrow> t > 0 \<and> permitted s (io_now io (t - 1)) (con_ident con))"

definition advance :: "('a, 'cs) server \<Rightarrow> io \<Rightarrow> ('a, 'cs) Connection \<Rightarrow> ('a, 'cs) Connection \<Rightarrow> bool" where
  "advance s io con con' \<longleftrightarrow>
     con_ident con' = con_ident con \<and> con_ID con' = con_ID con \<and>
     (con_keyed con \<longrightarrow> con_keyed con') \<and>
     (\<exists>new. con_sent con' = con_sent con @ new \<and> list_all (sent_permitted s io con) new)"

definition con_context :: "('a, 'cs) Connection \<Rightarrow> 'cs PushContext option option" where
  "con_context con = map_option px_LastPushContext (con_proxy con)"

definition progress :: "('a, 'cs) server \<Rightarrow> io \<Rightarrow> ('a, 'cs) Connection \<Rightarrow> ('a, 'cs) Connection \<Rightarrow> bool" where
  "progress s io con con' \<longleftrightarrow> advance s io con con' \<and> con_context con' = con_context con"

text \<open>The authorization has just succeeded.\<close>

definition just_permitted :: "('a, 'cs) server \<Rightarrow> io \<Rightarrow> ('a, 'cs) Connection \<Rightarrow> bool" where
  "just_permitted s io con \<longleftrightarrow> con_ticks con > 0 \<and> permitted s (io_now io (con_ticks con - 1)) (con_ident con)"

lemma sent_permitted_ident: "con_ident con' = con_ident con \<Longrightarrow> sent_permitted s io con' = sent_permitted s io con"
  by (simp add: sent_permitted_def fun_eq_iff split: prod.splits)

lemma advance_trans [trans]:
  assumes "advance s io a b" "advance s io b c"
  shows "advance s io a c"
proof -
  have "sent_permitted s io b = sent_permitted s io a"
    using assms(1) by (intro sent_permitted_ident) (simp add: advance_def)
  with assms show ?thesis unfolding advance_def by force
qed

lemma advance_refl [simp]: "advance s io con con"
  by (simp add: advance_def)

lemma progress_advance: "progress s io con con' \<Longrightarrow> advance s io con con'"
  by (simp add: progress_def)

lemma progress_refl [simp]: "progress s io con con"
  by (simp add: progress_def)

lemma progress_trans [trans]: "progress s io a b \<Longrightarrow> progress s io b c \<Longrightarrow> progress s io a c"
  by (auto simp: progress_def intro: advance_trans)

lemma progress_ticks [simp]: "progress s io con (con\<lparr>con_ticks := n\<rparr>)"
  by (simp add: progress_def advance_def con_ident_def con_keyed_def con_context_def)

lemma advance_proxy:
  assumes "con_proxy con = Some proxy" "proxy_ident proxy' = proxy_ident proxy"
    and "keyed (px_WatchedResources proxy) \<Longrightarrow> keyed (px_WatchedResources proxy')"
  shows "advance s io con (con\<lparr>con_proxy := Some proxy'\<rparr>)"
  using assms by (simp add: advance_def con_ident_def con_keyed_def)

lemma progress_proxy:
  assumes "con_proxy con = Some proxy" "proxy_ident proxy' = proxy_ident proxy"
    and "keyed (px_WatchedResources proxy) \<Longrightarrow> keyed (px_WatchedResources proxy')"
    and "px_LastPushContext proxy' = px_LastPushContext proxy"
  shows "progress s io con (con\<lparr>con_proxy := Some proxy'\<rparr>)"
  using assms advance_proxy [OF assms(1-3)] by (simp add: progress_def con_context_def)

lemma proxy_ident_watches [simp]: "proxy_ident (proxy\<lparr>px_WatchedResources := ws\<rparr>) = proxy_ident proxy"
  by (simp add: proxy_ident_def)

lemma progress_update_watch:
  assumes "update_watch con url f = Inr con'" "keeps_type url f"
  shows "progress s io con con'"
proof -
  obtain proxy ws where "con_proxy con = Some proxy"
      "UpdateWatchedResource (px_WatchedResources proxy) url f = Inr ws"
      "con' = con\<lparr>con_proxy := Some (proxy\<lparr>px_WatchedResources := ws\<rparr>)\<rparr>"
    by (rule update_watch_obtain [OF assms(1)])
  then show ?thesis using keyed_UpdateWatchedResource [OF _ assms(2)] by (auto intro!: progress_proxy)
qed

lemma progress_new_watch: "con_proxy con = Some proxy \<Longrightarrow> progress s io con (new_watch con proxy url names)"
  unfolding new_watch_def by (rule progress_proxy) auto

lemma just_permitted_authorize:
  "authorizeConnection s io con = (None, con') \<Longrightarrow> just_permitted s io con' \<and> progress s io con con'"
  by (auto simp: authorizeConnection_def authorize_at_iff authorized_def just_permitted_def permitted_def con_ident_def)

lemma authorize_progress: "authorizeConnection s io con = (e, con') \<Longrightarrow> progress s io con con'"
  by (auto simp: authorizeConnection_def)

lemma progress_hand:
  assumes "just_permitted s io con" "hand_to_stream io con resp = (e, con')"
  shows "progress s io con con'"
  using assms by (auto simp: hand_to_stream_def progress_def advance_def con_context_def con_ident_def con_keyed_def just_permitted_def
      sent_permitted_def Let_def)

lemma progress_sendDelta:
  assumes "just_permitted s io con" "sendDelta io con resp names = Inr (e, con')"
  shows "progress s io con con'"
proof -
  obtain e1 con1 where h: "hand_to_stream io con (Delta resp) = (e1, con1)" by fastforce
  have p: "progress s io con con1" by (rule progress_hand [OF assms(1) h])
  show ?thesis
  proof (cases e1)
    case None
    then obtain con2 where "update_watch con1 (ddr_TypeUrl resp)
        (record_delta_sent (ddr_TypeUrl resp) (ddr_Nonce resp) names (io_now io (con_ticks con))) = Inr con2" "con' = con2"
      using assms(2) h by (auto simp: sendDelta_def map_sum_def split: sum.splits)
    then show ?thesis using progress_trans [OF p progress_update_watch] by simp
  next
    case (Some a)
    then show ?thesis using assms(2) h p by (simp add: sendDelta_def)
  qed
qed

lemma progress_send_sotw:
  assumes "just_permitted s io con" "send_sotw io con resp = Inr (e, con')"
  shows "progress s io con con'"
proof -
  obtain e1 con1 where h: "hand_to_stream io con (Sotw resp) = (e1, con1)" by fastforce
  have p: "progress s io con con1" by (rule progress_hand [OF assms(1) h])
  obtain proxy where proxy: "con_proxy con1 = Some proxy"
    using assms(2) h by (cases "con_proxy con1") (auto simp: send_sotw_def)
  obtain e2 ws where send: "Send proxy_watcher (px_WatchedResources proxy) (dr_TypeUrl resp) (dr_Nonce resp) e1
      (io_now io (con_ticks con)) = Inr (e2, ws)"
    using assms(2) h proxy by (auto simp: send_sotw_def split: sum.splits)
  let ?con = "con1\<lparr>con_proxy := Some (proxy\<lparr>px_WatchedResources := ws\<rparr>)\<rparr>"
  have "keyed (px_WatchedResources proxy) \<Longrightarrow> keyed ws"
    using send keyed_UpdateWatchedResource [of "px_WatchedResources proxy" "dr_TypeUrl resp"
        "record_sent (dr_TypeUrl resp) (dr_Nonce resp) (io_now io (con_ticks con))" ws]
    by (auto simp: Send_def proxy_watcher_def map_sum_def split: if_splits sum.splits)
  then have p2: "progress s io con1 ?con" using proxy by (auto intro!: progress_proxy)
  show ?thesis
  proof (cases e2)
    case None
    then have "update_watch ?con (dr_TypeUrl resp) (set_nonce (dr_Nonce resp)) = Inr con'"
      using assms(2) h proxy send by (auto simp: send_sotw_def map_sum_def split: sum.splits)
    then have "progress s io ?con con'" by (rule progress_update_watch) simp
    then show ?thesis by (rule progress_trans [OF progress_trans [OF p p2]])
  next
    case (Some a)
    then have "con' = ?con" using assms(2) h proxy send by (simp add: send_sotw_def)
    then show ?thesis using progress_trans [OF p p2] by simp
  qed
qed

lemma requested_names_keeps:
  assumes "requested_names pb s con proxy w req = (requested, proxy', w')"
  shows "proxy_ident proxy' = proxy_ident proxy \<and> wr_TypeUrl w' = wr_TypeUrl w \<and>
    px_LastPushContext proxy' = px_LastPushContext proxy \<and> (keyed (px_WatchedResources proxy) \<longrightarrow> keyed (px_WatchedResources proxy'))"
  using assms by (auto simp: requested_names_def Let_def intro!: keyed_fmupd split: if_splits)

lemma just_permitted_ident:
  "just_permitted s io con \<Longrightarrow> con_ident con' = con_ident con \<Longrightarrow> con_ticks con' = con_ticks con \<Longrightarrow> just_permitted s io con'"
  by (simp add: just_permitted_def)

definition pushed_con :: "('a, 'cs) pushed \<Rightarrow> ('a, 'cs) Connection option" where
  "pushed_con p = (case p of Returned (Inr (e, con)) \<Rightarrow> Some con | Returned (Inl q) \<Rightarrow> None | Sent con res \<Rightarrow> Some con)"

lemma push_one_progress:
  assumes "pushed_con (push_one pb s io con w req) = Some con'"
  shows "progress s io con con'"
proof -
  obtain e1 con1 where auth: "authorizeConnection s io con = (e1, con1)" by fastforce
  have p1: "progress s io con con1" by (rule authorize_progress [OF auth])
  consider (stop) "con' = con1" | (go) v proxy gen where "e1 = None" "w = Some v" "con_proxy con1 = Some proxy"
      "findGenerator s (wr_TypeUrl v) (Some con1) = Some gen"
  proof (cases e1)
    case None
    note e1 = this
    show thesis
    proof (cases w)
      case None
      with e1 show thesis using assms auth stop by (simp add: push_one_def pushed_con_def)
    next
      case (Some v)
      then show thesis
        using assms auth e1 stop go
        by (cases "con_proxy con1"; cases "findGenerator s (wr_TypeUrl v) (Some con1)")
          (simp_all add: push_one_def pushed_con_def)
    qed
  next
    case (Some a)
    then show thesis using assms auth stop by (simp add: push_one_def pushed_con_def)
  qed
  then show ?thesis
  proof cases
    case stop
    with p1 show ?thesis by simp
  next
    case v: go
    obtain requested proxy' w' where req: "requested_names pb s con1 proxy v req = (requested, proxy', w')"
      by (metis prod_cases3)
    note keeps = requested_names_keeps [OF req]
    let ?con = "con1\<lparr>con_proxy := Some proxy'\<rparr>"
    have p2: "progress s io con1 ?con" using keeps v(3) by (auto intro!: progress_proxy)
    have just: "just_permitted s io ?con"
      by (rule just_permitted_ident [of s io con1])
        (use just_permitted_authorize [of s io con con1] auth v(1,3) keeps in \<open>simp_all add: con_ident_def\<close>)
    obtain res l e2 where gen: "Generate_of gen proxy' (generated_watch proxy' w' req) req = (res, l, e2)"
      by (metis prod_cases3)
    have "progress s io ?con con'"
    proof (cases "e2 = None \<and> res \<noteq> None \<and> pr_Push req \<noteq> None")
      case False
      then have "con' = ?con" using assms auth v req gen
        by (cases e2; cases res; cases "pr_Push req") (simp_all add: push_one_def pushed_con_def Let_def)
      then show ?thesis by simp
    next
      case True
      then obtain rs push where rs: "e2 = None" "res = Some rs" "pr_Push req = Some push" by auto
      obtain resp where "push_one pb s io con w req =
          (case send_sotw io ?con resp of
             Inr (None, con) \<Rightarrow> Sent con (filter_requested (IsInherentGrpc proxy') requested rs) | r \<Rightarrow> Returned r)"
        using auth v req gen rs by (simp add: push_one_def Let_def)
      with assms obtain e3 where "send_sotw io ?con resp = Inr (e3, con')"
        by (auto simp: pushed_con_def split: sum.splits option.splits prod.splits)
      then show ?thesis by (rule progress_send_sotw [OF just])
    qed
    then show ?thesis by (rule progress_trans [OF progress_trans [OF p1 p2]])
  qed
qed

lemma pushDeltaXds_progress:
  assumes "pushDeltaXds s io con w req = Inr (e, con')"
  shows "progress s io con con'"
proof -
  obtain e1 con1 where auth: "authorizeConnection s io con = (e1, con1)" by fastforce
  have p1: "progress s io con con1" by (rule authorize_progress [OF auth])
  show ?thesis
  proof (cases "con' = con1")
    case False
    then have "e1 = None" using assms auth by (auto simp: pushDeltaXds_def split: option.splits)
    then have just: "just_permitted s io con1" using just_permitted_authorize auth by blast
    obtain v proxy where v: "w = Some v" "con_proxy con1 = Some proxy"
      using assms auth False \<open>e1 = None\<close> by (cases w; cases "con_proxy con1") (simp_all add: pushDeltaXds_def)
    obtain gen where gen: "findGenerator s (wr_TypeUrl v) (Some con1) = Some gen"
      using assms auth False \<open>e1 = None\<close> v
      by (cases "findGenerator s (wr_TypeUrl v) (Some con1)") (simp_all add: pushDeltaXds_def)
    obtain res deletedRes usedDelta e2 where
      run: "run_generator gen proxy req (pushed_watch v req) = (res, deletedRes, usedDelta, e2)"
      by (metis prod_cases4)
    have "authorized s (io_now io (con_ticks con)) con" "con1 = con\<lparr>con_ticks := con_ticks con + 1\<rparr>"
      using auth \<open>e1 = None\<close> by (auto simp: authorizeConnection_def authorize_at_iff)
    then obtain resp names where "sendDelta io con1 resp names = Inr (e, con')"
      using pushDeltaXds_generated [of s io con proxy v gen req res deletedRes usedDelta e2] assms v gen run False
      by (cases "pr_Push req") (auto simp: Let_def split: if_splits)
    then show ?thesis by (rule progress_trans [OF p1 progress_sendDelta [OF just]])
  qed (use p1 in simp)
qed

definition pusher_ok :: "('a, 'cs) server \<Rightarrow> io \<Rightarrow> ('a, 'cs) pusher \<Rightarrow> bool" where
  "pusher_ok s io push \<longleftrightarrow> (\<forall>con w req e con'. push con w req = Some (Inr (e, con')) \<longrightarrow> progress s io con con')"

lemma and_then_Inr:
  assumes "and_then r k = Some (Inr (e, con'))"
  obtains e1 con1 where "r = Some (Inr (e1, con1))" "k con1 = Some (Inr (e, con'))"
  using assms by (auto simp: and_then_def split: option.splits sum.splits)

lemma push_watch_progress:
  "pusher_ok s io push \<Longrightarrow> push_watch push url why req con = Some (Inr (e, con')) \<Longrightarrow> progress s io con con'"
  by (auto simp: push_watch_def pusher_ok_def split: option.splits)

lemma push_clusters_progress:
  assumes ok: "pusher_ok s io push" and push: "push_clusters push req names con = Some (Inr (e, con'))"
  shows "progress s io con con'"
proof (cases "con' = con")
  case False
  then obtain proxy where proxy: "con_proxy con = Some proxy"
      "push_watch push ClusterType ProxyRequest req (new_watch con proxy ClusterType names) = Some (Inr (e, con'))"
    using push by (auto simp: push_clusters_def split: if_splits option.splits)
  show ?thesis
    by (rule progress_trans [OF progress_new_watch [OF proxy(1)] push_watch_progress [OF ok proxy(2)]])
qed simp

lemma push_routes_cases:
  assumes "push_routes push req names con = Some r"
  obtains (same) "r = Inr (None, con)"
  | (panic) p where "r = Inl p"
  | (new_routes) proxy where "con_proxy con = Some proxy"
      "push_watch push RouteType ProxyRequest req (new_watch con proxy RouteType names) = Some r"
  | (more_routes) con1 where "update_watch con RouteType (add_names RouteType names) = Inr con1"
      "push_watch push RouteType DependentResource req con1 = Some r"
proof (cases "names = {||} \<or> con_proxy con = None")
  case True
  then show ?thesis using assms same panic by (cases "names = {||}") (auto simp: push_routes_def)
next
  case False
  then obtain proxy where proxy: "con_proxy con = Some proxy" by auto
  show ?thesis
  proof (cases "GetWatchedResource (px_WatchedResources proxy) RouteType")
    case None
    then show ?thesis using assms False proxy new_routes by (simp add: push_routes_def)
  next
    case (Some w)
    then show ?thesis
      using assms False proxy same panic new_routes more_routes
      by (cases "Len (wr_ResourceNames w) = 0"; cases "names |\<subseteq>| elems (wr_ResourceNames w)";
          cases "update_watch con RouteType (add_names RouteType names)")
        (auto simp: push_routes_def simp del: less_eq_fset.rep_eq)
  qed
qed

lemma push_routes_progress:
  assumes ok: "pusher_ok s io push" and push: "push_routes push req names con = Some (Inr (e, con'))"
  shows "progress s io con con'"
  using push
proof (cases rule: push_routes_cases)
  case (new_routes proxy)
  show ?thesis
    by (rule progress_trans [OF progress_new_watch [OF new_routes(1)] push_watch_progress [OF ok new_routes(2)]])
next
  case (more_routes con1)
  show ?thesis
    by (rule progress_trans [OF progress_update_watch [OF more_routes(1)] push_watch_progress [OF ok more_routes(2)]]) simp
qed simp_all

lemma push_referenced_progress:
  assumes ok: "pusher_ok s io push" and push: "push_referenced pb push req res con = Some (Inr (e, con'))"
  shows "progress s io con con'"
proof -
  obtain e1 con1 e2 where "push_clusters push req (extractClusterNamesFromLDS res) con = Some (Inr (e1, con1))"
      "push_routes push req (extractRouteNamesFromLDS pb res) con1 = Some (Inr (e2, con'))"
    using push unfolding push_referenced_def by (auto elim!: and_then_Inr)
  then show ?thesis
    using progress_trans [OF push_clusters_progress [OF ok] push_routes_progress [OF ok]] by blast
qed

lemma watch_endpoints_cases:
  assumes "watch_endpoints pb con res = Inr con'"
  obtains (same) "con' = con"
  | (new_names) proxy where "con_proxy con = Some proxy"
      "con' = new_watch con proxy EndpointType (extractEDSClusterNamesFromCDS pb res)"
  | (more_names) "update_watch con EndpointType (add_names EndpointType (extractEDSClusterNamesFromCDS pb res)) = Inr con'"
proof (cases "extractEDSClusterNamesFromCDS pb res = {||}")
  case True
  then show ?thesis using assms same by (simp add: watch_endpoints_def)
next
  case False
  then obtain proxy where proxy: "con_proxy con = Some proxy"
    using assms by (cases "con_proxy con") (simp_all add: watch_endpoints_def Let_def)
  show ?thesis
  proof (cases "GetWatchedResource (px_WatchedResources proxy) EndpointType")
    case None
    then show ?thesis using assms False proxy new_names by (simp add: watch_endpoints_def Let_def)
  next
    case (Some w)
    then show ?thesis using assms False proxy same more_names
      by (cases "extractEDSClusterNamesFromCDS pb res |\<subseteq>| elems (wr_ResourceNames w)")
        (simp_all add: watch_endpoints_def Let_def)
  qed
qed

lemma watch_endpoints_progress:
  assumes "watch_endpoints pb con res = Inr con'"
  shows "progress s io con con'"
  using assms
proof (cases rule: watch_endpoints_cases)
  case (new_names proxy)
  then show ?thesis by (simp add: progress_new_watch)
next
  case more_names
  then show ?thesis by (rule progress_update_watch) simp
qed simp

lemma after_listeners_progress:
  "pusher_ok s io push \<Longrightarrow> after_listeners pb push req url res con = Some (Inr (e, con')) \<Longrightarrow> progress s io con con'"
  using push_referenced_progress by (fastforce simp: after_listeners_def split: if_splits)

lemma after_clusters_progress: "after_clusters pb url res con = Inr (e, con') \<Longrightarrow> progress s io con con'"
  using watch_endpoints_progress by (fastforce simp: after_clusters_def map_sum_def split: if_splits sum.splits)

lemma pushXds_fuel_progress: "pusher_ok s io (pushXds_fuel n pb s io)"
proof (induction n)
  case 0
  then show ?case by (simp add: pusher_ok_def)
next
  case (Suc n)
  show ?case unfolding pusher_ok_def
  proof (intro allI impI)
    fix con w req e con'
    assume push: "pushXds_fuel (Suc n) pb s io con w req = Some (Inr (e, con'))"
    show "progress s io con con'"
    proof (cases "push_one pb s io con w req")
      case (Returned r)
      then show ?thesis using push push_one_progress [of pb s io con w req con'] by (simp add: pushed_con_def)
    next
      case (Sent con1 res)
      have p1: "progress s io con con1" using push_one_progress [of pb s io con w req con1] Sent by (simp add: pushed_con_def)
      obtain e2 con2 where
          "after_listeners pb (pushXds_fuel n pb s io) req (case w of None \<Rightarrow> [] | Some w \<Rightarrow> wr_TypeUrl w) res con1 =
             Some (Inr (e2, con2))"
          "after_clusters pb (case w of None \<Rightarrow> [] | Some w \<Rightarrow> wr_TypeUrl w) res con2 = Inr (e, con')"
        using push Sent by (auto simp: Let_def elim: and_then_Inr)
      then show ?thesis
        by (rule progress_trans [OF progress_trans [OF p1 after_listeners_progress [OF Suc.IH]] after_clusters_progress])
    qed
  qed
qed

lemma pushXds_progress: "pushXds pb s io con w req = Some (Inr (e, con')) \<Longrightarrow> progress s io con con'"
  using pushXds_fuel_progress [of s io 2 pb] by (simp add: pushXds_def pusher_ok_def)

end
