(* ===== verification/XdsCache.thy ===== *)
theory XdsCache
  imports Configs
begin

text \<open>
  The xDS cache: \<^verbatim>\<open>lruCache\<close> and \<^verbatim>\<open>disabledCache\<close> of
  \<^verbatim>\<open>dubbod/discovery/pkg/model/typed_xds_cache.go\<close> and \<^verbatim>\<open>XdsCacheImpl\<close> of \<^verbatim>\<open>xds_cache.go\<close>.
  The LRU store is third-party code (\<^verbatim>\<open>golang-lru/simplelru\<close>): it is the parameter \<open>ops\<close>, a record
  of its methods, and \<open>lru_laws\<close> states what its documentation promises. The hash function is
  the parameter \<open>sum64\<close>, the clock the parameter \<open>now\<close>. Every method holds the cache's mutex,
  so a method is one step.
\<close>

section \<open>The store\<close>

text \<open>
  \<open>lru_Add\<close> and \<open>lru_Remove\<close> also return the entries for which the eviction callback is called.
\<close>

record ('s, 'k, 'v) LRU =
  lru_New :: "int \<Rightarrow> 's"
  lru_Get :: "'s \<Rightarrow> 'k \<Rightarrow> 'v option \<times> 's"
  lru_Add :: "'s \<Rightarrow> 'k \<Rightarrow> 'v \<Rightarrow> 's \<times> ('k \<times> 'v) list"
  lru_Remove :: "'s \<Rightarrow> 'k \<Rightarrow> 's \<times> ('k \<times> 'v) list"
  lru_Keys :: "'s \<Rightarrow> 'k list"

text \<open>The entries of a store, as seen through its own \<open>Get\<close>.\<close>

definition lru_lookup :: "('s, 'k, 'v) LRU \<Rightarrow> 's \<Rightarrow> 'k \<Rightarrow> 'v option" where
  "lru_lookup ops s k = fst (lru_Get ops s k)"

text \<open>
  The documented behaviour: a new store is empty; reading changes no entry; adding a key sets
  its value and may evict other entries, for which the callback is called; adding an existing
  key calls no callback for it; removing a key calls the callback for its entry; the keys are
  those with an entry, each once.
\<close>

definition lru_laws :: "('s, 'k, 'v) LRU \<Rightarrow> bool" where
  "lru_laws ops \<longleftrightarrow>
     (\<forall>n k. n > 0 \<longrightarrow> lru_lookup ops (lru_New ops n) k = None) \<and>
     (\<forall>s k k'. lru_lookup ops (snd (lru_Get ops s k)) k' = lru_lookup ops s k') \<and>
     (\<forall>s k v k'. lru_lookup ops (fst (lru_Add ops s k v)) k' =
        (if k' = k then Some v
         else if k' \<in> fst ` set (snd (lru_Add ops s k v)) then None else lru_lookup ops s k')) \<and>
     (\<forall>s k v k' v'. (k', v') \<in> set (snd (lru_Add ops s k v)) \<longrightarrow> k' \<noteq> k \<and> lru_lookup ops s k' = Some v') \<and>
     (\<forall>s k k'. lru_lookup ops (fst (lru_Remove ops s k)) k' = (if k' = k then None else lru_lookup ops s k')) \<and>
     (\<forall>s k. snd (lru_Remove ops s k) = (case lru_lookup ops s k of None \<Rightarrow> [] | Some v \<Rightarrow> [(k, v)])) \<and>
     (\<forall>s. distinct (lru_Keys ops s) \<and> set (lru_Keys ops s) = {k. lru_lookup ops s k \<noteq> None})"

section \<open>lruCache\<close>

type_synonym CacheToken = "64 word"

record 'r cacheValue =
  cv_value :: "'r option"
  cv_token :: CacheToken
  cv_dependentConfigs :: "ConfigHash list"

record ('s, 'k) lruCache =
  lc_store :: 's
  lc_token :: CacheToken
  lc_configIndex :: "(ConfigHash, 'k fset) fmap"
  lc_evictQueue :: "('k \<times> ConfigHash list) list"
  lc_evictedOnClear :: bool

text \<open>\<^verbatim>\<open>CacheToken(t.UnixNano())\<close>.\<close>

definition token_of :: "time \<Rightarrow> CacheToken" where
  "token_of t = word_of_int t"

definition newLru :: "('s, 'k, 'r cacheValue) LRU \<Rightarrow> int \<Rightarrow> 's" where
  "newLru ops XDSCacheMaxSize =
     (let sz = (if XDSCacheMaxSize \<le> 0 then 20000 else XDSCacheMaxSize) in lru_New ops sz)"

definition onEvict :: "('s, 'k) lruCache \<Rightarrow> ('k \<times> 'r cacheValue) list \<Rightarrow> ('s, 'k) lruCache" where
  "onEvict l evicted =
     l\<lparr>lc_evictQueue := lc_evictQueue l @ map (\<lambda>(k, v). (k, cv_dependentConfigs v)) evicted\<rparr>"

definition newTypedXdsCache :: "('s, 'k, 'r cacheValue) LRU \<Rightarrow> int \<Rightarrow> ('s, 'k) lruCache" where
  "newTypedXdsCache ops maxSize =
     \<lparr>lc_store = newLru ops maxSize, lc_token = 0, lc_configIndex = fmempty, lc_evictQueue = [],
      lc_evictedOnClear = False\<rparr>"

definition lru_get ::
    "('s, 'k, 'r cacheValue) LRU \<Rightarrow> ('s, 'k) lruCache \<Rightarrow> 'k \<Rightarrow> CacheToken \<Rightarrow> 'r option \<times> ('s, 'k) lruCache"
where
  "lru_get ops l key token =
     (case lru_Get ops (lc_store l) key of
        (cv, s) \<Rightarrow>
          (case cv of None \<Rightarrow> None
           | Some cv \<Rightarrow> if cv_value cv = None then None
               else if cv_token cv \<ge> token then cv_value cv else None,
           l\<lparr>lc_store := s\<rparr>))"

definition Cache_Get ::
    "('s, 'k, 'r cacheValue) LRU \<Rightarrow> ('s, 'k) lruCache \<Rightarrow> 'k \<Rightarrow> 'r option \<times> ('s, 'k) lruCache" where
  "Cache_Get ops l key = lru_get ops l key 0"

text \<open>
  The loop over the difference set visits it in some order; the result does not depend on it, so
  the model drops the configurations in the order of the list.
\<close>

definition clearConfigIndex ::
    "('s, 'k, 'r cacheValue) LRU \<Rightarrow> ('s, 'k) lruCache \<Rightarrow> 'k \<Rightarrow> ConfigHash list \<Rightarrow> ('s, 'k) lruCache" where
  "clearConfigIndex ops l k dependentConfigs =
     (case lru_Get ops (lc_store l) k of
        (Some c, s) \<Rightarrow>
          l\<lparr>lc_store := s, lc_configIndex :=
             fold (\<lambda>cfg m. DeleteCleanupLast m cfg k)
               (filter (\<lambda>cfg. cfg \<notin> set (cv_dependentConfigs c)) (remdups dependentConfigs))
               (lc_configIndex l)\<rparr>
      | (None, s) \<Rightarrow>
          l\<lparr>lc_store := s, lc_configIndex :=
             fold (\<lambda>cfg m. DeleteCleanupLast m cfg k) dependentConfigs (lc_configIndex l)\<rparr>)"

definition Cache_Flush ::
    "('s, 'k, 'r cacheValue) LRU \<Rightarrow> ('s, 'k) lruCache \<Rightarrow> ('s, 'k) lruCache" where
  "Cache_Flush ops l =
     (fold (\<lambda>(k, dependentConfigs) l. clearConfigIndex ops l k dependentConfigs) (lc_evictQueue l) l)
       \<lparr>lc_evictQueue := []\<rparr>"

definition updateConfigIndex :: "('s, 'k) lruCache \<Rightarrow> 'k \<Rightarrow> ConfigHash list \<Rightarrow> ('s, 'k) lruCache" where
  "updateConfigIndex l k dependentConfigs =
     l\<lparr>lc_configIndex := fold (\<lambda>cfg m. InsertOrNew m cfg k) dependentConfigs (lc_configIndex l)\<rparr>"

text \<open>\<open>dependents\<close> is the value of \<^verbatim>\<open>entry.DependentConfigs()\<close>.\<close>

definition Cache_Add ::
    "('s, 'k, 'r cacheValue) LRU \<Rightarrow> ('s, 'k) lruCache \<Rightarrow> 'k \<Rightarrow> ConfigHash list \<Rightarrow>
       'p PushRequest option \<Rightarrow> 'r option \<Rightarrow> ('s, 'k) lruCache" where
  "Cache_Add ops l k dependents pushReq value =
     (case pushReq of None \<Rightarrow> l
      | Some req \<Rightarrow>
          if pr_Start req = zero_time then l
          else let token = token_of (pr_Start req) in
            if token < lc_token l then l
            else (case lru_Get ops (lc_store l) k of (cur, s) \<Rightarrow>
              let l = l\<lparr>lc_store := s\<rparr> in
              if (case cur of None \<Rightarrow> False | Some c \<Rightarrow> token \<le> cv_token c) then l
              else let toWrite = \<lparr>cv_value = value, cv_token = token, cv_dependentConfigs = dependents\<rparr>;
                       (s, evicted) = lru_Add ops s k toWrite;
                       l = (onEvict l evicted)\<lparr>lc_store := s, lc_token := token\<rparr>;
                       l = updateConfigIndex l k dependents
                   in (case cur of None \<Rightarrow> l
                       | Some c \<Rightarrow> l\<lparr>lc_evictQueue := lc_evictQueue l @ [(k, cv_dependentConfigs c)]\<rparr>)))"

text \<open>
  \<open>ks\<close> lists the configurations of the argument set and \<open>rng\<close> the keys of an index entry, each in
  the order the loop visits them.
\<close>

definition remove_referenced ::
    "('s, 'k, 'r cacheValue) LRU \<Rightarrow> 'k list \<Rightarrow> ('s, 'k) lruCache \<Rightarrow> ('s, 'k) lruCache" where
  "remove_referenced ops keys l =
     fold (\<lambda>key l. case lru_Remove ops (lc_store l) key of
       (s, evicted) \<Rightarrow> (onEvict l evicted)\<lparr>lc_store := s\<rparr>) keys l"

definition clear_config ::
    "('s, 'k, 'r cacheValue) LRU \<Rightarrow> ('k fset \<Rightarrow> 'k list) \<Rightarrow> (string \<Rightarrow> 64 word) \<Rightarrow> ConfigKey \<Rightarrow>
       ('s, 'k) lruCache \<Rightarrow> ('s, 'k) lruCache" where
  "clear_config ops rng sum64 ckey l =
     (let hc = HashCode sum64 ckey;
          referenced = elems (fmlookup (lc_configIndex l) hc);
          l = (if fcard referenced > 0 then remove_referenced ops (rng referenced) l else l)
      in l\<lparr>lc_configIndex := fmdrop hc (lc_configIndex l)\<rparr>)"

definition Cache_Clear ::
    "('s, 'k, 'r cacheValue) LRU \<Rightarrow> ('k fset \<Rightarrow> 'k list) \<Rightarrow> (string \<Rightarrow> 64 word) \<Rightarrow>
       ('s, 'k) lruCache \<Rightarrow> ConfigKey list \<Rightarrow> time \<Rightarrow> ('s, 'k) lruCache" where
  "Cache_Clear ops rng sum64 l ks now =
     (let l = l\<lparr>lc_token := token_of now, lc_evictedOnClear := True\<rparr>;
          l = fold (clear_config ops rng sum64) ks l
      in l\<lparr>lc_evictedOnClear := False\<rparr>)"

definition Cache_ClearAll ::
    "('s, 'k, 'r cacheValue) LRU \<Rightarrow> int \<Rightarrow> ('s, 'k) lruCache \<Rightarrow> time \<Rightarrow> ('s, 'k) lruCache" where
  "Cache_ClearAll ops maxSize l now =
     l\<lparr>lc_token := token_of now, lc_store := newLru ops maxSize, lc_configIndex := fmempty,
       lc_evictQueue := []\<rparr>"

definition Cache_Keys :: "('s, 'k, 'r cacheValue) LRU \<Rightarrow> ('s, 'k) lruCache \<Rightarrow> 'k list" where
  "Cache_Keys ops l = lru_Keys ops (lc_store l)"

fun snapshot_loop :: "('s, 'k, 'r cacheValue) LRU \<Rightarrow> 'k list \<Rightarrow> 's \<Rightarrow> 'r option list \<times> 's" where
  "snapshot_loop ops [] s = ([], s)"
| "snapshot_loop ops (ik # iKeys) s =
     (case lru_Get ops s ik of (v, s) \<Rightarrow>
        (case snapshot_loop ops iKeys s of (res, s) \<Rightarrow>
           ((case v of None \<Rightarrow> None | Some v \<Rightarrow> cv_value v) # res, s)))"

definition Cache_Snapshot ::
    "('s, 'k, 'r cacheValue) LRU \<Rightarrow> ('s, 'k) lruCache \<Rightarrow> 'r option list \<times> ('s, 'k) lruCache" where
  "Cache_Snapshot ops l =
     (case snapshot_loop ops (lru_Keys ops (lc_store l)) (lc_store l) of
        (res, s) \<Rightarrow> (res, l\<lparr>lc_store := s\<rparr>))"

section \<open>The index\<close>

text \<open>
  \<open>cache_entry\<close> is what the store holds, \<open>indexed\<close> what the index says. The index never misses
  a dependency of a stored entry, and every pair in it that is not such a dependency is waiting
  in the eviction queue to be dropped.
\<close>

definition cache_entry ::
    "('s, 'k, 'r cacheValue) LRU \<Rightarrow> ('s, 'k) lruCache \<Rightarrow> 'k \<Rightarrow> 'r cacheValue option" where
  "cache_entry ops l k = lru_lookup ops (lc_store l) k"

definition indexed :: "('s, 'k) lruCache \<Rightarrow> ConfigHash \<Rightarrow> 'k \<Rightarrow> bool" where
  "indexed l h k \<longleftrightarrow> k |\<in>| elems (fmlookup (lc_configIndex l) h)"

definition depends :: "('s, 'k, 'r cacheValue) LRU \<Rightarrow> ('s, 'k) lruCache \<Rightarrow> ConfigHash \<Rightarrow> 'k \<Rightarrow> bool" where
  "depends ops l h k \<longleftrightarrow>
     (case cache_entry ops l k of None \<Rightarrow> False | Some cv \<Rightarrow> h \<in> set (cv_dependentConfigs cv))"

definition queued_for_eviction :: "('s, 'k) lruCache \<Rightarrow> ConfigHash \<Rightarrow> 'k \<Rightarrow> bool" where
  "queued_for_eviction l h k \<longleftrightarrow> (\<exists>deps. (k, deps) \<in> set (lc_evictQueue l) \<and> h \<in> set deps)"

definition cache_inv :: "('s, 'k, 'r cacheValue) LRU \<Rightarrow> ('s, 'k) lruCache \<Rightarrow> bool" where
  "cache_inv ops l \<longleftrightarrow>
     (\<forall>h k. depends ops l h k \<longrightarrow> indexed l h k) \<and>
     (\<forall>h k. indexed l h k \<longrightarrow> depends ops l h k \<or> queued_for_eviction l h k)"

lemma lookup_fold_delete:
  "elems (fmlookup (fold (\<lambda>cfg m. DeleteCleanupLast m cfg k) cs m) h) =
     (if h \<in> set cs then elems (fmlookup m h) |-| {|k|} else elems (fmlookup m h))"
  by (induction cs arbitrary: m) (auto simp: lookup_DeleteCleanupLast)

lemma lookup_fold_insert:
  "elems (fmlookup (fold (\<lambda>cfg m. InsertOrNew m cfg k) cs m) h) =
     (if h \<in> set cs then finsert k (elems (fmlookup m h)) else elems (fmlookup m h))"
  by (induction cs arbitrary: m) (auto simp: lookup_InsertOrNew)

lemma laws_New: "lru_laws ops \<Longrightarrow> lru_lookup ops (newLru ops n) k = None"
  by (simp add: lru_laws_def newLru_def Let_def)

lemma laws_Get: "lru_laws ops \<Longrightarrow> lru_lookup ops (snd (lru_Get ops s k)) k' = lru_lookup ops s k'"
  by (simp add: lru_laws_def)

lemma laws_Add:
  assumes "lru_laws ops" "lru_Add ops s k v = (s', evicted)"
  shows "lru_lookup ops s' k' =
      (if k' = k then Some v else if k' \<in> fst ` set evicted then None else lru_lookup ops s k')"
    and "(k', v') \<in> set evicted \<Longrightarrow> k' \<noteq> k \<and> lru_lookup ops s k' = Some v'"
  using assms unfolding lru_laws_def by (metis fst_conv snd_conv)+

lemma laws_Remove:
  assumes "lru_laws ops" "lru_Remove ops s k = (s', evicted)"
  shows "lru_lookup ops s' k' = (if k' = k then None else lru_lookup ops s k')"
    and "evicted = (case lru_lookup ops s k of None \<Rightarrow> [] | Some v \<Rightarrow> [(k, v)])"
  using assms unfolding lru_laws_def by (metis fst_conv snd_conv)+

lemma laws_Keys:
  "lru_laws ops \<Longrightarrow> distinct (lru_Keys ops s) \<and> set (lru_Keys ops s) = {k. lru_lookup ops s k \<noteq> None}"
  by (simp add: lru_laws_def)

lemma cache_entry_store_Get [simp]:
  "lru_laws ops \<Longrightarrow> cache_entry ops (l\<lparr>lc_store := snd (lru_Get ops (lc_store l) k)\<rparr>) k' = cache_entry ops l k'"
  by (simp add: cache_entry_def laws_Get)

lemma depends_cong: "cache_entry ops l = cache_entry ops l' \<Longrightarrow> depends ops l = depends ops l'"
  by (simp add: depends_def fun_eq_iff)

lemma cache_inv_cong:
  assumes "cache_inv ops l" "\<And>k. cache_entry ops l' k = cache_entry ops l k"
    "lc_configIndex l' = lc_configIndex l" "lc_evictQueue l' = lc_evictQueue l"
  shows "cache_inv ops l'"
proof -
  have "depends ops l' = depends ops l" by (rule depends_cong) (simp add: assms(2) fun_eq_iff)
  then show ?thesis
    using assms(1,3,4) by (simp add: cache_inv_def indexed_def queued_for_eviction_def)
qed

lemma inv_New: "lru_laws ops \<Longrightarrow> cache_inv ops (newTypedXdsCache ops n)"
  by (simp add: cache_inv_def depends_def indexed_def cache_entry_def newTypedXdsCache_def laws_New)

lemma inv_ClearAll: "lru_laws ops \<Longrightarrow> cache_inv ops (Cache_ClearAll ops n l now)"
  by (simp add: cache_inv_def depends_def indexed_def cache_entry_def Cache_ClearAll_def laws_New)

lemma get_snd: "snd (lru_get ops l key tok) = l\<lparr>lc_store := snd (lru_Get ops (lc_store l) key)\<rparr>"
  by (simp add: lru_get_def split: prod.splits)

lemma get_fst:
  "fst (lru_get ops l key tok) =
     (case cache_entry ops l key of None \<Rightarrow> None
      | Some cv \<Rightarrow> if cv_token cv \<ge> tok then cv_value cv else None)"
  by (auto simp: lru_get_def cache_entry_def lru_lookup_def split: prod.splits option.splits)

lemma inv_get: "lru_laws ops \<Longrightarrow> cache_inv ops l \<Longrightarrow> cache_inv ops (snd (lru_get ops l key tok))"
  unfolding get_snd by (erule cache_inv_cong) simp_all

lemma clearConfigIndex_entry [simp]:
  "lru_laws ops \<Longrightarrow> cache_entry ops (clearConfigIndex ops l k deps) k' = cache_entry ops l k'"
  using laws_Get [of ops "lc_store l" k k']
  by (auto simp: clearConfigIndex_def cache_entry_def split: prod.splits option.splits)

lemma clearConfigIndex_indexed:
  "indexed (clearConfigIndex ops l k deps) h k' \<longleftrightarrow>
     indexed l h k' \<and> \<not> (k' = k \<and> h \<in> set deps \<and> \<not> depends ops l h k)"
  by (auto simp: clearConfigIndex_def indexed_def depends_def cache_entry_def lru_lookup_def
      lookup_fold_delete split: prod.splits option.splits if_splits)

lemma clearConfigIndex_rest [simp]:
  "lc_token (clearConfigIndex ops l k deps) = lc_token l"
  "lc_evictQueue (clearConfigIndex ops l k deps) = lc_evictQueue l"
  by (simp_all add: clearConfigIndex_def split: prod.splits option.splits)

lemma depends_clearConfigIndex [simp]:
  "lru_laws ops \<Longrightarrow> depends ops (clearConfigIndex ops l k deps) = depends ops l"
  by (rule depends_cong) (simp add: fun_eq_iff)

lemma flush_loop:
  assumes "lru_laws ops"
  shows "cache_entry ops (fold (\<lambda>(k, deps) l. clearConfigIndex ops l k deps) q l) k' = cache_entry ops l k'"
    and "indexed (fold (\<lambda>(k, deps) l. clearConfigIndex ops l k deps) q l) h k' \<longleftrightarrow>
      indexed l h k' \<and> ((\<exists>deps. (k', deps) \<in> set q \<and> h \<in> set deps) \<longrightarrow> depends ops l h k')"
    and "lc_token (fold (\<lambda>(k, deps) l. clearConfigIndex ops l k deps) q l) = lc_token l"
  using assms by (induction q arbitrary: l) (auto simp: clearConfigIndex_indexed)

lemma Flush_entry [simp]: "lru_laws ops \<Longrightarrow> cache_entry ops (Cache_Flush ops l) k = cache_entry ops l k"
  using flush_loop(1) [of ops "lc_evictQueue l" l k] by (simp add: Cache_Flush_def cache_entry_def)

lemma Flush_token [simp]: "lru_laws ops \<Longrightarrow> lc_token (Cache_Flush ops l) = lc_token l"
  by (simp add: Cache_Flush_def flush_loop(3))

lemma Flush_exact:
  assumes "lru_laws ops" "cache_inv ops l"
  shows "indexed (Cache_Flush ops l) h k \<longleftrightarrow> depends ops (Cache_Flush ops l) h k"
proof -
  have "depends ops (Cache_Flush ops l) = depends ops l"
    by (rule depends_cong) (simp add: assms(1) fun_eq_iff)
  moreover have "indexed (Cache_Flush ops l) h k \<longleftrightarrow>
      indexed l h k \<and> (queued_for_eviction l h k \<longrightarrow> depends ops l h k)"
    using flush_loop(2) [OF assms(1), of "lc_evictQueue l" l h k]
    by (simp add: Cache_Flush_def indexed_def queued_for_eviction_def)
  ultimately show ?thesis using assms(2) by (auto simp: cache_inv_def)
qed

lemma inv_Flush: "lru_laws ops \<Longrightarrow> cache_inv ops l \<Longrightarrow> cache_inv ops (Cache_Flush ops l)"
  using Flush_exact [of ops l] by (auto simp: cache_inv_def)

text \<open>When \<open>Add\<close> writes, and what it then writes.\<close>

definition add_accepted ::
    "('s, 'k, 'r cacheValue) LRU \<Rightarrow> ('s, 'k) lruCache \<Rightarrow> 'k \<Rightarrow> 'p PushRequest option \<Rightarrow> bool" where
  "add_accepted ops l k pushReq \<longleftrightarrow>
     (case pushReq of None \<Rightarrow> False
      | Some req \<Rightarrow> pr_Start req \<noteq> zero_time \<and> lc_token l \<le> token_of (pr_Start req) \<and>
          (case cache_entry ops l k of None \<Rightarrow> True | Some c \<Rightarrow> cv_token c < token_of (pr_Start req)))"

lemma Add_rejected:
  assumes "lru_laws ops" "\<not> add_accepted ops l k pushReq"
  shows "cache_entry ops (Cache_Add ops l k deps pushReq v) k' = cache_entry ops l k'"
    "lc_configIndex (Cache_Add ops l k deps pushReq v) = lc_configIndex l"
    "lc_evictQueue (Cache_Add ops l k deps pushReq v) = lc_evictQueue l"
    "lc_token (Cache_Add ops l k deps pushReq v) = lc_token l"
proof -
  have "Cache_Add ops l k deps pushReq v \<in> {l, l\<lparr>lc_store := snd (lru_Get ops (lc_store l) k)\<rparr>}"
    using assms(2)
    by (auto simp: Cache_Add_def add_accepted_def cache_entry_def lru_lookup_def Let_def not_less not_le
        split: option.splits prod.splits if_splits)
  then show "cache_entry ops (Cache_Add ops l k deps pushReq v) k' = cache_entry ops l k'"
    "lc_configIndex (Cache_Add ops l k deps pushReq v) = lc_configIndex l"
    "lc_evictQueue (Cache_Add ops l k deps pushReq v) = lc_evictQueue l"
    "lc_token (Cache_Add ops l k deps pushReq v) = lc_token l"
    using cache_entry_store_Get [OF assms(1), of l k k'] by auto
qed

lemma Add_accepted:
  assumes laws: "lru_laws ops" and "add_accepted ops l k pushReq"
  obtains req evicted where "pushReq = Some req"
    "\<And>k'. cache_entry ops (Cache_Add ops l k deps pushReq v) k' =
       (if k' = k then Some \<lparr>cv_value = v, cv_token = token_of (pr_Start req), cv_dependentConfigs = deps\<rparr>
        else if k' \<in> fst ` set evicted then None else cache_entry ops l k')"
    "\<And>k' v'. (k', v') \<in> set evicted \<Longrightarrow> k' \<noteq> k \<and> cache_entry ops l k' = Some v'"
    "\<And>h k'. indexed (Cache_Add ops l k deps pushReq v) h k' \<longleftrightarrow> indexed l h k' \<or> k' = k \<and> h \<in> set deps"
    "lc_evictQueue (Cache_Add ops l k deps pushReq v) =
       lc_evictQueue l @ map (\<lambda>(k, v). (k, cv_dependentConfigs v)) evicted @
         (case cache_entry ops l k of None \<Rightarrow> [] | Some c \<Rightarrow> [(k, cv_dependentConfigs c)])"
    "lc_token (Cache_Add ops l k deps pushReq v) = token_of (pr_Start req)"
proof -
  obtain req where req: "pushReq = Some req" using assms(2) by (auto simp: add_accepted_def split: option.splits)
  obtain cur s where get: "lru_Get ops (lc_store l) k = (cur, s)" by fastforce
  let ?w = "\<lparr>cv_value = v, cv_token = token_of (pr_Start req), cv_dependentConfigs = deps\<rparr>"
  obtain s' evicted where add: "lru_Add ops s k ?w = (s', evicted)" by fastforce
  have cur: "cache_entry ops l k = cur" by (simp add: cache_entry_def lru_lookup_def get)
  have same: "lru_lookup ops s k' = cache_entry ops l k'" for k'
    using laws_Get [OF laws, of "lc_store l" k k'] by (simp add: get cache_entry_def)
  let ?l = "updateConfigIndex ((onEvict (l\<lparr>lc_store := s\<rparr>) evicted)\<lparr>lc_store := s', lc_token := token_of (pr_Start req)\<rparr>) k deps"
  have eq: "Cache_Add ops l k deps pushReq v =
      (case cur of None \<Rightarrow> ?l | Some c \<Rightarrow> ?l\<lparr>lc_evictQueue := lc_evictQueue ?l @ [(k, cv_dependentConfigs c)]\<rparr>)"
    using assms(2) unfolding Cache_Add_def
    by (cases cur) (simp_all add: req add_accepted_def cur get Let_def add flip: not_le)
  show ?thesis
  proof (rule that [OF req])
    show "cache_entry ops (Cache_Add ops l k deps pushReq v) k' =
       (if k' = k then Some ?w else if k' \<in> fst ` set evicted then None else cache_entry ops l k')" for k'
      using laws_Add(1) [OF laws add, of k'] unfolding same
      by (auto simp: eq cache_entry_def updateConfigIndex_def split: option.splits if_splits)
    show "(k', v') \<in> set evicted \<Longrightarrow> k' \<noteq> k \<and> cache_entry ops l k' = Some v'" for k' v'
      using laws_Add(2) [OF laws add, of k' v'] unfolding same .
    show "indexed (Cache_Add ops l k deps pushReq v) h k' \<longleftrightarrow> indexed l h k' \<or> k' = k \<and> h \<in> set deps" for h k'
      by (auto simp: eq indexed_def updateConfigIndex_def onEvict_def lookup_fold_insert split: option.splits if_splits)
  qed (simp_all add: eq cur updateConfigIndex_def onEvict_def split: option.splits)
qed

lemma inv_Add:
  assumes laws: "lru_laws ops" and inv: "cache_inv ops l"
  shows "cache_inv ops (Cache_Add ops l k deps pushReq v)"
proof (cases "add_accepted ops l k pushReq")
  case False
  show ?thesis
    by (rule cache_inv_cong [OF inv]) (simp_all add: Add_rejected [OF laws False])
next
  case True
  let ?l = "Cache_Add ops l k deps pushReq v"
  show ?thesis
  proof (rule Add_accepted [OF laws True, of deps v], goal_cases)
    case (1 req evicted)
    note acc = 1(2-5)
    have dep: "depends ops ?l h k' \<longleftrightarrow>
        (if k' = k then h \<in> set deps else k' \<notin> fst ` set evicted \<and> depends ops l h k')" for h k'
      by (simp add: depends_def acc(1))
    have "queued_for_eviction ?l h k'"
      if dep_old: "depends ops l h k'" and gone: "k' = k \<or> k' \<in> fst ` set evicted" for h k'
    proof -
      obtain c where c: "cache_entry ops l k' = Some c" "h \<in> set (cv_dependentConfigs c)"
        using dep_old by (auto simp: depends_def split: option.splits)
      have "(k', cv_dependentConfigs c) \<in> set (lc_evictQueue ?l)"
        using gone c(1) acc(2) by (force simp: acc(4))
      then show ?thesis using c(2) by (auto simp: queued_for_eviction_def)
    qed
    moreover have "queued_for_eviction l h k' \<Longrightarrow> queued_for_eviction ?l h k'" for h k'
      by (auto simp: queued_for_eviction_def acc(4))
    ultimately show ?case
      using inv unfolding cache_inv_def acc(3) dep by (metis (full_types))
  qed
qed

lemma remove_referenced_all:
  assumes laws: "lru_laws ops"
  shows "(\<forall>k. cache_entry ops (remove_referenced ops keys l) k =
      (if k \<in> set keys then None else cache_entry ops l k)) \<and>
    (\<forall>h k. queued_for_eviction (remove_referenced ops keys l) h k \<longleftrightarrow>
      queued_for_eviction l h k \<or> k \<in> set keys \<and> depends ops l h k) \<and>
    lc_configIndex (remove_referenced ops keys l) = lc_configIndex l \<and>
    lc_token (remove_referenced ops keys l) = lc_token l"
proof (induction keys arbitrary: l)
  case Nil
  then show ?case by (simp add: remove_referenced_def)
next
  case (Cons key keys)
  obtain s evicted where rem: "lru_Remove ops (lc_store l) key = (s, evicted)" by fastforce
  define l1 where "l1 = (onEvict l evicted)\<lparr>lc_store := s\<rparr>"
  have step: "remove_referenced ops (key # keys) l = remove_referenced ops keys l1"
    by (simp add: remove_referenced_def rem l1_def)
  have e: "cache_entry ops l1 k' = (if k' = key then None else cache_entry ops l k')" for k'
    by (simp add: l1_def cache_entry_def laws_Remove(1) [OF laws rem])
  have q: "queued_for_eviction l1 h k \<longleftrightarrow> queued_for_eviction l h k \<or> k = key \<and> depends ops l h k" for h k
    by (auto simp: l1_def queued_for_eviction_def onEvict_def depends_def cache_entry_def
        laws_Remove(2) [OF laws rem] split: option.splits)
  have d: "depends ops l1 h k \<longleftrightarrow> k \<noteq> key \<and> depends ops l h k" for h k
    by (simp add: depends_def e)
  have "lc_configIndex l1 = lc_configIndex l" "lc_token l1 = lc_token l"
    by (simp_all add: l1_def onEvict_def)
  then show ?case using Cons.IH [of l1] by (auto simp: step e q d)
qed

lemmas remove_referenced_entry = remove_referenced_all [THEN conjunct1, rule_format]
lemmas remove_referenced_queued =
  remove_referenced_all [THEN conjunct2, THEN conjunct1, rule_format]
lemmas remove_referenced_rest = remove_referenced_all [THEN conjunct2, THEN conjunct2]

definition range_order :: "('k fset \<Rightarrow> 'k list) \<Rightarrow> bool" where
  "range_order rng \<longleftrightarrow> (\<forall>S. is_range (rng S) S)"

lemma clear_config:
  assumes laws: "lru_laws ops" and rng: "range_order rng"
  shows "cache_entry ops (clear_config ops rng sum64 ckey l) k =
      (if indexed l (HashCode sum64 ckey) k then None else cache_entry ops l k)"
    and "indexed (clear_config ops rng sum64 ckey l) h k \<longleftrightarrow> h \<noteq> HashCode sum64 ckey \<and> indexed l h k"
    and "queued_for_eviction (clear_config ops rng sum64 ckey l) h k \<longleftrightarrow>
      queued_for_eviction l h k \<or> indexed l (HashCode sum64 ckey) k \<and> depends ops l h k"
    and "lc_token (clear_config ops rng sum64 ckey l) = lc_token l"
proof -
  let ?ref = "elems (fmlookup (lc_configIndex l) (HashCode sum64 ckey))"
  have keys: "set (rng ?ref) = fset ?ref" using rng is_range_set unfolding range_order_def by blast
  define l1 where "l1 = (if fcard ?ref > 0 then remove_referenced ops (rng ?ref) l else l)"
  have eq: "clear_config ops rng sum64 ckey l = l1\<lparr>lc_configIndex := fmdrop (HashCode sum64 ckey) (lc_configIndex l1)\<rparr>"
    by (simp add: clear_config_def Let_def l1_def)
  have l1: "cache_entry ops l1 k = (if k |\<in>| ?ref then None else cache_entry ops l k)"
    "queued_for_eviction l1 h k \<longleftrightarrow> queued_for_eviction l h k \<or> k |\<in>| ?ref \<and> depends ops l h k"
    "lc_configIndex l1 = lc_configIndex l" "lc_token l1 = lc_token l" for h k
    by (auto simp: l1_def remove_referenced_entry [OF laws] remove_referenced_queued [OF laws]
        remove_referenced_rest [OF laws] keys)
  show "cache_entry ops (clear_config ops rng sum64 ckey l) k =
      (if indexed l (HashCode sum64 ckey) k then None else cache_entry ops l k)"
    using l1(1) [of k] by (simp add: eq cache_entry_def indexed_def)
  show "indexed (clear_config ops rng sum64 ckey l) h k \<longleftrightarrow> h \<noteq> HashCode sum64 ckey \<and> indexed l h k"
    by (simp add: eq indexed_def l1(3))
  show "queued_for_eviction (clear_config ops rng sum64 ckey l) h k \<longleftrightarrow>
      queued_for_eviction l h k \<or> indexed l (HashCode sum64 ckey) k \<and> depends ops l h k"
    using l1(2) [of h k] by (simp add: eq indexed_def queued_for_eviction_def)
  show "lc_token (clear_config ops rng sum64 ckey l) = lc_token l" by (simp add: eq l1(4))
qed

lemma depends_clear_config:
  assumes "lru_laws ops" "range_order rng"
  shows "depends ops (clear_config ops rng sum64 ckey l) h k \<longleftrightarrow>
    \<not> indexed l (HashCode sum64 ckey) k \<and> depends ops l h k"
  by (simp add: depends_def clear_config(1) [OF assms])

lemma inv_clear_config:
  assumes "lru_laws ops" "range_order rng" "cache_inv ops l"
  shows "cache_inv ops (clear_config ops rng sum64 ckey l)"
  using assms(3)
  unfolding cache_inv_def depends_clear_config [OF assms(1,2)] clear_config(2,3) [OF assms(1,2)] by blast

lemma clear_loop:
  assumes "lru_laws ops" "range_order rng" "cache_inv ops l"
  shows "cache_inv ops (fold (clear_config ops rng sum64) ks l) \<and>
    lc_token (fold (clear_config ops rng sum64) ks l) = lc_token l \<and>
    (\<forall>k cv. cache_entry ops (fold (clear_config ops rng sum64) ks l) k = Some cv \<longrightarrow>
      cache_entry ops l k = Some cv \<and> set (cv_dependentConfigs cv) \<inter> HashCode sum64 ` set ks = {})"
  using assms(3)
proof (induction ks arbitrary: l)
  case (Cons ckey ks)
  let ?l = "clear_config ops rng sum64 ckey l"
  have inv: "cache_inv ops ?l" by (rule inv_clear_config [OF assms(1,2) Cons.prems])
  have entry: "cache_entry ops l k = Some cv \<and> HashCode sum64 ckey \<notin> set (cv_dependentConfigs cv)"
    if "cache_entry ops ?l k = Some cv" for k cv
    using that Cons.prems
    by (auto simp: clear_config(1) [OF assms(1,2)] cache_inv_def depends_def split: if_splits)
  show ?case
    using Cons.IH [OF inv] entry clear_config(4) [OF assms(1,2)] by (auto dest!: entry)
qed simp

lemma Cache_Clear_eq:
  "Cache_Clear ops rng sum64 l ks now =
     (fold (clear_config ops rng sum64) ks
       (l\<lparr>lc_token := token_of now, lc_evictedOnClear := True\<rparr>))\<lparr>lc_evictedOnClear := False\<rparr>"
  by (simp add: Cache_Clear_def Let_def)

lemma cache_updates [simp]:
  "cache_inv ops (l\<lparr>lc_evictedOnClear := b\<rparr>) = cache_inv ops l"
  "cache_inv ops (l\<lparr>lc_token := t\<rparr>) = cache_inv ops l"
  "cache_entry ops (l\<lparr>lc_evictedOnClear := b\<rparr>) k = cache_entry ops l k"
  "cache_entry ops (l\<lparr>lc_token := t\<rparr>) k = cache_entry ops l k"
  by (simp_all add: cache_inv_def depends_def cache_entry_def indexed_def queued_for_eviction_def
      cong: option.case_cong)

lemma Clear_correct:
  assumes "lru_laws ops" "range_order rng" "cache_inv ops l"
  shows "cache_inv ops (Cache_Clear ops rng sum64 l ks now)"
    and "lc_token (Cache_Clear ops rng sum64 l ks now) = token_of now"
    and "cache_entry ops (Cache_Clear ops rng sum64 l ks now) k = Some cv \<Longrightarrow>
      cache_entry ops l k = Some cv \<and> set (cv_dependentConfigs cv) \<inter> HashCode sum64 ` set ks = {}"
proof -
  let ?l = "l\<lparr>lc_token := token_of now, lc_evictedOnClear := True\<rparr>"
  have "cache_inv ops ?l" using assms(3) by simp
  note loop = clear_loop [OF assms(1,2) this, of sum64 ks]
  show "cache_inv ops (Cache_Clear ops rng sum64 l ks now)"
    "lc_token (Cache_Clear ops rng sum64 l ks now) = token_of now"
    using loop by (simp_all add: Cache_Clear_eq)
  show "cache_entry ops (Cache_Clear ops rng sum64 l ks now) k = Some cv \<Longrightarrow>
      cache_entry ops l k = Some cv \<and> set (cv_dependentConfigs cv) \<inter> HashCode sum64 ` set ks = {}"
    using loop by (simp add: Cache_Clear_eq)
qed

end
