(* ===== verification/CacheImpl.thy ===== *)
theory CacheImpl
  imports XdsCache
begin

text \<open>
  The interface \<^verbatim>\<open>typedXdsCache\<close>, its two implementations, and \<^verbatim>\<open>XdsCacheImpl\<close> of
  \<^verbatim>\<open>dubbod/discovery/pkg/model/xds_cache.go\<close>, which dispatches on the type of an entry. The locale
  \<open>typed_cache\<close> is the contract of the interface. Its client lemmas show that a cache that keeps
  it never serves an entry that was built from configurations cleared since.
\<close>

section \<open>The contract\<close>

text \<open>Nothing that depends on one of the configurations \<open>hs\<close> is older than \<open>t\<close>, now or later.\<close>

definition fresh_since ::
    "('c \<Rightarrow> 'k \<Rightarrow> 'r cacheValue option) \<Rightarrow> ('c \<Rightarrow> CacheToken \<Rightarrow> bool) \<Rightarrow> ConfigHash set \<Rightarrow> CacheToken \<Rightarrow> 'c \<Rightarrow> bool"
where
  "fresh_since entry accepts hs t c \<longleftrightarrow>
     (\<forall>k cv. entry c k = Some cv \<and> set (cv_dependentConfigs cv) \<inter> hs \<noteq> {} \<longrightarrow> t \<le> cv_token cv) \<and>
     (\<forall>t'. accepts c t' \<longrightarrow> t \<le> t')"

text \<open>
  \<open>entry\<close> is what the cache holds for a key; \<open>accepts\<close> says which tokens \<open>Add\<close> may still write.
\<close>

locale typed_cache =
  fixes inv :: "'c \<Rightarrow> bool"
    and entry :: "'c \<Rightarrow> 'k \<Rightarrow> 'r cacheValue option"
    and accepts :: "'c \<Rightarrow> CacheToken \<Rightarrow> bool"
    and sum64 :: "string \<Rightarrow> 64 word"
    and add :: "'c \<Rightarrow> 'k \<Rightarrow> ConfigHash list \<Rightarrow> 'p PushRequest option \<Rightarrow> 'r option \<Rightarrow> 'c"
    and get :: "'c \<Rightarrow> 'k \<Rightarrow> 'r option \<times> 'c"
    and flush :: "'c \<Rightarrow> 'c"
    and clear :: "'c \<Rightarrow> ConfigKey list \<Rightarrow> time \<Rightarrow> 'c"
    and clear_all :: "'c \<Rightarrow> time \<Rightarrow> 'c"
    and keys :: "'c \<Rightarrow> 'k list"
  assumes inv_add: "inv c \<Longrightarrow> inv (add c k deps req v)"
    and inv_get: "inv c \<Longrightarrow> inv (snd (get c k))"
    and inv_flush: "inv c \<Longrightarrow> inv (flush c)"
    and inv_clear: "inv c \<Longrightarrow> inv (clear c ks now)"
    and inv_clear_all: "inv c \<Longrightarrow> inv (clear_all c now)"
    and add_entry: "inv c \<Longrightarrow> entry (add c k deps req v) k' = Some cv \<Longrightarrow>
      entry c k' = Some cv \<or>
      (k' = k \<and> (\<exists>r. req = Some r \<and> accepts c (token_of (pr_Start r)) \<and>
         cv = \<lparr>cv_value = v, cv_token = token_of (pr_Start r), cv_dependentConfigs = deps\<rparr>))"
    and add_accepts: "inv c \<Longrightarrow> accepts (add c k deps req v) t \<Longrightarrow> accepts c t"
    and get_value: "inv c \<Longrightarrow> fst (get c k) = (case entry c k of None \<Rightarrow> None | Some cv \<Rightarrow> cv_value cv)"
    and get_entry: "inv c \<Longrightarrow> entry (snd (get c k)) k' = entry c k'"
    and get_accepts: "inv c \<Longrightarrow> accepts (snd (get c k)) t = accepts c t"
    and flush_entry: "inv c \<Longrightarrow> entry (flush c) k' = entry c k'"
    and flush_accepts: "inv c \<Longrightarrow> accepts (flush c) t = accepts c t"
    and clear_entry: "inv c \<Longrightarrow> entry (clear c ks now) k = Some cv \<Longrightarrow>
      entry c k = Some cv \<and> set (cv_dependentConfigs cv) \<inter> HashCode sum64 ` set ks = {}"
    and clear_accepts: "inv c \<Longrightarrow> accepts (clear c ks now) t \<Longrightarrow> token_of now \<le> t"
    and clear_all_entry: "inv c \<Longrightarrow> entry (clear_all c now) k = None"
    and clear_all_accepts: "inv c \<Longrightarrow> accepts (clear_all c now) t \<Longrightarrow> token_of now \<le> t"
    and keys_entry: "inv c \<Longrightarrow> distinct (keys c) \<and> set (keys c) = {k. entry c k \<noteq> None}"
begin

lemma fresh_clear: "inv c \<Longrightarrow> fresh_since entry accepts (HashCode sum64 ` set ks) (token_of now) (clear c ks now)"
  by (auto simp: fresh_since_def dest: clear_entry clear_accepts)

lemma fresh_clear_all: "inv c \<Longrightarrow> fresh_since entry accepts hs (token_of now) (clear_all c now)"
  by (auto simp: fresh_since_def clear_all_entry dest: clear_all_accepts)

lemma fresh_add:
  assumes "inv c" "fresh_since entry accepts hs t c"
  shows "fresh_since entry accepts hs t (add c k deps req v)"
proof -
  have "t \<le> cv_token cv"
    if e: "entry (add c k deps req v) k' = Some cv" "set (cv_dependentConfigs cv) \<inter> hs \<noteq> {}" for k' cv
    using add_entry [OF assms(1) e(1)] assms(2) e(2) by (auto simp: fresh_since_def)
  moreover have "t \<le> t'" if "accepts (add c k deps req v) t'" for t'
    using add_accepts [OF assms(1) that] assms(2) by (simp add: fresh_since_def)
  ultimately show ?thesis by (auto simp: fresh_since_def)
qed

lemma fresh_get: "inv c \<Longrightarrow> fresh_since entry accepts hs t (snd (get c k)) = fresh_since entry accepts hs t c"
  by (simp add: fresh_since_def get_entry get_accepts)

lemma fresh_flush: "inv c \<Longrightarrow> fresh_since entry accepts hs t (flush c) = fresh_since entry accepts hs t c"
  by (simp add: fresh_since_def flush_entry flush_accepts)

lemma fresh_clear_later:
  "inv c \<Longrightarrow> fresh_since entry accepts hs t c \<Longrightarrow> t \<le> token_of now \<Longrightarrow> fresh_since entry accepts hs t (clear c ks now)"
  unfolding fresh_since_def by (meson clear_accepts clear_entry order_trans)

lemma fresh_clear_all_later:
  "inv c \<Longrightarrow> t \<le> token_of now \<Longrightarrow> fresh_since entry accepts hs t (clear_all c now)"
  unfolding fresh_since_def by (auto simp: clear_all_entry dest: clear_all_accepts)

lemma fresh_mono: "fresh_since entry accepts hs t c \<Longrightarrow> t' \<le> t \<Longrightarrow> fresh_since entry accepts hs t' c"
  unfolding fresh_since_def by (meson order_trans)

lemma get_fresh:
  assumes "inv c" "fresh_since entry accepts hs t c" "fst (get c k) = Some v"
  shows "\<exists>cv. entry c k = Some cv \<and> cv_value cv = Some v \<and>
    (set (cv_dependentConfigs cv) \<inter> hs = {} \<or> t \<le> cv_token cv)"
  using assms by (auto simp: get_value fresh_since_def split: option.splits)

end

section \<open>Implementations\<close>

definition lru_accepts :: "('s, 'k) lruCache \<Rightarrow> CacheToken \<Rightarrow> bool" where
  "lru_accepts l t \<longleftrightarrow> lc_token l \<le> t"

definition lru_inv :: "('s, 'k, 'r cacheValue) LRU \<Rightarrow> ('k fset \<Rightarrow> 'k list) \<Rightarrow> ('s, 'k) lruCache \<Rightarrow> bool" where
  "lru_inv ops rng l \<longleftrightarrow> lru_laws ops \<and> range_order rng \<and> cache_inv ops l"

lemma lru_Add_entry:
  assumes "lru_inv ops rng l" "cache_entry ops (Cache_Add ops l k deps req v) k' = Some cv"
  shows "cache_entry ops l k' = Some cv \<or>
    (k' = k \<and> (\<exists>r. req = Some r \<and> lru_accepts l (token_of (pr_Start r)) \<and>
       cv = \<lparr>cv_value = v, cv_token = token_of (pr_Start r), cv_dependentConfigs = deps\<rparr>))"
proof (cases "add_accepted ops l k req")
  case True
  have laws: "lru_laws ops" using assms(1) by (simp add: lru_inv_def)
  show ?thesis
  proof (rule Add_accepted [OF laws True, of deps v], goal_cases)
    case (1 r evicted)
    then show ?case
      using assms(2) True by (auto simp: lru_accepts_def add_accepted_def split: if_splits)
  qed
next
  case False
  then show ?thesis using assms Add_rejected(1) by (metis lru_inv_def)
qed

lemma lru_Add_accepts:
  assumes "lru_inv ops rng l" "lru_accepts (Cache_Add ops l k deps req v) t"
  shows "lru_accepts l t"
proof (cases "add_accepted ops l k req")
  case True
  have laws: "lru_laws ops" using assms(1) by (simp add: lru_inv_def)
  show ?thesis
  proof (rule Add_accepted [OF laws True, of deps v], goal_cases)
    case (1 r evicted)
    then show ?case using assms(2) True by (auto simp: lru_accepts_def add_accepted_def)
  qed
next
  case False
  have "lru_laws ops" using assms(1) by (simp add: lru_inv_def)
  then show ?thesis using assms(2) by (simp add: lru_accepts_def Add_rejected(4) [OF _ False])
qed

lemma lru_Get:
  "fst (Cache_Get ops l k) = (case cache_entry ops l k of None \<Rightarrow> None | Some cv \<Rightarrow> cv_value cv)"
  "lc_token (snd (Cache_Get ops l k)) = lc_token l"
  "lru_laws ops \<Longrightarrow> cache_entry ops (snd (Cache_Get ops l k)) k' = cache_entry ops l k'"
  "lru_laws ops \<Longrightarrow> cache_inv ops l \<Longrightarrow> cache_inv ops (snd (Cache_Get ops l k))"
  by (simp_all add: Cache_Get_def get_fst get_snd inv_get [of ops l k 0, unfolded get_snd]
      split: option.splits)

lemma lru_ClearAll:
  "lru_laws ops \<Longrightarrow> cache_entry ops (Cache_ClearAll ops maxSize l now) k = None"
  "lc_token (Cache_ClearAll ops maxSize l now) = token_of now"
  by (simp_all add: Cache_ClearAll_def cache_entry_def laws_New)

interpretation lru: typed_cache "lru_inv ops rng" "cache_entry ops" lru_accepts sum64 "Cache_Add ops"
  "Cache_Get ops" "Cache_Flush ops" "Cache_Clear ops rng sum64" "Cache_ClearAll ops maxSize" "Cache_Keys ops"
  for ops rng sum64 maxSize
proof (unfold_locales, goal_cases)
  case (1 c k deps req v)
  then show ?case by (simp add: lru_inv_def inv_Add)
next
  case (6 c k deps req v k' cv)
  then show ?case by (rule lru_Add_entry)
next
  case (7 c k deps req v t)
  then show ?case by (rule lru_Add_accepts)
next
  case (13 c ks now k cv)
  then show ?case
    unfolding lru_inv_def by (elim conjE) (rule Clear_correct(3) [of ops rng])
next
  case (17 c)
  then show ?case by (simp add: lru_inv_def Cache_Keys_def cache_entry_def laws_Keys)
qed (simp_all add: lru_inv_def lru_accepts_def inv_Flush inv_ClearAll Clear_correct(1) lru_Get lru_ClearAll
    Clear_correct(2) [of ops rng])

text \<open>The cache that is always empty. It has no state.\<close>

definition Disabled_Add ::
    "unit \<Rightarrow> 'k \<Rightarrow> ConfigHash list \<Rightarrow> 'p PushRequest option \<Rightarrow> 'r option \<Rightarrow> unit" where
  "Disabled_Add d k deps pushReq value = d"

definition Disabled_Get :: "unit \<Rightarrow> 'k \<Rightarrow> 'r option \<times> unit" where
  "Disabled_Get d k = (None, d)"

definition Disabled_Flush :: "unit \<Rightarrow> unit" where
  "Disabled_Flush d = d"

definition Disabled_Clear :: "unit \<Rightarrow> ConfigKey list \<Rightarrow> time \<Rightarrow> unit" where
  "Disabled_Clear d configsUpdated now = d"

definition Disabled_ClearAll :: "unit \<Rightarrow> time \<Rightarrow> unit" where
  "Disabled_ClearAll d now = d"

definition Disabled_Keys :: "unit \<Rightarrow> 'k list" where
  "Disabled_Keys d = []"

definition Disabled_Snapshot :: "unit \<Rightarrow> 'r option list" where
  "Disabled_Snapshot d = []"

interpretation disabled: typed_cache "\<lambda>_. True" "\<lambda>_ _. None" "\<lambda>_ _. False" sum64 Disabled_Add
  Disabled_Get Disabled_Flush Disabled_Clear Disabled_ClearAll Disabled_Keys
  for sum64
  by unfold_locales (simp_all add: Disabled_Get_def Disabled_Keys_def)

section \<open>Dispatch\<close>

text \<open>An interface value holds one of the two implementations.\<close>

datatype ('s, 'k) typedXdsCache =
  is_LruCache: LruCache "('s, 'k) lruCache"
| DisabledTyped unit

definition typed_Add ::
    "('s, 'k, 'r cacheValue) LRU \<Rightarrow> ('s, 'k) typedXdsCache \<Rightarrow> 'k \<Rightarrow> ConfigHash list \<Rightarrow>
       'p PushRequest option \<Rightarrow> 'r option \<Rightarrow> ('s, 'k) typedXdsCache" where
  "typed_Add ops c k deps req v =
     (case c of LruCache l \<Rightarrow> LruCache (Cache_Add ops l k deps req v)
      | DisabledTyped d \<Rightarrow> DisabledTyped (Disabled_Add d k deps req v))"

definition typed_Get ::
    "('s, 'k, 'r cacheValue) LRU \<Rightarrow> ('s, 'k) typedXdsCache \<Rightarrow> 'k \<Rightarrow> 'r option \<times> ('s, 'k) typedXdsCache" where
  "typed_Get ops c k =
     (case c of LruCache l \<Rightarrow> map_prod id LruCache (Cache_Get ops l k)
      | DisabledTyped d \<Rightarrow> map_prod id DisabledTyped (Disabled_Get d k))"

definition typed_Flush ::
    "('s, 'k, 'r cacheValue) LRU \<Rightarrow> ('s, 'k) typedXdsCache \<Rightarrow> ('s, 'k) typedXdsCache" where
  "typed_Flush ops c =
     (case c of LruCache l \<Rightarrow> LruCache (Cache_Flush ops l)
      | DisabledTyped d \<Rightarrow> DisabledTyped (Disabled_Flush d))"

definition typed_Clear ::
    "('s, 'k, 'r cacheValue) LRU \<Rightarrow> ('k fset \<Rightarrow> 'k list) \<Rightarrow> (string \<Rightarrow> 64 word) \<Rightarrow>
       ('s, 'k) typedXdsCache \<Rightarrow> ConfigKey list \<Rightarrow> time \<Rightarrow> ('s, 'k) typedXdsCache" where
  "typed_Clear ops rng sum64 c ks now =
     (case c of LruCache l \<Rightarrow> LruCache (Cache_Clear ops rng sum64 l ks now)
      | DisabledTyped d \<Rightarrow> DisabledTyped (Disabled_Clear d ks now))"

definition typed_ClearAll ::
    "('s, 'k, 'r cacheValue) LRU \<Rightarrow> int \<Rightarrow> ('s, 'k) typedXdsCache \<Rightarrow> time \<Rightarrow> ('s, 'k) typedXdsCache" where
  "typed_ClearAll ops maxSize c now =
     (case c of LruCache l \<Rightarrow> LruCache (Cache_ClearAll ops maxSize l now)
      | DisabledTyped d \<Rightarrow> DisabledTyped (Disabled_ClearAll d now))"

definition typed_Keys :: "('s, 'k, 'r cacheValue) LRU \<Rightarrow> ('s, 'k) typedXdsCache \<Rightarrow> 'k list" where
  "typed_Keys ops c =
     (case c of LruCache l \<Rightarrow> Cache_Keys ops l | DisabledTyped d \<Rightarrow> Disabled_Keys d)"

definition typed_Snapshot ::
    "('s, 'k, 'r cacheValue) LRU \<Rightarrow> ('s, 'k) typedXdsCache \<Rightarrow> 'r option list \<times> ('s, 'k) typedXdsCache" where
  "typed_Snapshot ops c =
     (case c of LruCache l \<Rightarrow> map_prod id LruCache (Cache_Snapshot ops l)
      | DisabledTyped d \<Rightarrow> (Disabled_Snapshot d, DisabledTyped d))"

definition typed_entry ::
    "('s, 'k, 'r cacheValue) LRU \<Rightarrow> ('s, 'k) typedXdsCache \<Rightarrow> 'k \<Rightarrow> 'r cacheValue option" where
  "typed_entry ops c k = (case c of LruCache l \<Rightarrow> cache_entry ops l k | DisabledTyped d \<Rightarrow> None)"

definition typed_accepts :: "('s, 'k) typedXdsCache \<Rightarrow> CacheToken \<Rightarrow> bool" where
  "typed_accepts c t = (case c of LruCache l \<Rightarrow> lru_accepts l t | DisabledTyped d \<Rightarrow> False)"

definition typed_inv ::
    "('s, 'k, 'r cacheValue) LRU \<Rightarrow> ('k fset \<Rightarrow> 'k list) \<Rightarrow> ('s, 'k) typedXdsCache \<Rightarrow> bool" where
  "typed_inv ops rng c = (case c of LruCache l \<Rightarrow> lru_inv ops rng l | DisabledTyped d \<Rightarrow> True)"

lemmas typed_defs = typed_Add_def typed_Get_def typed_Flush_def typed_Clear_def typed_ClearAll_def
  typed_Keys_def typed_entry_def typed_accepts_def typed_inv_def
  Disabled_Get_def Disabled_Keys_def

interpretation dispatch: typed_cache "typed_inv ops rng" "typed_entry ops" typed_accepts sum64 "typed_Add ops"
  "typed_Get ops" "typed_Flush ops" "typed_Clear ops rng sum64" "typed_ClearAll ops maxSize" "typed_Keys ops"
  for ops rng sum64 maxSize
proof (unfold_locales, goal_cases)
  case (6 c k deps req v k' cv)
  then show ?case using lru.add_entry [of ops rng] by (simp add: typed_defs split: typedXdsCache.splits)
next
  case (7 c k deps req v t)
  then show ?case using lru.add_accepts [of ops rng] by (auto simp: typed_defs split: typedXdsCache.splits)
next
  case (13 c ks now k cv)
  then show ?case using lru.clear_entry [of ops rng] by (simp add: typed_defs split: typedXdsCache.splits)
next
  case (14 c ks now t)
  then show ?case using lru.clear_accepts [of ops rng] by (auto simp: typed_defs split: typedXdsCache.splits)
next
  case (16 c now t)
  then show ?case using lru.clear_all_accepts [of ops rng] by (auto simp: typed_defs split: typedXdsCache.splits)
next
  case (15 c now k)
  then show ?case using lru.clear_all_entry [of ops rng] by (auto simp: typed_defs split: typedXdsCache.splits)
next
  case (17 c)
  then show ?case using lru.keys_entry [of ops rng] by (auto simp: typed_defs split: typedXdsCache.splits)
qed (auto simp: typed_defs lru.inv_add lru.inv_get lru.inv_flush lru.inv_clear lru.inv_clear_all
    lru.get_value lru.get_entry lru.get_accepts lru.flush_entry lru.flush_accepts
    split: typedXdsCache.splits)

section \<open>XdsCacheImpl\<close>

text \<open>\<^verbatim>\<open>Key() any\<close>: the dynamic types the code asserts.\<close>

datatype any_key = AnyUint64 "64 word" | AnyString string

record XdsCacheEntry =
  xe_Type :: string
  xe_Key :: any_key
  xe_DependentConfigs :: "ConfigHash list"
  xe_Cacheable :: bool

text \<open>What is not part of the code: the two stores, the hash, the orders of iteration, the size.\<close>

record ('s, 't, 'r) cache_env =
  ce_opsU :: "('s, 64 word, 'r cacheValue) LRU"
  ce_opsS :: "('t, string, 'r cacheValue) LRU"
  ce_rngU :: "64 word fset \<Rightarrow> 64 word list"
  ce_rngS :: "string fset \<Rightarrow> string list"
  ce_sum64 :: "string \<Rightarrow> 64 word"
  ce_XDSCacheMaxSize :: int

record ('s, 't) XdsCacheImpl =
  xc_cds :: "('s, 64 word) typedXdsCache"
  xc_eds :: "('s, 64 word) typedXdsCache"
  xc_rds :: "('s, 64 word) typedXdsCache"
  xc_sds :: "('t, string) typedXdsCache"

definition CDSType :: string where "CDSType = ''cds''"
definition EDSType :: string where "EDSType = ''eds''"
definition RDSType :: string where "RDSType = ''rds''"
definition SDSType :: string where "SDSType = ''sds''"

lemmas cache_types = CDSType_def EDSType_def RDSType_def SDSType_def

definition NewXdsCache :: "('s, 't, 'r) cache_env \<Rightarrow> bool \<Rightarrow> bool \<Rightarrow> ('s, 't) XdsCacheImpl" where
  "NewXdsCache env EnableCDSCaching EnableRDSCaching =
     (let newU = LruCache (newTypedXdsCache (ce_opsU env) (ce_XDSCacheMaxSize env)) in
      \<lparr>xc_cds = (if EnableCDSCaching then newU else DisabledTyped ()),
       xc_eds = newU,
       xc_rds = (if EnableRDSCaching then newU else DisabledTyped ()),
       xc_sds = LruCache (newTypedXdsCache (ce_opsS env) (ce_XDSCacheMaxSize env))\<rparr>)"

text \<open>One tick of the loop in \<^verbatim>\<open>Run\<close>.\<close>

definition Impl_Flush :: "('s, 't, 'r) cache_env \<Rightarrow> ('s, 't) XdsCacheImpl \<Rightarrow> ('s, 't) XdsCacheImpl" where
  "Impl_Flush env x =
     \<lparr>xc_cds = typed_Flush (ce_opsU env) (xc_cds x), xc_eds = typed_Flush (ce_opsU env) (xc_eds x),
      xc_rds = typed_Flush (ce_opsU env) (xc_rds x), xc_sds = typed_Flush (ce_opsS env) (xc_sds x)\<rparr>"

definition as_uint64 :: "any_key \<Rightarrow> panic + 64 word" where
  "as_uint64 k = (case k of AnyUint64 w \<Rightarrow> Inr w | AnyString _ \<Rightarrow> Inl TypeAssertion)"

definition as_string :: "any_key \<Rightarrow> panic + string" where
  "as_string k = (case k of AnyUint64 _ \<Rightarrow> Inl TypeAssertion | AnyString s \<Rightarrow> Inr s)"

definition Impl_Add ::
    "('s, 't, 'r) cache_env \<Rightarrow> ('s, 't) XdsCacheImpl \<Rightarrow> XdsCacheEntry \<Rightarrow> 'p PushRequest option \<Rightarrow> 'r option \<Rightarrow>
       panic + ('s, 't) XdsCacheImpl" where
  "Impl_Add env x entry pushRequest value =
     (let addU = (\<lambda>c key. typed_Add (ce_opsU env) c key (xe_DependentConfigs entry) pushRequest value);
          k = xe_Key entry in
      if \<not> xe_Cacheable entry then Inr x
      else if xe_Type entry = CDSType then
        map_sum id (\<lambda>key. x\<lparr>xc_cds := addU (xc_cds x) key\<rparr>) (as_uint64 k)
      else if xe_Type entry = EDSType then
        map_sum id (\<lambda>key. x\<lparr>xc_eds := addU (xc_eds x) key\<rparr>) (as_uint64 k)
      else if xe_Type entry = SDSType then
        map_sum id (\<lambda>key. x\<lparr>xc_sds :=
          typed_Add (ce_opsS env) (xc_sds x) key (xe_DependentConfigs entry) pushRequest value\<rparr>) (as_string k)
      else if xe_Type entry = RDSType then
        map_sum id (\<lambda>key. x\<lparr>xc_rds := addU (xc_rds x) key\<rparr>) (as_uint64 k)
      else Inr x)"

definition Impl_Get ::
    "('s, 't, 'r) cache_env \<Rightarrow> ('s, 't) XdsCacheImpl \<Rightarrow> XdsCacheEntry \<Rightarrow>
       panic + ('r option \<times> ('s, 't) XdsCacheImpl)" where
  "Impl_Get env x entry =
     (let k = xe_Key entry in
      if \<not> xe_Cacheable entry then Inr (None, x)
      else if xe_Type entry = CDSType then
        map_sum id (\<lambda>key. map_prod id (\<lambda>c. x\<lparr>xc_cds := c\<rparr>) (typed_Get (ce_opsU env) (xc_cds x) key)) (as_uint64 k)
      else if xe_Type entry = EDSType then
        map_sum id (\<lambda>key. map_prod id (\<lambda>c. x\<lparr>xc_eds := c\<rparr>) (typed_Get (ce_opsU env) (xc_eds x) key)) (as_uint64 k)
      else if xe_Type entry = SDSType then
        map_sum id (\<lambda>key. map_prod id (\<lambda>c. x\<lparr>xc_sds := c\<rparr>) (typed_Get (ce_opsS env) (xc_sds x) key)) (as_string k)
      else if xe_Type entry = RDSType then
        map_sum id (\<lambda>key. map_prod id (\<lambda>c. x\<lparr>xc_rds := c\<rparr>) (typed_Get (ce_opsU env) (xc_rds x) key)) (as_uint64 k)
      else Inr (None, x))"

text \<open>Each of the four caches reads the clock for itself: \<open>now\<close> holds the four readings.\<close>

record clock_readings =
  now_cds :: time
  now_eds :: time
  now_rds :: time
  now_sds :: time

definition Impl_Clear ::
    "('s, 't, 'r) cache_env \<Rightarrow> ('s, 't) XdsCacheImpl \<Rightarrow> ConfigKey list \<Rightarrow> clock_readings \<Rightarrow> ('s, 't) XdsCacheImpl" where
  "Impl_Clear env x ks now =
     (let clearU = typed_Clear (ce_opsU env) (ce_rngU env) (ce_sum64 env) in
      \<lparr>xc_cds = clearU (xc_cds x) ks (now_cds now),
       xc_eds = (if HasConfigsOfKind (Some (fset_of_list ks)) KindPeerAuthentication
                 then typed_ClearAll (ce_opsU env) (ce_XDSCacheMaxSize env) (xc_eds x) (now_eds now)
                 else clearU (xc_eds x) ks (now_eds now)),
       xc_rds = clearU (xc_rds x) ks (now_rds now),
       xc_sds = typed_Clear (ce_opsS env) (ce_rngS env) (ce_sum64 env) (xc_sds x) ks (now_sds now)\<rparr>)"

definition Impl_ClearAll ::
    "('s, 't, 'r) cache_env \<Rightarrow> ('s, 't) XdsCacheImpl \<Rightarrow> clock_readings \<Rightarrow> ('s, 't) XdsCacheImpl" where
  "Impl_ClearAll env x now =
     (let allU = typed_ClearAll (ce_opsU env) (ce_XDSCacheMaxSize env) in
      \<lparr>xc_cds = allU (xc_cds x) (now_cds now), xc_eds = allU (xc_eds x) (now_eds now),
       xc_rds = allU (xc_rds x) (now_rds now),
       xc_sds = typed_ClearAll (ce_opsS env) (ce_XDSCacheMaxSize env) (xc_sds x) (now_sds now)\<rparr>)"

definition Impl_Keys :: "('s, 't, 'r) cache_env \<Rightarrow> ('s, 't) XdsCacheImpl \<Rightarrow> string \<Rightarrow> any_key list" where
  "Impl_Keys env x t =
     (if t = CDSType then map AnyUint64 (typed_Keys (ce_opsU env) (xc_cds x))
      else if t = EDSType then map AnyUint64 (typed_Keys (ce_opsU env) (xc_eds x))
      else if t = SDSType then map AnyString (typed_Keys (ce_opsS env) (xc_sds x))
      else if t = RDSType then map AnyUint64 (typed_Keys (ce_opsU env) (xc_rds x))
      else [])"

definition Impl_Snapshot ::
    "('s, 't, 'r) cache_env \<Rightarrow> ('s, 't) XdsCacheImpl \<Rightarrow> 'r option list \<times> ('s, 't) XdsCacheImpl" where
  "Impl_Snapshot env x =
     (case typed_Snapshot (ce_opsU env) (xc_cds x) of (a, cds) \<Rightarrow>
      case typed_Snapshot (ce_opsU env) (xc_eds x) of (b, eds) \<Rightarrow>
      case typed_Snapshot (ce_opsU env) (xc_rds x) of (c, rds) \<Rightarrow>
      case typed_Snapshot (ce_opsS env) (xc_sds x) of (d, sds) \<Rightarrow>
        (a @ b @ c @ d, \<lparr>xc_cds = cds, xc_eds = eds, xc_rds = rds, xc_sds = sds\<rparr>))"

section \<open>Runs of the cache\<close>

datatype ('p, 'r) cache_op =
  OpAdd XdsCacheEntry "'p PushRequest option" "'r option"
| OpGet XdsCacheEntry
| OpFlush
| OpClear "ConfigKey list" clock_readings
| OpClearAll clock_readings

fun cache_step ::
    "('s, 't, 'r) cache_env \<Rightarrow> ('s, 't) XdsCacheImpl \<Rightarrow> ('p, 'r) cache_op \<Rightarrow> panic + ('s, 't) XdsCacheImpl" where
  "cache_step env x (OpAdd e req v) = Impl_Add env x e req v"
| "cache_step env x (OpGet e) = map_sum id snd (Impl_Get env x e)"
| "cache_step env x OpFlush = Inr (Impl_Flush env x)"
| "cache_step env x (OpClear ks now) = Inr (Impl_Clear env x ks now)"
| "cache_step env x (OpClearAll now) = Inr (Impl_ClearAll env x now)"

fun cache_exec ::
    "('s, 't, 'r) cache_env \<Rightarrow> ('s, 't) XdsCacheImpl \<Rightarrow> ('p, 'r) cache_op list \<Rightarrow> panic + ('s, 't) XdsCacheImpl" where
  "cache_exec env x [] = Inr x"
| "cache_exec env x (op # ops) =
     (case cache_step env x op of Inl p \<Rightarrow> Inl p | Inr x \<Rightarrow> cache_exec env x ops)"

definition readings_after :: "time \<Rightarrow> clock_readings \<Rightarrow> bool" where
  "readings_after t now \<longleftrightarrow> t \<le> now_cds now \<and> t \<le> now_eds now \<and> t \<le> now_rds now \<and> t \<le> now_sds now
     \<and> now_cds now < 2 ^ 63 \<and> now_eds now < 2 ^ 63 \<and> now_rds now < 2 ^ 63 \<and> now_sds now < 2 ^ 63"

fun op_after :: "time \<Rightarrow> ('p, 'r) cache_op \<Rightarrow> bool" where
  "op_after t (OpClear ks now) = readings_after t now"
| "op_after t (OpClearAll now) = readings_after t now"
| "op_after t _ = True"

text \<open>The entry an implementation holds for the key of a cache entry.\<close>

definition stored :: "('s, 't, 'r) cache_env \<Rightarrow> ('s, 't) XdsCacheImpl \<Rightarrow> XdsCacheEntry \<Rightarrow> 'r cacheValue option" where
  "stored env x e =
     (case xe_Key e of
        AnyUint64 k \<Rightarrow>
          if xe_Type e = CDSType then typed_entry (ce_opsU env) (xc_cds x) k
          else if xe_Type e = EDSType then typed_entry (ce_opsU env) (xc_eds x) k
          else if xe_Type e = RDSType then typed_entry (ce_opsU env) (xc_rds x) k else None
      | AnyString k \<Rightarrow>
          if xe_Type e = SDSType then typed_entry (ce_opsS env) (xc_sds x) k else None)"

definition impl_inv :: "('s, 't, 'r) cache_env \<Rightarrow> ('s, 't) XdsCacheImpl \<Rightarrow> bool" where
  "impl_inv env x \<longleftrightarrow>
     typed_inv (ce_opsU env) (ce_rngU env) (xc_cds x) \<and> typed_inv (ce_opsU env) (ce_rngU env) (xc_eds x) \<and>
     typed_inv (ce_opsU env) (ce_rngU env) (xc_rds x) \<and> typed_inv (ce_opsS env) (ce_rngS env) (xc_sds x)"

text \<open>The hypothesis on the environment: the stores keep their laws and iteration visits each key once.\<close>

definition env_ok :: "('s, 't, 'r) cache_env \<Rightarrow> bool" where
  "env_ok env \<longleftrightarrow> lru_laws (ce_opsU env) \<and> lru_laws (ce_opsS env) \<and>
     range_order (ce_rngU env) \<and> range_order (ce_rngS env)"

definition impl_fresh :: "('s, 't, 'r) cache_env \<Rightarrow> ConfigHash set \<Rightarrow> CacheToken \<Rightarrow> ('s, 't) XdsCacheImpl \<Rightarrow> bool" where
  "impl_fresh env hs t x \<longleftrightarrow>
     fresh_since (typed_entry (ce_opsU env)) typed_accepts hs t (xc_cds x) \<and> fresh_since (typed_entry (ce_opsU env)) typed_accepts hs t (xc_eds x) \<and>
     fresh_since (typed_entry (ce_opsU env)) typed_accepts hs t (xc_rds x) \<and> fresh_since (typed_entry (ce_opsS env)) typed_accepts hs t (xc_sds x)"

lemma inv_NewXdsCache: "env_ok env \<Longrightarrow> impl_inv env (NewXdsCache env b1 b2)"
  by (simp add: env_ok_def impl_inv_def NewXdsCache_def Let_def typed_inv_def lru_inv_def inv_New)

lemma step_inv: "cache_step env x op = Inr x' \<Longrightarrow> impl_inv env x \<Longrightarrow> impl_inv env x'"
  by (cases op)
    (auto simp: impl_inv_def Impl_Add_def Impl_Get_def Impl_Flush_def Impl_Clear_def Impl_ClearAll_def
      Let_def as_uint64_def as_string_def dispatch.inv_add dispatch.inv_get dispatch.inv_flush
      dispatch.inv_clear dispatch.inv_clear_all split: if_splits any_key.splits)

lemma exec_inv: "cache_exec env x ops = Inr x' \<Longrightarrow> impl_inv env x \<Longrightarrow> impl_inv env x'"
  by (induction env x ops rule: cache_exec.induct) (auto split: sum.splits dest: step_inv)

lemma token_of_mono: "0 \<le> t \<Longrightarrow> t \<le> t' \<Longrightarrow> t' < 2 ^ 63 \<Longrightarrow> token_of t \<le> token_of t'"
  by (simp add: token_of_def word_le_def uint_word_of_int_eq take_bit_int_eq_self)

lemma uint_token_of: "0 \<le> t \<Longrightarrow> t < 2 ^ 63 \<Longrightarrow> uint (token_of t) = t"
  by (simp add: token_of_def uint_word_of_int_eq take_bit_int_eq_self)

lemma readings_tokens:
  assumes "readings_after t now" "0 \<le> t"
  shows "token_of t \<le> token_of (now_cds now)" "token_of t \<le> token_of (now_eds now)"
    "token_of t \<le> token_of (now_rds now)" "token_of t \<le> token_of (now_sds now)"
  using assms by (simp_all add: readings_after_def token_of_mono)

lemma fresh_Impl_Clear:
  assumes "impl_inv env x" "readings_after t now" "0 \<le> t"
  shows "impl_fresh env (HashCode (ce_sum64 env) ` set ks) (token_of t) (Impl_Clear env x ks now)"
  using assms(1) readings_tokens [OF assms(2,3)]
  by (auto simp: impl_fresh_def impl_inv_def Impl_Clear_def Let_def
      intro: dispatch.fresh_mono [OF dispatch.fresh_clear] dispatch.fresh_mono [OF dispatch.fresh_clear_all])

lemma step_fresh:
  assumes "cache_step env x op = Inr x'" "impl_inv env x" "impl_fresh env hs (token_of t) x"
    "op_after t op" "0 \<le> t"
  shows "impl_fresh env hs (token_of t) x'"
proof (cases op)
  case (OpClear ks now)
  then have "readings_after t now" using assms(4) by simp
  note tokens = readings_tokens [OF this assms(5)]
  then show ?thesis
    using assms(1-3) OpClear
    by (auto simp: impl_fresh_def impl_inv_def Impl_Clear_def Let_def
        dispatch.fresh_clear_later dispatch.fresh_clear_all_later)
next
  case (OpClearAll now)
  then have "readings_after t now" using assms(4) by simp
  note tokens = readings_tokens [OF this assms(5)]
  then show ?thesis
    using assms(1-3) OpClearAll
    by (auto simp: impl_fresh_def impl_inv_def Impl_ClearAll_def Let_def dispatch.fresh_clear_all_later)
qed (use assms(1-3) in \<open>auto simp: impl_fresh_def impl_inv_def Impl_Add_def Impl_Get_def Impl_Flush_def
      Let_def as_uint64_def as_string_def dispatch.fresh_add dispatch.fresh_get dispatch.fresh_flush
      split: if_splits any_key.splits\<close>)

lemma exec_fresh:
  "cache_exec env x ops = Inr x' \<Longrightarrow> impl_inv env x \<Longrightarrow> impl_fresh env hs (token_of t) x \<Longrightarrow>
     list_all (op_after t) ops \<Longrightarrow> 0 \<le> t \<Longrightarrow> impl_fresh env hs (token_of t) x'"
  by (induction env x ops rule: cache_exec.induct) (auto split: sum.splits dest: step_inv step_fresh)

lemma typed_Get_fresh:
  assumes "typed_inv ops rng c" "fresh_since (typed_entry ops) typed_accepts hs t c"
    "fst (typed_Get ops c k) = Some v"
  shows "\<exists>cv. typed_entry ops c k = Some cv \<and> cv_value cv = Some v \<and>
    (set (cv_dependentConfigs cv) \<inter> hs = {} \<or> t \<le> cv_token cv)"
  by (rule dispatch.get_fresh [OF assms])

lemma types_distinct [simp]:
  "CDSType \<noteq> EDSType" "CDSType \<noteq> RDSType" "CDSType \<noteq> SDSType" "EDSType \<noteq> CDSType" "EDSType \<noteq> RDSType"
  "EDSType \<noteq> SDSType" "RDSType \<noteq> CDSType" "RDSType \<noteq> EDSType" "RDSType \<noteq> SDSType"
  "SDSType \<noteq> CDSType" "SDSType \<noteq> EDSType" "SDSType \<noteq> RDSType"
  by (simp_all add: cache_types)

lemma fst_of_map_prod: "map_prod id f p = (a, b) \<Longrightarrow> fst p = a"
  by (cases p) simp

lemma Impl_Get_cases:
  assumes "Impl_Get env x e = Inr (Some v, x')"
  shows "(\<exists>k c. xe_Key e = AnyUint64 k \<and> fst (typed_Get (ce_opsU env) c k) = Some v \<and>
      c \<in> {xc_cds x, xc_eds x, xc_rds x} \<and> stored env x e = typed_entry (ce_opsU env) c k) \<or>
    (\<exists>k. xe_Key e = AnyString k \<and> fst (typed_Get (ce_opsS env) (xc_sds x) k) = Some v \<and>
      stored env x e = typed_entry (ce_opsS env) (xc_sds x) k)"
  using assms
  by (cases "xe_Key e")
    (auto dest!: fst_of_map_prod simp: Impl_Get_def stored_def Let_def as_uint64_def as_string_def split: if_splits)

lemma Impl_Get_stored:
  assumes "impl_inv env x" "impl_fresh env hs t x" "Impl_Get env x e = Inr (Some v, x')"
  shows "\<exists>cv. stored env x e = Some cv \<and> cv_value cv = Some v \<and>
    (set (cv_dependentConfigs cv) \<inter> hs = {} \<or> t \<le> cv_token cv)"
  using Impl_Get_cases [OF assms(3)]
proof (elim disjE exE conjE)
  fix k c
  assume get: "fst (typed_Get (ce_opsU env) c k) = Some v" and c: "c \<in> {xc_cds x, xc_eds x, xc_rds x}"
    and "stored env x e = typed_entry (ce_opsU env) c k"
  moreover have "typed_inv (ce_opsU env) (ce_rngU env) c"
    "fresh_since (typed_entry (ce_opsU env)) typed_accepts hs t c"
    using c assms(1,2) by (auto simp: impl_inv_def impl_fresh_def)
  ultimately show ?thesis using typed_Get_fresh by (metis (no_types, lifting))
next
  fix k
  assume get: "fst (typed_Get (ce_opsS env) (xc_sds x) k) = Some v"
    and "stored env x e = typed_entry (ce_opsS env) (xc_sds x) k"
  moreover have "typed_inv (ce_opsS env) (ce_rngS env) (xc_sds x)"
    "fresh_since (typed_entry (ce_opsS env)) typed_accepts hs t (xc_sds x)"
    using assms(1,2) by (auto simp: impl_inv_def impl_fresh_def)
  ultimately show ?thesis using typed_Get_fresh by (metis (no_types, lifting))
qed

section \<open>A store that keeps the laws\<close>

text \<open>
  A store for the witnesses: the capacity and the entries, most recently used first.
\<close>

definition list_lru :: "(nat \<times> ('k \<times> 'v) list, 'k, 'v) LRU" where
  "list_lru =
     \<lparr>lru_New = (\<lambda>n. (nat n, [])),
      lru_Get = (\<lambda>(n, xs) k. case map_of xs k of None \<Rightarrow> (None, (n, xs))
        | Some v \<Rightarrow> (Some v, (n, (k, v) # filter (\<lambda>p. fst p \<noteq> k) xs))),
      lru_Add = (\<lambda>(n, xs) k v. case map_of xs k of
          Some _ \<Rightarrow> ((n, (k, v) # filter (\<lambda>p. fst p \<noteq> k) xs), [])
        | None \<Rightarrow> if length xs < n \<or> xs = [] then ((n, (k, v) # xs), [])
            else ((n, (k, v) # filter (\<lambda>p. fst p \<noteq> fst (last xs)) xs),
                  [(fst (last xs), the (map_of xs (fst (last xs))))])),
      lru_Remove = (\<lambda>(n, xs) k. ((n, filter (\<lambda>p. fst p \<noteq> k) xs),
        case map_of xs k of None \<Rightarrow> [] | Some v \<Rightarrow> [(k, v)])),
      lru_Keys = (\<lambda>(n, xs). remdups (map fst xs))\<rparr>"

lemma list_lru_sel:
  "lru_New list_lru c = (nat c, [])"
  "lru_Get list_lru (n, xs) k = (case map_of xs k of None \<Rightarrow> (None, (n, xs))
     | Some v \<Rightarrow> (Some v, (n, (k, v) # filter (\<lambda>p. fst p \<noteq> k) xs)))"
  "lru_Add list_lru (n, xs) k v = (case map_of xs k of
       Some _ \<Rightarrow> ((n, (k, v) # filter (\<lambda>p. fst p \<noteq> k) xs), [])
     | None \<Rightarrow> if length xs < n \<or> xs = [] then ((n, (k, v) # xs), [])
         else ((n, (k, v) # filter (\<lambda>p. fst p \<noteq> fst (last xs)) xs),
               [(fst (last xs), the (map_of xs (fst (last xs))))]))"
  "lru_Remove list_lru (n, xs) k = ((n, filter (\<lambda>p. fst p \<noteq> k) xs),
     case map_of xs k of None \<Rightarrow> [] | Some v \<Rightarrow> [(k, v)])"
  "lru_Keys list_lru (n, xs) = remdups (map fst xs)"
  by (simp_all add: list_lru_def)

lemma list_lru_lookup: "lru_lookup list_lru s k = map_of (snd s) k"
  by (cases s) (auto simp: lru_lookup_def list_lru_sel split: option.splits)

lemma map_of_filter_neq: "map_of (filter (\<lambda>p. fst p \<noteq> k) xs) k' = (if k' = k then None else map_of xs k')"
  by (induction xs) auto

lemma last_has_entry: "xs \<noteq> [] \<Longrightarrow> \<exists>v. map_of xs (fst (last xs)) = Some v"
  by (metis last_in_set map_of_eq_None_iff imageI image_set list.set_map not_None_eq)

lemma list_lru_Add:
  "lru_lookup list_lru (fst (lru_Add list_lru s k v)) k' =
     (if k' = k then Some v
      else if k' \<in> fst ` set (snd (lru_Add list_lru s k v)) then None else lru_lookup list_lru s k')"
  by (cases s) (auto simp: list_lru_lookup list_lru_sel map_of_filter_neq split: option.splits)

lemma list_lru_Add_evicted:
  assumes "(k', v') \<in> set (snd (lru_Add list_lru s k v))"
  shows "k' \<noteq> k \<and> lru_lookup list_lru s k' = Some v'"
proof -
  obtain n xs where s: "s = (n, xs)" by fastforce
  have none: "map_of xs k = None" and ne: "xs \<noteq> []"
    and e: "k' = fst (last xs)" "v' = the (map_of xs (fst (last xs)))"
    using assms by (auto simp: s list_lru_sel split: option.splits if_splits)
  obtain u where "map_of xs (fst (last xs)) = Some u" using last_has_entry [OF ne] by blast
  then show ?thesis using none e by (auto simp: s list_lru_lookup)
qed

lemma list_lru_laws: "lru_laws list_lru"
  unfolding lru_laws_def
proof (intro conjI allI impI)
  fix s :: "nat \<times> ('k \<times> 'v) list" and k k' v v'
  show "lru_lookup list_lru (fst (lru_Add list_lru s k v)) k' =
     (if k' = k then Some v
      else if k' \<in> fst ` set (snd (lru_Add list_lru s k v)) then None else lru_lookup list_lru s k')"
    by (rule list_lru_Add)
  show "(k', v') \<in> set (snd (lru_Add list_lru s k v)) \<Longrightarrow> k' \<noteq> k"
    "(k', v') \<in> set (snd (lru_Add list_lru s k v)) \<Longrightarrow> lru_lookup list_lru s k' = Some v'"
    using list_lru_Add_evicted [of k' v' s k v] by simp_all
  show "lru_lookup list_lru (snd (lru_Get list_lru s k)) k' = lru_lookup list_lru s k'"
    by (cases s) (auto simp: list_lru_lookup list_lru_sel map_of_filter_neq split: option.splits)
  show "lru_lookup list_lru (fst (lru_Remove list_lru s k)) k' = (if k' = k then None else lru_lookup list_lru s k')"
    "snd (lru_Remove list_lru s k) = (case lru_lookup list_lru s k of None \<Rightarrow> [] | Some v \<Rightarrow> [(k, v)])"
    by (cases s; simp add: list_lru_lookup list_lru_sel map_of_filter_neq)+
  show "distinct (lru_Keys list_lru s)" "set (lru_Keys list_lru s) = {k. lru_lookup list_lru s k \<noteq> None}"
    by (cases s; auto simp: list_lru_lookup list_lru_sel map_of_eq_None_iff image_iff domI;
        fastforce dest: weak_map_of_SomeI)+
qed (simp add: list_lru_lookup list_lru_sel)

lemma sorted_range_order: "range_order sorted_list_of_fset"
  unfolding range_order_def is_range_def
  by (auto simp: sorted_list_of_fset.rep_eq fset_inject [symmetric] fset_of_list.rep_eq simp del: fset_inject)

section \<open>Properties\<close>

text \<open>
  C17: A cleared configuration is never served from the cache again. After any use of a new cache,
  let the configurations \<open>ks\<close> be cleared at a time not before \<open>t\<close>, and let the cache be used in any
  way after that. Whatever a lookup then returns was either not built from any of these
  configurations, or it was added for a push that started at \<open>t\<close> or later. In particular an entry
  computed from old configuration by a push that was still running is refused. The stores are
  any that keep the documented laws of the LRU library; clock readings are within the range in
  which nanoseconds since the epoch fit a signed 64 bit integer.
\<close>

theorem cleared_config_never_served:
  assumes "env_ok env"
    and "cache_exec env (NewXdsCache env EnableCDSCaching EnableRDSCaching) before = Inr x"
    and "0 \<le> t" and "readings_after t now"
    and "cache_exec env (Impl_Clear env x ks now) after = Inr x'" and "list_all (op_after t) after"
    and "Impl_Get env x' e = Inr (Some v, x'')"
  shows "\<exists>cv. stored env x' e = Some cv \<and> cv_value cv = Some v \<and>
    (set (cv_dependentConfigs cv) \<inter> HashCode (ce_sum64 env) ` set ks = {} \<or> t \<le> uint (cv_token cv))"
proof -
  have inv: "impl_inv env x" using exec_inv [OF assms(2)] inv_NewXdsCache [OF assms(1)] by simp
  have inv1: "impl_inv env (Impl_Clear env x ks now)"
    using step_inv [of env x "OpClear ks now"] inv by simp
  have "impl_fresh env (HashCode (ce_sum64 env) ` set ks) (token_of t) x'"
    using exec_fresh [OF assms(5) inv1 fresh_Impl_Clear [OF inv assms(4,3)] assms(6,3)] .
  from Impl_Get_stored [OF exec_inv [OF assms(5) inv1] this assms(7)] show ?thesis
    using assms(3,4) uint_token_of [of t] by (auto simp: word_le_def readings_after_def)
qed

definition example_env ::
    "(nat \<times> (64 word \<times> string cacheValue) list, nat \<times> (string \<times> string cacheValue) list, string) cache_env" where
  "example_env = \<lparr>ce_opsU = list_lru, ce_opsS = list_lru, ce_rngU = sorted_list_of_fset,
     ce_rngS = sorted_list_of_fset, ce_sum64 = (\<lambda>s. of_nat (length s)), ce_XDSCacheMaxSize = 2\<rparr>"

definition example_key :: ConfigKey where
  "example_key = \<lparr>ck_Kind = KindService, ck_Name = ''web'', ck_Namespace = ''ns''\<rparr>"

definition example_entry :: XdsCacheEntry where
  "example_entry = \<lparr>xe_Type = ''eds'', xe_Key = AnyUint64 7, xe_DependentConfigs = [8], xe_Cacheable = True\<rparr>"

definition example_push :: "time \<Rightarrow> nat PushRequest option" where
  "example_push t = Some (zero_PushRequest\<lparr>pr_Start := t\<rparr>)"

definition example_before :: "(nat, string) cache_op list" where
  "example_before = [OpAdd example_entry (example_push 100) (Some ''old'')]"

definition example_after :: "(nat, string) cache_op list" where
  "example_after = [OpAdd example_entry (example_push 150) (Some ''old''),
     OpAdd example_entry (example_push 300) (Some ''new''), OpFlush]"

definition example_now :: clock_readings where
  "example_now = \<lparr>now_cds = 200, now_eds = 201, now_rds = 202, now_sds = 203\<rparr>"

lemma example_env_ok: "env_ok example_env"
  by (simp add: env_ok_def example_env_def list_lru_laws sorted_range_order)

definition example_x :: "(nat \<times> (64 word \<times> string cacheValue) list, nat \<times> (string \<times> string cacheValue) list) XdsCacheImpl" where
  "example_x = projr (cache_exec example_env (NewXdsCache example_env True True) example_before)"

definition example_x' :: "(nat \<times> (64 word \<times> string cacheValue) list, nat \<times> (string \<times> string cacheValue) list) XdsCacheImpl" where
  "example_x' = projr (cache_exec example_env (Impl_Clear example_env example_x [example_key] example_now) example_after)"

lemma example_runs:
  "cache_exec example_env (NewXdsCache example_env True True) example_before = Inr example_x"
  "cache_exec example_env (Impl_Clear example_env example_x [example_key] example_now) example_after = Inr example_x'"
  "Impl_Get example_env example_x' example_entry =
     Inr (Some ''new'', snd (projr (Impl_Get example_env example_x' example_entry)))"
proof -
  have "\<not> isl (cache_exec example_env (NewXdsCache example_env True True) example_before)" by code_simp
  then show "cache_exec example_env (NewXdsCache example_env True True) example_before = Inr example_x"
    by (simp add: example_x_def)
  have "\<not> isl (cache_exec example_env (Impl_Clear example_env example_x [example_key] example_now) example_after)"
    by code_simp
  then show "cache_exec example_env (Impl_Clear example_env example_x [example_key] example_now) example_after = Inr example_x'"
    by (simp add: example_x'_def)
  have "\<not> isl (Impl_Get example_env example_x' example_entry) \<and>
      fst (projr (Impl_Get example_env example_x' example_entry)) = Some ''new''" by code_simp
  then show "Impl_Get example_env example_x' example_entry =
     Inr (Some ''new'', snd (projr (Impl_Get example_env example_x' example_entry)))"
    by (metis prod.collapse sum.collapse(2))
qed

theorem cleared_config_never_served_witness:
  "\<exists>cv. stored example_env example_x' example_entry = Some cv \<and> cv_value cv = Some ''new'' \<and>
    (set (cv_dependentConfigs cv) \<inter> HashCode (ce_sum64 example_env) ` set [example_key] = {} \<or> 200 \<le> uint (cv_token cv))"
  by (rule cleared_config_never_served [OF example_env_ok example_runs(1) _ _ example_runs(2) _ example_runs(3)])
    (simp_all add: readings_after_def example_now_def example_after_def)

text \<open>
  The index does not leak. After any use of a new cache, flushing leaves exactly the pairs of
  a configuration and a key in the index for which the store holds an entry with that key that
  depends on that configuration.
\<close>

lemma flush_makes_index_exact:
  assumes "env_ok env"
    and "cache_exec env (NewXdsCache env EnableCDSCaching EnableRDSCaching) ops = Inr x"
    and "LruCache l \<in> {xc_cds x, xc_eds x, xc_rds x}"
  shows "indexed (Cache_Flush (ce_opsU env) l) h k \<longleftrightarrow> depends (ce_opsU env) (Cache_Flush (ce_opsU env) l) h k"
proof -
  have "impl_inv env x" using exec_inv [OF assms(2)] inv_NewXdsCache [OF assms(1)] by simp
  then have "typed_inv (ce_opsU env) (ce_rngU env) (LruCache l)"
    using assms(3) by (auto simp: impl_inv_def)
  then show ?thesis by (simp add: Flush_exact typed_inv_def lru_inv_def)
qed

lemma flush_makes_index_exact_witness:
  "indexed (Cache_Flush list_lru (case xc_eds example_x of LruCache l \<Rightarrow> l)) 8 7 \<longleftrightarrow>
     depends list_lru (Cache_Flush list_lru (case xc_eds example_x of LruCache l \<Rightarrow> l)) 8 7"
proof -
  have "is_LruCache (xc_eds example_x)" by code_simp
  then have "LruCache (case xc_eds example_x of LruCache l \<Rightarrow> l) \<in> {xc_cds example_x, xc_eds example_x, xc_rds example_x}"
    by (cases "xc_eds example_x") simp_all
  from flush_makes_index_exact [OF example_env_ok example_runs(1) this] show ?thesis
    by (simp add: example_env_def)
qed

text \<open>
  What a lookup finds after an addition. A value that is added is found if its push started
  no earlier than the last clearing or addition and later than the push of the value already
  there; otherwise, or for another key, the addition changes no lookup, except that it may evict
  entries of other keys.
\<close>

lemma Get_after_Add:
  assumes "lru_laws ops"
  shows "fst (Cache_Get ops (Cache_Add ops l k deps pushReq v) k) =
      (if add_accepted ops l k pushReq then v else fst (Cache_Get ops l k))
    \<and> (\<forall>k'. k' \<noteq> k \<longrightarrow> fst (Cache_Get ops (Cache_Add ops l k deps pushReq v) k') \<in> {None, fst (Cache_Get ops l k')})"
proof (cases "add_accepted ops l k pushReq")
  case True
  show ?thesis
  proof (rule Add_accepted [OF assms True, of deps v], goal_cases)
    case (1 req evicted)
    then show ?case using True by (auto simp: lru_Get(1) split: option.splits)
  qed
next
  case False
  then show ?thesis by (simp add: lru_Get(1) Add_rejected(1) [OF assms False])
qed

lemma Get_after_Add_witness:
  "fst (Cache_Get list_lru (Cache_Add list_lru (newTypedXdsCache list_lru 2) (3 :: nat) [8] (example_push 5) (Some ''v'')) 3)
     = Some ''v''"
proof -
  have "add_accepted list_lru (newTypedXdsCache list_lru 2 :: (nat \<times> (nat \<times> string cacheValue) list, nat) lruCache) 3 (example_push 5)"
    by code_simp
  with Get_after_Add [OF list_lru_laws, of "newTypedXdsCache list_lru 2" "3 :: nat" "[8]" "example_push 5" "Some ''v''"]
  show ?thesis by simp
qed

end
