(* ===== verification/Eds.thy ===== *)
theory Eds
  imports Snapshot PushXds CacheImpl
begin

text \<open>
  Endpoint discovery: the load assignment of a cluster
  (\<^verbatim>\<open>dubbod/discovery/pkg/xds/endpoints/endpoint_builder.go\<close>) and the generator of endpoint resources of
  both protocols (\<^verbatim>\<open>dubbod/discovery/pkg/xds/eds.go\<close>). The messages of the xDS protocol are records of
  their fields; how a load assignment is encoded, the hash of a cluster name and the methods of the
  cache are parameters. \<open>rng\<close> is the order in which the namespaces of a host name are visited, \<open>ks\<close>
  the order of the shards or of the watched names.
\<close>

section \<open>Messages\<close>

datatype Address = SocketAddress string "32 word" | Pipe string

datatype lb_health = HEALTHY | UNHEALTHY | DRAINING | UNKNOWN | DEGRADED

record LbEndpoint =
  le_Address :: Address
  le_HealthStatus :: lb_health
  le_Metadata :: "(string, (string, string) fmap) fmap option"
  le_LoadBalancingWeight :: "32 word"

record Locality =
  loc_Region :: string
  loc_Zone :: string
  loc_SubZone :: string

record LocalityLbEndpoints =
  ll_Locality :: Locality
  ll_LbEndpoints :: "LbEndpoint list"
  ll_LoadBalancingWeight :: "32 word"

record ClusterLoadAssignment =
  cla_ClusterName :: string
  cla_Endpoints :: "LocalityLbEndpoints list"

section \<open>The load assignment of a cluster\<close>

record EndpointBuilder =
  eb_clusterName :: string
  eb_hostname :: host_name
  eb_port :: int
  eb_service :: "Service option"

text \<open>The push context is only used to find the service.\<close>

definition NewEndpointBuilder ::
    "(string fset \<Rightarrow> string list) \<Rightarrow> string \<Rightarrow> 'g ConfigSnapshot PushContext option \<Rightarrow> panic + EndpointBuilder option" where
  "NewEndpointBuilder rng clusterName push =
     (case ParseSubsetKey clusterName of (_, _, hostname, port) \<Rightarrow>
        if hostname = [] \<or> port = 0 then Inr None
        else case push of None \<Rightarrow> Inl NilDeref
        | Some push \<Rightarrow>
            Inr (Some \<lparr>eb_clusterName = clusterName, eb_hostname = hostname, eb_port = port,
              eb_service = ServiceForHostname rng (pc_ConfigSnapshot push) hostname\<rparr>))"

definition ServiceFound :: "EndpointBuilder \<Rightarrow> bool" where
  "ServiceFound b \<longleftrightarrow> eb_service b \<noteq> None"

definition service_ports :: "Service \<Rightarrow> Port option list" where
  "service_ports s = (case svc_Ports s of None \<Rightarrow> [] | Some ports \<Rightarrow> ports)"

definition servicePort :: "EndpointBuilder \<Rightarrow> int \<Rightarrow> panic + Port option" where
  "servicePort b port =
     (case eb_service b of None \<Rightarrow> Inr None
      | Some s \<Rightarrow> map_sum id (\<lambda>(svcPort, ok). if ok then svcPort else None) (GetByPort (service_ports s) port))"

definition UnixAddressPrefix :: string where "UnixAddressPrefix = ''unix://''"

definition BuildNetworkAddress :: "string \<Rightarrow> 32 word \<Rightarrow> Address option" where
  "BuildNetworkAddress bind port = (if port = 0 then None else Some (SocketAddress bind port))"

definition BuildAddress :: "string \<Rightarrow> 32 word \<Rightarrow> Address" where
  "BuildAddress bind port =
     (case BuildNetworkAddress bind port of Some address \<Rightarrow> address
      | None \<Rightarrow> Pipe (TrimPrefix bind UnixAddressPrefix))"

definition parseLocality :: "string \<Rightarrow> Locality" where
  "parseLocality v =
     (let parts = SplitN v (CHR ''/'') 3
      in \<lparr>loc_Region = (if length parts > 0 then parts ! 0 else []),
          loc_Zone = (if length parts > 1 then parts ! 1 else []),
          loc_SubZone = (if length parts > 2 then parts ! 2 else [])\<rparr>)"

definition buildEndpointMetadata :: "DubboEndpoint \<Rightarrow> (string, (string, string) fmap) fmap option" where
  "buildEndpointMetadata ep =
     (if ep_Network ep = [] \<and> ep_Locality ep = [] then None
      else Some (fmap_of_list [(''networking.dubbo.apache.org'',
        fmap_of_list [(''network'', ep_Network ep), (''locality'', ep_Locality ep)])]))"

definition lb_health_of :: "HealthStatus \<Rightarrow> lb_health" where
  "lb_health_of h =
     (if h = UnHealthy then UNHEALTHY else if h = Draining then DRAINING
      else if h = Terminating then UNHEALTHY else HEALTHY)"

text \<open>\<^verbatim>\<open>BuildAddress\<close> never returns \<^verbatim>\<open>nil\<close>.\<close>

definition buildLbEndpoint :: "DubboEndpoint \<Rightarrow> LbEndpoint option" where
  "buildLbEndpoint ep =
     (case ep_Addresses ep of [] \<Rightarrow> None
      | endpointAddress # _ \<Rightarrow>
          Some \<lparr>le_Address = BuildAddress endpointAddress (ep_EndpointPort ep),
            le_HealthStatus = lb_health_of (ep_HealthStatus ep), le_Metadata = buildEndpointMetadata ep,
            le_LoadBalancingWeight = (if ep_LbWeight ep = 0 then 1 else ep_LbWeight ep)\<rparr>)"

definition buildEmptyClusterLoadAssignment :: "string \<Rightarrow> ClusterLoadAssignment" where
  "buildEmptyClusterLoadAssignment clusterName = \<lparr>cla_ClusterName = clusterName, cla_Endpoints = []\<rparr>"

definition buildDNSClusterLoadAssignment :: "string \<Rightarrow> string \<Rightarrow> 32 word \<Rightarrow> ClusterLoadAssignment" where
  "buildDNSClusterLoadAssignment clusterName address port =
     \<lparr>cla_ClusterName = clusterName, cla_Endpoints =
        [\<lparr>ll_Locality = \<lparr>loc_Region = [], loc_Zone = [], loc_SubZone = []\<rparr>,
          ll_LbEndpoints = [\<lparr>le_Address = BuildAddress address port, le_HealthStatus = HEALTHY,
            le_Metadata = None, le_LoadBalancingWeight = 1\<rparr>],
          ll_LoadBalancingWeight = 1\<rparr>]\<rparr>"

text \<open>The filter by the name of the port: an endpoint without one is taken when there is only one port.\<close>

definition serves_port :: "Service \<Rightarrow> Port \<Rightarrow> DubboEndpoint \<Rightarrow> bool" where
  "serves_port s svcPort ep \<longleftrightarrow>
     ep_ServicePortName ep = port_Name svcPort \<or> ep_ServicePortName ep = [] \<and> length (service_ports s) = 1"

text \<open>The local map of localities: for each name the endpoints and the sum of their weights, which wraps.\<close>

type_synonym groups = "(string, LocalityLbEndpoints) fmap"

definition add_to_locality :: "DubboEndpoint \<Rightarrow> LbEndpoint \<Rightarrow> groups \<Rightarrow> groups" where
  "add_to_locality ep lbEp localities =
     (let grp = (case fmlookup localities (ep_Locality ep) of
            None \<Rightarrow> \<lparr>ll_Locality = parseLocality (ep_Locality ep), ll_LbEndpoints = [], ll_LoadBalancingWeight = 0\<rparr>
          | Some grp \<Rightarrow> grp)
      in fmupd (ep_Locality ep)
           (grp\<lparr>ll_LbEndpoints := ll_LbEndpoints grp @ [lbEp],
             ll_LoadBalancingWeight := ll_LoadBalancingWeight grp + le_LoadBalancingWeight lbEp\<rparr>) localities)"

definition group_endpoint :: "Service \<Rightarrow> Port \<Rightarrow> DubboEndpoint \<Rightarrow> groups \<Rightarrow> groups" where
  "group_endpoint s svcPort ep localities =
     (if \<not> serves_port s svcPort ep then localities
      else case buildLbEndpoint ep of None \<Rightarrow> localities
        | Some lbEp \<Rightarrow> add_to_locality ep lbEp localities)"

definition shard_endpoints :: "(ShardKey fset \<Rightarrow> ShardKey list) \<Rightarrow> EndpointShards \<Rightarrow> DubboEndpoint list" where
  "shard_endpoints ks shards = concat (map (slice_at (es_Shards shards)) (ks (fmdom (es_Shards shards))))"

definition localityLbEndpoints :: "groups \<Rightarrow> LocalityLbEndpoints list" where
  "localityLbEndpoints localities = map (\<lambda>name. the (fmlookup localities name)) (sorted_list_of_fset (fmdom localities))"

text \<open>
  Every locality has an endpoint, so that there is no endpoint at all when there is no locality; the
  result is then the empty assignment, which has the same value.
\<close>

definition BuildClusterLoadAssignment ::
    "(ShardKey fset \<Rightarrow> ShardKey list) \<Rightarrow> EndpointBuilder \<Rightarrow> 'x EndpointIndex \<Rightarrow> panic + ClusterLoadAssignment" where
  "BuildClusterLoadAssignment ks b endpointIndex =
     (let empty = Inr (buildEmptyClusterLoadAssignment (eb_clusterName b)) in
      case eb_service b of None \<Rightarrow> empty
      | Some s \<Rightarrow>
          bind_panic (servicePort b (eb_port b)) (\<lambda>svcPort.
          case svcPort of None \<Rightarrow> empty
          | Some svcPort \<Rightarrow>
              let externalName = k8s_ExternalName (sa_K8sAttributes (svc_Attributes s)) in
              if externalName \<noteq> []
              then Inr (buildDNSClusterLoadAssignment (eb_clusterName b) externalName (word_of_int (port_Port svcPort)))
              else case ShardsForService endpointIndex (eb_hostname b) (sa_Namespace (svc_Attributes s)) of
                None \<Rightarrow> empty
              | Some shards \<Rightarrow>
                  bind_panic (port_maps (service_ports s) fmempty {||}) (\<lambda>_.
                  let localities = fold (group_endpoint s svcPort) (shard_endpoints ks shards) fmempty in
                  if localities = fmempty then empty
                  else Inr \<lparr>cla_ClusterName = eb_clusterName b, cla_Endpoints = localityLbEndpoints localities\<rparr>)))"

text \<open>The builder as an entry of the cache. The key of its dependency has no fields set.\<close>

definition builder_entry :: "(string \<Rightarrow> 64 word) \<Rightarrow> EndpointBuilder \<Rightarrow> XdsCacheEntry" where
  "builder_entry sum64 b =
     \<lparr>xe_Type = ''eds'', xe_Key = AnyUint64 (sum64 (eb_clusterName b)),
      xe_DependentConfigs = (if eb_service b = None then [] else [HashCode sum64 zero_ConfigKey]),
      xe_Cacheable = (eb_service b \<noteq> None)\<rparr>"

section \<open>The generator\<close>

text \<open>
  What the generator is given from outside: the orders of its loops, the encoding of a load
  assignment, the hash of a name, and the method \<^verbatim>\<open>Add\<close> of the cache, if there is one. The cache is
  never read, because the code takes every service as updated.
\<close>

record ('a, 'x, 'g) eds_env =
  ee_rng :: "string fset \<Rightarrow> string list"
  ee_shards :: "ShardKey fset \<Rightarrow> ShardKey list"
  ee_names :: "string fset \<Rightarrow> string list"
  ee_any :: "ClusterLoadAssignment \<Rightarrow> 'a"
  ee_sum64 :: "string \<Rightarrow> 64 word"
  ee_Add :: "('x \<Rightarrow> XdsCacheEntry \<Rightarrow> 'g ConfigSnapshot PushContext PushRequest \<Rightarrow> 'a Resource \<Rightarrow> panic + 'x) option"

record 'x EdsGenerator =
  eg_Cache :: 'x
  eg_EndpointIndex :: "'x EndpointIndex"

definition skippedEdsConfigs :: "kind gset" where
  "skippedEdsConfigs = New [KindPeerAuthentication, KindSecret]"

definition edsNeedsPush :: "'p PushRequest \<Rightarrow> bool" where
  "edsNeedsPush req =
     (case xdsNeedsPush (Some req) of (res, ok) \<Rightarrow>
        if ok then res
        else if pr_Reason req \<noteq> None \<and> ReasonStats_Has (pr_Reason req) ProxyRequest then True
        else fBex (elems (pr_ConfigsUpdated req)) (\<lambda>config. \<not> Contains skippedEdsConfigs (ck_Kind config)))"

text \<open>The loop returns early on a configuration that is not a named service, in whatever order it runs.\<close>

definition edsUpdatedServicesForRequest :: "'p PushRequest option \<Rightarrow> string gset \<times> bool" where
  "edsUpdatedServicesForRequest req =
     (case req of None \<Rightarrow> (None, False)
      | Some req \<Rightarrow>
          if Len (pr_ConfigsUpdated req) = 0 then (None, False)
          else let configs = ffilter (\<lambda>cfg. \<not> Contains skippedEdsConfigs (ck_Kind cfg)) (elems (pr_ConfigsUpdated req)) in
          if fBex configs (\<lambda>cfg. ck_Kind cfg \<noteq> KindService \<or> ck_Name cfg = []) then (None, False)
          else let services = ck_Name |`| configs in (Some services, fcard services > 0))"

definition canSendPartialFullPushes :: "'p PushRequest \<Rightarrow> bool" where
  "canSendPartialFullPushes req = (if pr_Forced req then False else snd (edsUpdatedServicesForRequest (Some req)))"

definition shouldUseDeltaEds :: "'p PushRequest \<Rightarrow> bool" where
  "shouldUseDeltaEds req = (if \<not> pr_Full req then False else canSendPartialFullPushes req)"

definition cla_resource :: "('a, 'x, 'g) eds_env \<Rightarrow> ClusterLoadAssignment \<Rightarrow> 'a Resource" where
  "cla_resource env l = \<lparr>res_Name = cla_ClusterName l, res_Resource = ee_any env l\<rparr>"

text \<open>The variables of the two loops; the number of cached resources stays zero.\<close>

record ('a, 'x) eds_loop =
  el_resources :: "'a Resource list"
  el_removed :: "string list"
  el_empty :: nat
  el_regenerated :: nat
  el_cache :: 'x

definition generate_eds ::
    "('a, 'x, 'g) eds_env \<Rightarrow> 'x EndpointIndex \<Rightarrow> 'g ConfigSnapshot PushContext PushRequest \<Rightarrow> EndpointBuilder \<Rightarrow>
       ('a, 'x) eds_loop \<Rightarrow> panic + ('a, 'x) eds_loop" where
  "generate_eds env index req builder st =
     bind_panic (BuildClusterLoadAssignment (ee_shards env) builder index) (\<lambda>l.
     let resource = cla_resource env l;
         st = st\<lparr>el_regenerated := el_regenerated st + 1,
           el_empty := (if length (cla_Endpoints l) = 0 then el_empty st + 1 else el_empty st),
           el_resources := el_resources st @ [resource]\<rparr>
     in case ee_Add env of None \<Rightarrow> Inr st
        | Some Add \<Rightarrow> map_sum id (\<lambda>c. st\<lparr>el_cache := c\<rparr>)
            (Add (el_cache st) (builder_entry (ee_sum64 env) builder) req resource))"

text \<open>One iteration; \<open>delta\<close> tells the loop of \<^verbatim>\<open>buildDeltaEndpoints\<close> from that of \<^verbatim>\<open>buildEndpoints\<close>.\<close>

definition eds_iteration ::
    "('a, 'x, 'g) eds_env \<Rightarrow> 'x EndpointIndex \<Rightarrow> 'g ConfigSnapshot PushContext PushRequest \<Rightarrow> bool \<Rightarrow> string \<Rightarrow>
       ('a, 'x) eds_loop \<Rightarrow> panic + ('a, 'x) eds_loop" where
  "eds_iteration env index req delta clusterName st =
     (case edsUpdatedServicesForRequest (Some req) of (edsUpdatedServices, targetedServices) \<Rightarrow>
      if targetedServices \<and> \<not> Contains edsUpdatedServices (ParseSubsetKeyHostname clusterName) then Inr st
      else bind_panic (NewEndpointBuilder (ee_rng env) clusterName (pr_Push req)) (\<lambda>builder.
        let skip = (if delta then st\<lparr>el_removed := el_removed st @ [clusterName]\<rparr> else st) in
        case builder of None \<Rightarrow> Inr skip
        | Some builder \<Rightarrow> if delta \<and> \<not> ServiceFound builder then Inr skip else generate_eds env index req builder st))"

fun eds_iterations ::
    "('a, 'x, 'g) eds_env \<Rightarrow> 'x EndpointIndex \<Rightarrow> 'g ConfigSnapshot PushContext PushRequest \<Rightarrow> bool \<Rightarrow> string list \<Rightarrow>
       ('a, 'x) eds_loop \<Rightarrow> panic + ('a, 'x) eds_loop" where
  "eds_iterations env index req delta [] st = Inr st"
| "eds_iterations env index req delta (name # names) st =
     bind_panic (eds_iteration env index req delta name st) (eds_iterations env index req delta names)"

definition eds_log :: "'p PushRequest \<Rightarrow> ('a, 'x) eds_loop \<Rightarrow> XdsLogDetails" where
  "eds_log req st =
     \<lparr>Incremental = snd (edsUpdatedServicesForRequest (Some req)),
      AdditionalInfo = ''empty:'' @ Itoa (int (el_empty st)) @ '' cached:0/'' @ Itoa (int (el_regenerated st))\<rparr>"

definition nil_if_empty :: "'a list \<Rightarrow> 'a list option" where
  "nil_if_empty xs = (if xs = [] then None else Some xs)"

definition build_endpoints ::
    "('a, 'x, 'g) eds_env \<Rightarrow> 'x EdsGenerator \<Rightarrow> bool \<Rightarrow> 'g ConfigSnapshot PushContext PushRequest \<Rightarrow>
       'a Resource WatchedResource \<Rightarrow> panic + ('a, 'x) eds_loop" where
  "build_endpoints env eds delta req w =
     eds_iterations env (eg_EndpointIndex eds) req delta (ee_names env (elems (wr_ResourceNames w)))
       \<lparr>el_resources = [], el_removed = [], el_empty = 0, el_regenerated = 0, el_cache = eg_Cache eds\<rparr>"

definition buildEndpoints ::
    "('a, 'x, 'g) eds_env \<Rightarrow> 'x EdsGenerator \<Rightarrow> 'g ConfigSnapshot PushContext PushRequest \<Rightarrow>
       'a Resource WatchedResource \<Rightarrow> panic + ('a Resource list option \<times> XdsLogDetails \<times> 'x EdsGenerator)" where
  "buildEndpoints env eds req w =
     map_sum id (\<lambda>st. (nil_if_empty (el_resources st), eds_log req st, eds\<lparr>eg_Cache := el_cache st\<rparr>))
       (build_endpoints env eds False req w)"

definition buildDeltaEndpoints ::
    "('a, 'x, 'g) eds_env \<Rightarrow> 'x EdsGenerator \<Rightarrow> 'g ConfigSnapshot PushContext PushRequest \<Rightarrow>
       'a Resource WatchedResource \<Rightarrow>
       panic + ('a Resource list option \<times> string list option \<times> XdsLogDetails \<times> 'x EdsGenerator)" where
  "buildDeltaEndpoints env eds req w =
     map_sum id (\<lambda>st. (nil_if_empty (el_resources st), nil_if_empty (el_removed st), eds_log req st,
         eds\<lparr>eg_Cache := el_cache st\<rparr>))
       (build_endpoints env eds True req w)"

definition DefaultXdsLogDetails :: XdsLogDetails where
  "DefaultXdsLogDetails = \<lparr>Incremental = False, AdditionalInfo = []\<rparr>"

definition Eds_Generate ::
    "('a, 'x, 'g) eds_env \<Rightarrow> 'x EdsGenerator \<Rightarrow> 'a Resource WatchedResource \<Rightarrow>
       'g ConfigSnapshot PushContext PushRequest \<Rightarrow>
       panic + ('a Resource list option \<times> XdsLogDetails \<times> 'x EdsGenerator)" where
  "Eds_Generate env eds w req =
     (if \<not> edsNeedsPush req then Inr (None, DefaultXdsLogDetails, eds) else buildEndpoints env eds req w)"

definition Eds_GenerateDeltas ::
    "('a, 'x, 'g) eds_env \<Rightarrow> 'x EdsGenerator \<Rightarrow> 'g ConfigSnapshot PushContext PushRequest \<Rightarrow>
       'a Resource WatchedResource \<Rightarrow>
       panic + ('a Resource list option \<times> string list option \<times> XdsLogDetails \<times> bool \<times> 'x EdsGenerator)" where
  "Eds_GenerateDeltas env eds req w =
     (if \<not> edsNeedsPush req then Inr (None, None, DefaultXdsLogDetails, False, eds)
      else if \<not> shouldUseDeltaEds req
      then map_sum id (\<lambda>(resources, logDetails, eds). (resources, None, logDetails, False, eds))
        (buildEndpoints env eds req w)
      else map_sum id (\<lambda>(resources, removed, logs, eds). (resources, removed, logs, True, eds))
        (buildDeltaEndpoints env eds req w))"

section \<open>What a load assignment holds\<close>

text \<open>The endpoints of the shards that serve a port and have an address, and their messages.\<close>

definition served_by :: "Service \<Rightarrow> Port \<Rightarrow> DubboEndpoint list \<Rightarrow> DubboEndpoint list" where
  "served_by s svcPort eps = filter (\<lambda>ep. serves_port s svcPort ep \<and> ep_Addresses ep \<noteq> []) eps"

definition lb_endpoint :: "DubboEndpoint \<Rightarrow> LbEndpoint" where
  "lb_endpoint ep = the (buildLbEndpoint ep)"

definition lb_weight :: "DubboEndpoint \<Rightarrow> nat" where
  "lb_weight ep = (if ep_LbWeight ep = 0 then 1 else unat (ep_LbWeight ep))"

definition in_locality :: "string \<Rightarrow> DubboEndpoint list \<Rightarrow> DubboEndpoint list" where
  "in_locality name eps = filter (\<lambda>ep. ep_Locality ep = name) eps"

definition total_weight :: "string \<Rightarrow> DubboEndpoint list \<Rightarrow> nat" where
  "total_weight name eps = sum_list (map lb_weight (in_locality name eps))"

definition locality_message :: "DubboEndpoint list \<Rightarrow> string \<Rightarrow> LocalityLbEndpoints" where
  "locality_message eps name =
     \<lparr>ll_Locality = parseLocality name, ll_LbEndpoints = map lb_endpoint (in_locality name eps),
      ll_LoadBalancingWeight = of_nat (total_weight name eps)\<rparr>"

lemma lb_weight_pos: "0 < lb_weight ep"
  by (simp add: lb_weight_def unat_gt_0)

lemma buildLbEndpoint_iff:
  "buildLbEndpoint ep = (if ep_Addresses ep = [] then None else Some (lb_endpoint ep))"
  by (simp add: buildLbEndpoint_def lb_endpoint_def split: list.splits)

lemma lb_endpoint_weight:
  "ep_Addresses ep \<noteq> [] \<Longrightarrow> le_LoadBalancingWeight (lb_endpoint ep) = of_nat (lb_weight ep)"
  by (auto simp: lb_endpoint_def buildLbEndpoint_def lb_weight_def split: list.splits)

lemma in_locality_snoc:
  "in_locality name (eps @ [ep]) = in_locality name eps @ (if ep_Locality ep = name then [ep] else [])"
  by (simp add: in_locality_def)

lemma locality_message_snoc:
  assumes "ep_Addresses ep \<noteq> []"
  shows "locality_message (eps @ [ep]) name =
    (if ep_Locality ep = name then (locality_message eps name)
       \<lparr>ll_LbEndpoints := ll_LbEndpoints (locality_message eps name) @ [lb_endpoint ep],
        ll_LoadBalancingWeight := ll_LoadBalancingWeight (locality_message eps name) + le_LoadBalancingWeight (lb_endpoint ep)\<rparr>
     else locality_message eps name)"
  using assms by (simp add: locality_message_def in_locality_snoc total_weight_def lb_endpoint_weight)

lemma fold_group_endpoint:
  "fmlookup (fold (group_endpoint s svcPort) eps fmempty) name =
     (if in_locality name (served_by s svcPort eps) = [] then None
      else Some (locality_message (served_by s svcPort eps) name))"
proof (induction eps rule: rev_induct)
  case Nil
  then show ?case by (simp add: served_by_def in_locality_def)
next
  case (snoc ep eps)
  let ?m = "fold (group_endpoint s svcPort) eps fmempty"
  show ?case
  proof (cases "serves_port s svcPort ep \<and> ep_Addresses ep \<noteq> []")
    case False
    then have "group_endpoint s svcPort ep ?m = ?m" and "served_by s svcPort (eps @ [ep]) = served_by s svcPort eps"
      by (auto simp: group_endpoint_def buildLbEndpoint_iff served_by_def)
    then show ?thesis using snoc by simp
  next
    case True
    then have step: "group_endpoint s svcPort ep ?m = add_to_locality ep (lb_endpoint ep) ?m"
      and served: "served_by s svcPort (eps @ [ep]) = served_by s svcPort eps @ [ep]"
      by (auto simp: group_endpoint_def buildLbEndpoint_iff served_by_def)
    have empty: "in_locality (ep_Locality ep) es = [] \<Longrightarrow> locality_message es (ep_Locality ep) =
        \<lparr>ll_Locality = parseLocality (ep_Locality ep), ll_LbEndpoints = [], ll_LoadBalancingWeight = 0\<rparr>" for es
      by (simp add: locality_message_def total_weight_def)
    show ?thesis
      using snoc True empty [of "served_by s svcPort eps"]
      by (cases "ep_Locality ep = name")
        (simp_all add: step served add_to_locality_def Let_def in_locality_snoc locality_message_snoc)
  qed
qed

lemma localities_dom:
  "fset (fmdom (fold (group_endpoint s svcPort) eps fmempty)) = ep_Locality ` set (served_by s svcPort eps)"
  by (auto simp: fmlookup_dom_iff fold_group_endpoint in_locality_def filter_empty_conv split: if_splits)

lemma localityLbEndpoints_eq:
  "localityLbEndpoints (fold (group_endpoint s svcPort) eps fmempty) =
     map (locality_message (served_by s svcPort eps)) (sorted_list_of_set (ep_Locality ` set (served_by s svcPort eps)))"
  unfolding localityLbEndpoints_def sorted_list_of_fset.rep_eq localities_dom
  by (rule map_cong [OF refl]) (auto simp: fold_group_endpoint in_locality_def filter_empty_conv)

lemma BuildClusterLoadAssignment_shards:
  assumes "eb_service b = Some s" "servicePort b (eb_port b) = Inr (Some svcPort)"
    and "k8s_ExternalName (sa_K8sAttributes (svc_Attributes s)) = []"
    and "ShardsForService index (eb_hostname b) (sa_Namespace (svc_Attributes s)) = Some shards"
    and "None \<notin> set (service_ports s)" and eps: "eps = served_by s svcPort (shard_endpoints ks shards)"
  shows "BuildClusterLoadAssignment ks b index = Inr \<lparr>cla_ClusterName = eb_clusterName b, cla_Endpoints =
    map (locality_message eps) (sorted_list_of_set (ep_Locality ` set eps))\<rparr>"
proof -
  have ports: "\<exists>r. port_maps ps m q = Inr r" if "None \<notin> set ps" for ps m q
    using that by (induction ps m q rule: port_maps.induct) auto
  let ?m = "fold (group_endpoint s svcPort) (shard_endpoints ks shards) fmempty"
  have "cla_Endpoints (buildEmptyClusterLoadAssignment (eb_clusterName b)) = localityLbEndpoints ?m" if "?m = fmempty"
    unfolding that
    by (simp add: localityLbEndpoints_def buildEmptyClusterLoadAssignment_def sorted_list_of_fset.rep_eq)
  then have "(if ?m = fmempty then Inr (buildEmptyClusterLoadAssignment (eb_clusterName b))
      else Inr \<lparr>cla_ClusterName = eb_clusterName b, cla_Endpoints = localityLbEndpoints ?m\<rparr>) =
      Inr \<lparr>cla_ClusterName = eb_clusterName b, cla_Endpoints = localityLbEndpoints ?m\<rparr>"
    by (simp add: buildEmptyClusterLoadAssignment_def)
  moreover obtain r where "port_maps (service_ports s) fmempty {||} = Inr r" using ports [OF assms(5)] by blast
  ultimately show ?thesis
    using assms(1-4) by (simp add: BuildClusterLoadAssignment_def Let_def localityLbEndpoints_eq eps)
qed

section \<open>Which clusters are generated and removed\<close>

lemma BuildClusterLoadAssignment_name:
  assumes l: "BuildClusterLoadAssignment ks b index = Inr l"
  shows "cla_ClusterName l = eb_clusterName b"
proof (cases "eb_service b")
  case None
  then show ?thesis using l by (auto simp: BuildClusterLoadAssignment_def buildEmptyClusterLoadAssignment_def)
next
  case (Some s)
  then obtain p where p: "servicePort b (eb_port b) = Inr p"
    using l by (cases "servicePort b (eb_port b)") (auto simp: BuildClusterLoadAssignment_def)
  show ?thesis
  proof (cases p)
    case None
    then show ?thesis using l Some p by (auto simp: BuildClusterLoadAssignment_def buildEmptyClusterLoadAssignment_def)
  next
    case (Some svcPort)
    then show ?thesis
      using l \<open>eb_service b = Some s\<close> p
      by (cases "ShardsForService index (eb_hostname b) (sa_Namespace (svc_Attributes s))";
          cases "port_maps (service_ports s) fmempty {||}")
        (auto simp: BuildClusterLoadAssignment_def Let_def buildEmptyClusterLoadAssignment_def
          buildDNSClusterLoadAssignment_def split: if_splits)
  qed
qed

text \<open>A watched cluster that a request asks to be generated.\<close>

definition asked_for :: "'p PushRequest \<Rightarrow> string \<Rightarrow> bool" where
  "asked_for req name \<longleftrightarrow>
     (case edsUpdatedServicesForRequest (Some req) of (services, targeted) \<Rightarrow>
        targeted \<longrightarrow> Contains services (ParseSubsetKeyHostname name))"

definition well_formed :: "string \<Rightarrow> bool" where
  "well_formed name \<longleftrightarrow> (case ParseSubsetKey name of (_, _, hostname, port) \<Rightarrow> hostname \<noteq> [] \<and> port \<noteq> 0)"

definition has_service :: "(string fset \<Rightarrow> string list) \<Rightarrow> 'g ConfigSnapshot PushContext \<Rightarrow> string \<Rightarrow> bool" where
  "has_service rng push name \<longleftrightarrow>
     ServiceForHostname rng (pc_ConfigSnapshot push) (key_hostname (ParseSubsetKey name)) \<noteq> None"

definition generated :: "(string fset \<Rightarrow> string list) \<Rightarrow> 'g ConfigSnapshot PushContext \<Rightarrow> bool \<Rightarrow> string \<Rightarrow> bool" where
  "generated rng push delta name \<longleftrightarrow> well_formed name \<and> (delta \<longrightarrow> has_service rng push name)"

lemma NewEndpointBuilder_eq:
  "NewEndpointBuilder rng name (Some push) =
     Inr (if well_formed name then Some \<lparr>eb_clusterName = name, eb_hostname = key_hostname (ParseSubsetKey name),
        eb_port = snd (snd (snd (ParseSubsetKey name))),
        eb_service = ServiceForHostname rng (pc_ConfigSnapshot push) (key_hostname (ParseSubsetKey name))\<rparr> else None)"
  by (auto simp: NewEndpointBuilder_def well_formed_def key_hostname_def split: prod.splits)

lemma generate_eds_names:
  assumes "generate_eds env index req b st = Inr st'"
  shows "map res_Name (el_resources st') = map res_Name (el_resources st) @ [eb_clusterName b] \<and>
    el_removed st' = el_removed st"
proof -
  obtain l where l: "BuildClusterLoadAssignment (ee_shards env) b index = Inr l"
    using assms by (auto simp: generate_eds_def bind_panic_Inr)
  show ?thesis
  proof (cases "ee_Add env")
    case None
    then show ?thesis
      using assms l BuildClusterLoadAssignment_name [OF l] by (auto simp: generate_eds_def Let_def cla_resource_def)
  next
    case (Some add)
    then show ?thesis
      using assms l BuildClusterLoadAssignment_name [OF l]
      by (cases "add (el_cache st) (builder_entry (ee_sum64 env) b) req (cla_resource env l)")
        (auto simp: generate_eds_def Let_def cla_resource_def)
  qed
qed

lemma eds_iteration_names:
  assumes "eds_iteration env index req delta name st = Inr st'" and "pr_Push req = Some push"
  shows "map res_Name (el_resources st') = map res_Name (el_resources st) @
      (if asked_for req name \<and> generated (ee_rng env) push delta name then [name] else [])"
    and "el_removed st' = el_removed st @
      (if delta \<and> asked_for req name \<and> \<not> generated (ee_rng env) push delta name then [name] else [])"
  using assms generate_eds_names [of env index req _ st st']
  by (auto simp: eds_iteration_def asked_for_def NewEndpointBuilder_eq generated_def has_service_def ServiceFound_def
      Let_def split: prod.splits if_splits)

lemma eds_iterations_names:
  assumes "eds_iterations env index req delta names st = Inr st'" and "pr_Push req = Some push"
  shows "map res_Name (el_resources st') = map res_Name (el_resources st) @
      filter (\<lambda>n. asked_for req n \<and> generated (ee_rng env) push delta n) names"
    and "el_removed st' = el_removed st @
      filter (\<lambda>n. delta \<and> asked_for req n \<and> \<not> generated (ee_rng env) push delta n) names"
proof -
  have "map res_Name (el_resources st') = map res_Name (el_resources st) @
      filter (\<lambda>n. asked_for req n \<and> generated (ee_rng env) push delta n) names \<and>
    el_removed st' = el_removed st @
      filter (\<lambda>n. delta \<and> asked_for req n \<and> \<not> generated (ee_rng env) push delta n) names"
    using assms(1)
  proof (induction names arbitrary: st)
    case (Cons name names)
    then obtain st1 where st1: "eds_iteration env index req delta name st = Inr st1"
      and "eds_iterations env index req delta names st1 = Inr st'" by (auto simp: bind_panic_Inr)
    then show ?case using Cons.IH [of st1] eds_iteration_names [OF st1 assms(2)] by (cases delta) auto
  qed simp
  then show "map res_Name (el_resources st') = map res_Name (el_resources st) @
      filter (\<lambda>n. asked_for req n \<and> generated (ee_rng env) push delta n) names"
    and "el_removed st' = el_removed st @
      filter (\<lambda>n. delta \<and> asked_for req n \<and> \<not> generated (ee_rng env) push delta n) names" by blast+
qed

definition resource_names :: "'a Resource list option \<Rightarrow> string list" where
  "resource_names res = (case res of None \<Rightarrow> [] | Some rs \<Rightarrow> map res_Name rs)"

definition watched_names :: "('a, 'x, 'g) eds_env \<Rightarrow> 'a Resource WatchedResource \<Rightarrow> string list" where
  "watched_names env w = ee_names env (elems (wr_ResourceNames w))"

lemma resource_names_nil [simp]: "resource_names (nil_if_empty rs) = map res_Name rs"
  by (simp add: resource_names_def nil_if_empty_def)

lemma buildEndpoints_names:
  assumes "buildEndpoints env eds req w = Inr (res, log, eds')" and "pr_Push req = Some push"
  shows "resource_names res = filter (\<lambda>n. asked_for req n \<and> well_formed n) (watched_names env w)"
proof -
  obtain st where "build_endpoints env eds False req w = Inr st" and "res = nil_if_empty (el_resources st)"
    using assms(1) by (auto simp: buildEndpoints_def map_sum_def split: sum.splits)
  then show ?thesis
    using eds_iterations_names(1) [OF _ assms(2), of env "eg_EndpointIndex eds" False]
    by (auto simp: build_endpoints_def watched_names_def generated_def)
qed

lemma buildDeltaEndpoints_names:
  assumes "buildDeltaEndpoints env eds req w = Inr (res, removed, log, eds')" and "pr_Push req = Some push"
  shows "resource_names res =
      filter (\<lambda>n. asked_for req n \<and> well_formed n \<and> has_service (ee_rng env) push n) (watched_names env w)"
    and "(case removed of None \<Rightarrow> [] | Some ns \<Rightarrow> ns) =
      filter (\<lambda>n. asked_for req n \<and> \<not> (well_formed n \<and> has_service (ee_rng env) push n)) (watched_names env w)"
proof -
  obtain st where st: "build_endpoints env eds True req w = Inr st" "res = nil_if_empty (el_resources st)"
    "removed = nil_if_empty (el_removed st)"
    using assms(1) by (auto simp: buildDeltaEndpoints_def map_sum_def split: sum.splits)
  note names = eds_iterations_names [OF st(1) [unfolded build_endpoints_def] assms(2)]
  show "resource_names res =
      filter (\<lambda>n. asked_for req n \<and> well_formed n \<and> has_service (ee_rng env) push n) (watched_names env w)"
    using names(1) by (simp add: st(2) watched_names_def generated_def)
  show "(case removed of None \<Rightarrow> [] | Some ns \<Rightarrow> ns) =
      filter (\<lambda>n. asked_for req n \<and> \<not> (well_formed n \<and> has_service (ee_rng env) push n)) (watched_names env w)"
    using names(2) by (simp add: st(3) watched_names_def generated_def nil_if_empty_def)
qed


text \<open>The generator as the server calls it. A panic of the code ends the process; it has no result here.\<close>

definition eds_generator :: "('a, 'x, 'g) eds_env \<Rightarrow> 'x EdsGenerator \<Rightarrow> ('a, 'g ConfigSnapshot) generator" where
  "eds_generator env eds =
     DeltaResourceGenerator
       (\<lambda>proxy w req. case Eds_Generate env eds w req of
          Inl p \<Rightarrow> (None, DefaultXdsLogDetails, None)
        | Inr (res, log, _) \<Rightarrow> (res, log, None))
       (\<lambda>proxy req w. case Eds_GenerateDeltas env eds req w of
          Inl p \<Rightarrow> (None, None, DefaultXdsLogDetails, False, None)
        | Inr (res, removed, log, usedDelta, _) \<Rightarrow> (res, removed, log, usedDelta, None))"

text \<open>A push of generated endpoints over a stream that takes the message is sent.\<close>

lemma eds_push_sent:
  assumes "authorized s (io_now io (con_ticks con)) con" "con_proxy con = Some proxy"
    and "findGenerator s (wr_TypeUrl w) (Some con) = Some (eds_generator env eds)"
    and "Eds_GenerateDeltas env eds req w = Inr (Some res, removed, log, usedDelta, eds')"
    and "ResourceDelta_IsEmpty (pr_Delta req)" "pr_Push req = Some push"
    and "io_send io (con_ticks con + 1) = None"
  obtains con' resp where "pushDeltaXds s io con (Some w) req = Inr (None, con')"
    "con_sent con' = con_sent con @ [(con_ticks con + 1, Delta resp, None)]"
proof -
  let ?con = "con\<lparr>con_ticks := con_ticks con + 1\<rparr>"
  let ?resp = "delta_response io (con_ticks ?con) push (pr_Full req) w (Some res) removed usedDelta"
  have w: "pushed_watch w req = w" using assms(5) by (simp add: pushed_watch_def)
  have "run_generator (eds_generator env eds) proxy req (pushed_watch w req) = (Some res, removed, usedDelta, None)"
    using assms(4) w by (simp add: eds_generator_def)
  then have push: "pushDeltaXds s io con (Some w) req =
      sendDelta io ?con ?resp (new_names w usedDelta (ddr_RemovedResources ?resp) (ddr_Resources ?resp))"
    using pushDeltaXds_generated [OF assms(1-3)] assms(6) w by (simp add: Let_def)
  have "con_proxy ?con = Some proxy" "io_send io (con_ticks ?con) = None" using assms(2,7) by simp_all
  note sent = sendDelta_ok [OF this, of ?resp]
  show thesis by (rule that [OF trans [OF push sent]]) simp
qed

lemma sorted_list_range: "is_range (sorted_list_of_fset K) K" for K :: "string fset"
  by (simp add: is_range_def sorted_list_of_fset.rep_eq fset_of_list.rep_eq flip: fset_inject)

lemma eds_iterations_Inr:
  assumes "\<And>name st. \<exists>st'. eds_iteration env index req delta name st = Inr st'"
  shows "\<exists>st'. eds_iterations env index req delta names st = Inr st'"
proof (induction names arbitrary: st)
  case (Cons name names)
  then show ?case using assms [of name st] by auto
qed simp

lemma outbound_key:
  assumes "CHR ''|'' \<notin> set h" "0 < p" "p \<le> maxInt64"
  shows "ParseSubsetKey (BuildSubsetKey ''outbound'' [] h p) = (''outbound'', [], h, p)"
    and "ParseSubsetKeyHostname (BuildSubsetKey ''outbound'' [] h p) = h"
proof -
  have bars: "BuildSubsetKey ''outbound'' [] h p = ''outbound'' @ ''|'' @ Itoa p @ ''|'' @ [] @ ''|'' @ h"
    by (simp add: BuildSubsetKey_def)
  have "Atoi (Itoa p) = (p, True)" using Atoi_Itoa [of p] assms by (simp add: maxInt64_def)
  then show "ParseSubsetKey (BuildSubsetKey ''outbound'' [] h p) = (''outbound'', [], h, p)"
    unfolding bars using assms by (subst ParseSubsetKey_bars) simp_all
  show "ParseSubsetKeyHostname (BuildSubsetKey ''outbound'' [] h p) = h"
    unfolding bars using assms(1) ParseSubsetKeyHostname_last [of h "''outbound|'' @ Itoa p @ ''|''"] by simp
qed

section \<open>Examples\<close>

text \<open>A service with one port, and endpoints of two localities; the weights of one sum up to \<open>2 ^ 32\<close>.\<close>

definition example_port :: Port where
  "example_port = \<lparr>port_Name = ''http'', port_Port = 80, port_Protocol = ''HTTP''\<rparr>"

definition example_web :: Service where
  "example_web = (example_svc ''web'' ClientSideLB [] None)\<lparr>svc_Ports := Some [Some example_port]\<rparr>"

definition example_weighted :: "string \<Rightarrow> 32 word \<Rightarrow> DubboEndpoint" where
  "example_weighted locality weight =
     (example_endpoint ''10.0.0.1'' Healthy)\<lparr>ep_ServicePortName := ''http'', ep_Locality := locality, ep_LbWeight := weight\<rparr>"

definition example_eps :: "DubboEndpoint list" where
  "example_eps = [example_weighted ''west'' 0x80000000, example_weighted ''east'' 0, example_weighted ''west'' 0x80000000]"

definition example_builder :: EndpointBuilder where
  "example_builder = \<lparr>eb_clusterName = ''outbound|80||web'', eb_hostname = ''web'', eb_port = 80, eb_service = Some example_web\<rparr>"

definition example_shards :: EndpointShards where
  "example_shards = \<lparr>es_Shards = fmap_of_list [(example_shard, example_eps)], es_ServiceAccounts = {||}\<rparr>"

definition example_endpoints :: "unit EndpointIndex" where
  "example_endpoints = \<lparr>ei_shardsBySvc = fmap_of_list
     [(''web'', fmap_of_list [(sa_Namespace (svc_Attributes example_web), example_shards)])], ei_cache = ()\<rparr>"

lemmas example_eds_defs = example_port_def example_web_def example_weighted_def example_eps_def example_builder_def
  example_shards_def example_endpoints_def example_svc_def example_endpoint_def

text \<open>A generator without cache, and a forced push that carries the name of one changed service.\<close>

definition example_eds_env :: "(unit, unit, nat) eds_env" where
  "example_eds_env = \<lparr>ee_rng = sorted_list_of_fset, ee_shards = (\<lambda>_. [example_shard]), ee_names = sorted_list_of_fset,
     ee_any = (\<lambda>_. ()), ee_sum64 = (\<lambda>_. 0), ee_Add = None\<rparr>"

definition example_eds :: "unit EdsGenerator" where
  "example_eds = \<lparr>eg_Cache = (), eg_EndpointIndex = NewEndpointIndex ()\<rparr>"

definition example_cluster :: "string \<Rightarrow> string" where
  "example_cluster h = BuildSubsetKey ''outbound'' [] h 80"

definition example_eds_watch :: "unit Resource WatchedResource" where
  "example_eds_watch =
     (zero_WatchedResource EndpointType)\<lparr>wr_ResourceNames := Some {|example_cluster ''web'', example_cluster ''db''|}\<rparr>"

definition example_eds_request :: "nat ConfigSnapshot PushContext PushRequest" where
  "example_eds_request = zero_PushRequest\<lparr>pr_Full := True, pr_Forced := True,
     pr_ConfigsUpdated := Some {|\<lparr>ck_Kind = KindService, ck_Name = ''web'', ck_Namespace = ''app''\<rparr>|},
     pr_Push := Some \<lparr>pc_ConfigSnapshot = NewConfigSnapshot, pc_PushVersion = ''v''\<rparr>\<rparr>"

definition example_eds_server :: "(unit, nat ConfigSnapshot) server" where
  "example_eds_server = \<lparr>srv_Authorize = Some (\<lambda>_ _. None),
     srv_Generators = fmupd (''grpc/'' @ EndpointType) (eds_generator example_eds_env example_eds) fmempty,
     srv_ProxyNeedsPush = None, srv_GetProxyServiceTargets = (\<lambda>_. [])\<rparr>"

definition example_eds_proxy :: "(unit, nat ConfigSnapshot) proxy" where
  "example_eds_proxy = \<lparr>px_LastPushContext = None, px_LastPushTime = 0, px_Type = Inherent,
     px_WatchedResources = fmupd EndpointType example_eds_watch fmempty, px_ID = ''p'', px_DNSDomain = [],
     px_Metadata = Some \<lparr>nm_Generator = ''grpc'', nm_ClusterID = [], nm_Namespace = ''app''\<rparr>,
     px_IPAddresses = [], px_ConfigNamespace = ''app'', px_ServiceTargets = []\<rparr>"

definition example_eds_con :: "(unit, nat ConfigSnapshot) Connection" where
  "example_eds_con = \<lparr>con_ID = ''c'', con_proxy = Some example_eds_proxy, con_ids = [], con_authExpiry = zero_time,
     con_ticks = 0, con_sent = []\<rparr>"

lemma example_eds_facts:
  "con_proxy example_eds_con = Some example_eds_proxy" "con_sent example_eds_con = []"
  "wr_TypeUrl example_eds_watch = EndpointType"
  "findGenerator example_eds_server EndpointType (Some example_eds_con) = Some (eds_generator example_eds_env example_eds)"
  "authorized example_eds_server now example_eds_con"
  "pr_Full example_eds_request" "pr_Forced example_eds_request" "edsNeedsPush example_eds_request"
  "ResourceDelta_IsEmpty (pr_Delta example_eds_request)"
  "pr_Push example_eds_request = Some \<lparr>pc_ConfigSnapshot = NewConfigSnapshot, pc_PushVersion = ''v''\<rparr>"
  "elems (wr_ResourceNames example_eds_watch) = {|example_cluster ''web'', example_cluster ''db''|}"
  "\<not> shouldUseDeltaEds example_eds_request"
  by (simp_all add: example_eds_con_def example_eds_proxy_def example_eds_watch_def example_eds_server_def
      example_eds_request_def zero_PushRequest_def zero_WatchedResource_def findGenerator_def authorized_def
      edsNeedsPush_def xdsNeedsPush_def ResourceDelta_IsEmpty_def emptyResourceDelta_def shouldUseDeltaEds_def
      canSendPartialFullPushes_def)

lemma example_eds_asked:
  assumes "CHR ''|'' \<notin> set h"
  shows "asked_for example_eds_request (example_cluster h) \<longleftrightarrow> h = ''web''" "well_formed (example_cluster h) \<longleftrightarrow> h \<noteq> []"
proof -
  have one: "ffilter P {|k|} = (if P k then {|k|} else {||})" for P and k :: ConfigKey by auto
  have "edsUpdatedServicesForRequest (Some example_eds_request) = (Some {|''web''|}, True)"
    by (simp add: example_eds_request_def zero_PushRequest_def edsUpdatedServicesForRequest_def skippedEdsConfigs_def
        Len_def Contains_def New_def one Let_def fcard_finsert_disjoint)
  then show "asked_for example_eds_request (example_cluster h) \<longleftrightarrow> h = ''web''" "well_formed (example_cluster h) \<longleftrightarrow> h \<noteq> []"
    using assms by (auto simp: asked_for_def well_formed_def example_cluster_def outbound_key maxInt64_def Contains_def)
qed

lemma example_eds_generated:
  "\<exists>res log eds. Eds_GenerateDeltas example_eds_env example_eds example_eds_request example_eds_watch =
     Inr (Some res, None, log, False, eds)"
proof -
  have "ServiceForHostname (ee_rng example_eds_env) (NewConfigSnapshot :: nat ConfigSnapshot) h = None" for h
    by (simp add: ServiceForHostname_def NewConfigSnapshot_def newServiceIndex_def at_or_empty_def example_eds_env_def
        sorted_list_of_fset.rep_eq)
  moreover have "ee_Add example_eds_env = None" by (simp add: example_eds_env_def)
  ultimately have "\<exists>st'. eds_iteration example_eds_env index example_eds_request False name st = Inr st'" for index name st
    by (simp add: eds_iteration_def NewEndpointBuilder_eq example_eds_facts generate_eds_def
        BuildClusterLoadAssignment_def Let_def split: prod.splits)
  then obtain st where st: "build_endpoints example_eds_env example_eds False example_eds_request example_eds_watch = Inr st"
    unfolding build_endpoints_def using eds_iterations_Inr by blast
  then have built: "buildEndpoints example_eds_env example_eds example_eds_request example_eds_watch =
      Inr (nil_if_empty (el_resources st), eds_log example_eds_request st, example_eds\<lparr>eg_Cache := el_cache st\<rparr>)"
    by (simp add: buildEndpoints_def)
  have "is_range (sorted_list_of_fset K) K" for K :: "string fset" by (rule sorted_list_range)
  then have "''web'' = ''web'' \<and> example_cluster ''web'' \<in> set (watched_names example_eds_env example_eds_watch)"
    by (simp add: watched_names_def example_eds_env_def example_eds_facts is_range_set)
  then have "resource_names (nil_if_empty (el_resources st)) \<noteq> []"
    using buildEndpoints_names [OF built example_eds_facts(10)] example_eds_asked [of "''web''"]
    by (auto simp: filter_empty_conv)
  then obtain res where "nil_if_empty (el_resources st) = Some res"
    by (cases "nil_if_empty (el_resources st)") (auto simp: resource_names_def)
  then show ?thesis using built by (simp add: Eds_GenerateDeltas_def example_eds_facts)
qed

section \<open>Properties\<close>

text \<open>
  C33: the load assignment of a cluster whose service is found and has endpoints in the index. There is one
  entry per locality, in the order of their names; it holds exactly the endpoints of all shards
  that serve the port and have an address, in order. The weight of a locality is the sum of the
  weights of its endpoints, an absent weight counting as one, as long as that sum fits 32 bits; then
  it is positive. Beyond that it wraps.
\<close>

theorem load_assignment:
  assumes "eb_service b = Some s" "servicePort b (eb_port b) = Inr (Some svcPort)"
    and "k8s_ExternalName (sa_K8sAttributes (svc_Attributes s)) = []"
    and "ShardsForService index (eb_hostname b) (sa_Namespace (svc_Attributes s)) = Some shards"
    and "None \<notin> set (service_ports s)"
    and eps: "eps = filter (\<lambda>ep. serves_port s svcPort ep \<and> ep_Addresses ep \<noteq> []) (shard_endpoints ks shards)"
  shows "\<exists>names. sorted names \<and> distinct names \<and> set names = ep_Locality ` set eps \<and>
    BuildClusterLoadAssignment ks b index = Inr \<lparr>cla_ClusterName = eb_clusterName b,
      cla_Endpoints = map (locality_message eps) names\<rparr> \<and>
    (\<forall>name \<in> set names. unat (ll_LoadBalancingWeight (locality_message eps name)) = total_weight name eps mod 2 ^ 32 \<and>
       0 < total_weight name eps \<and> (\<forall>ep \<in> set (in_locality name eps). lb_weight ep \<le> total_weight name eps))"
proof -
  let ?names = "sorted_list_of_set (ep_Locality ` set eps)"
  have "eps = served_by s svcPort (shard_endpoints ks shards)" by (simp add: eps served_by_def)
  then have "BuildClusterLoadAssignment ks b index = Inr \<lparr>cla_ClusterName = eb_clusterName b,
      cla_Endpoints = map (locality_message eps) ?names\<rparr>"
    by (rule BuildClusterLoadAssignment_shards [OF assms(1-5)])
  moreover have "unat (ll_LoadBalancingWeight (locality_message eps name)) = total_weight name eps mod 2 ^ 32" for name
    by (simp add: locality_message_def unat_of_nat)
  moreover have "0 < total_weight name eps" if "name \<in> ep_Locality ` set eps" for name
  proof -
    obtain ep where "ep \<in> set (in_locality name eps)" using \<open>name \<in> _\<close> by (auto simp: in_locality_def)
    then show ?thesis
      using lb_weight_pos [of ep] member_le_sum_list [of "lb_weight ep" "map lb_weight (in_locality name eps)"]
      by (simp add: total_weight_def)
  qed
  moreover have "lb_weight ep \<le> total_weight name eps" if "ep \<in> set (in_locality name eps)" for ep name
    using that by (simp add: total_weight_def member_le_sum_list)
  ultimately show ?thesis by (intro exI [of _ ?names]) auto
qed

theorem load_assignment_witness:
  "\<exists>names. BuildClusterLoadAssignment (\<lambda>_. [example_shard]) example_builder example_endpoints =
      Inr \<lparr>cla_ClusterName = ''outbound|80||web'', cla_Endpoints = map (locality_message example_eps) names\<rparr> \<and>
    set names = {''east'', ''west''} \<and>
    unat (ll_LoadBalancingWeight (locality_message example_eps ''east'')) = 1 \<and>
    unat (ll_LoadBalancingWeight (locality_message example_eps ''west'')) = 0"
proof -
  have port: "servicePort example_builder (eb_port example_builder) = Inr (Some example_port)"
    by (simp add: servicePort_def service_ports_def example_eds_defs)
  have eps: "example_eps = filter (\<lambda>ep. serves_port example_web example_port ep \<and> ep_Addresses ep \<noteq> [])
      (shard_endpoints (\<lambda>_. [example_shard]) example_shards)"
    by (simp add: shard_endpoints_def slice_at_def serves_port_def example_eds_defs)
  have "eb_service example_builder = Some example_web" "None \<notin> set (service_ports example_web)"
    "k8s_ExternalName (sa_K8sAttributes (svc_Attributes example_web)) = []"
    "ShardsForService example_endpoints (eb_hostname example_builder) (sa_Namespace (svc_Attributes example_web)) = Some example_shards"
    by (simp_all add: example_builder_def service_ports_def ShardsForService_def example_endpoints_def example_web_def example_svc_def)
  from load_assignment [OF this(1) port this(3,4,2) eps] obtain names where names:
      "set names = ep_Locality ` set example_eps"
      "BuildClusterLoadAssignment (\<lambda>_. [example_shard]) example_builder example_endpoints =
        Inr \<lparr>cla_ClusterName = eb_clusterName example_builder, cla_Endpoints = map (locality_message example_eps) names\<rparr>"
      "\<forall>name \<in> set names. unat (ll_LoadBalancingWeight (locality_message example_eps name)) = total_weight name example_eps mod 2 ^ 32"
    by auto
  have set: "set names = {''east'', ''west''}" using names(1) by (auto simp: example_eps_def example_weighted_def)
  have "total_weight ''east'' example_eps = 1" "total_weight ''west'' example_eps = 2 ^ 32"
    by (simp_all add: total_weight_def in_locality_def lb_weight_def example_eps_def example_weighted_def)
  then show ?thesis using names(2,3) set by (intro exI [of _ names]) (simp add: example_builder_def)
qed

text \<open>
  C34: what a full push of endpoints withdraws from a client of the incremental protocol. If the push is
  not forced and its changes name services, only clusters of these services are withdrawn, and only
  when their name is malformed or their service is gone. In every other case all watched clusters
  are withdrawn that were not asked for or are malformed. So when a forced push carries the names of
  changed services, which happens when a global update is merged with the update of a service, the
  endpoints of all other services are withdrawn although nothing happened to them.
\<close>

theorem endpoint_withdrawals:
  assumes "pushDeltaXds s io con (Some w) req = Inr (None, con')"
    and "con_sent con' = con_sent con @ [(t, Delta resp, None)]"
    and "findGenerator s (wr_TypeUrl w) (Some con) = Some (eds_generator env eds)"
    and "Eds_GenerateDeltas env eds req w = Inr result"
    and "pr_Full req" "edsNeedsPush req" "ResourceDelta_IsEmpty (pr_Delta req)" "pr_Push req = Some push"
    and "\<And>K. is_range (ee_names env K) K"
    and W: "W = fset (elems (wr_ResourceNames w))"
  shows "set (ddr_RemovedResources resp) =
    (if pr_Forced req \<or> \<not> snd (edsUpdatedServicesForRequest (Some req))
     then {n \<in> W. \<not> (asked_for req n \<and> well_formed n)}
     else {n \<in> W. asked_for req n \<and> \<not> (well_formed n \<and> has_service (ee_rng env) push n)})"
proof -
  have w: "pushed_watch w req = w" using assms(7) by (simp add: pushed_watch_def)
  obtain res removed log usedDelta eds' where result: "result = (res, removed, log, usedDelta, eds')"
    by (cases result) auto
  obtain proxy gen res' deletedRes usedDelta' p where
    gen: "findGenerator s (wr_TypeUrl w) (Some con) = Some gen"
      "run_generator gen proxy req (pushed_watch w req) = (res', deletedRes, usedDelta', None)"
    and "pr_Push req = Some p"
    and resp: "resp = delta_response io (con_ticks con + 1) p (pr_Full req) (pushed_watch w req) res' deletedRes usedDelta'"
    by (rule pushDeltaXds_sent [OF assms(1,2)]) blast
  have gen_eq: "gen = eds_generator env eds" using gen(1) assms(3) by simp
  have same: "res' = res" "deletedRes = removed" "usedDelta' = usedDelta"
    using gen(2) assms(4) w unfolding gen_eq by (simp_all add: eds_generator_def result)
  have W': "set (watched_names env w) = W" using is_range_set [OF assms(9)] by (simp add: watched_names_def W)
  show ?thesis
  proof (cases "pr_Forced req \<or> \<not> snd (edsUpdatedServicesForRequest (Some req))")
    case True
    then have "\<not> shouldUseDeltaEds req" by (auto simp: shouldUseDeltaEds_def canSendPartialFullPushes_def)
    then have built: "buildEndpoints env eds req w = Inr (res, log, eds')" and "\<not> usedDelta"
      using assms(4,6)
      by (auto simp: Eds_GenerateDeltas_def result map_sum_def split: sum.splits prod.splits)
    have "fset_of_list (ddr_RemovedResources resp) = elems (wr_ResourceNames w) |-| fset_of_list (resource_names res)"
      using assms(5) \<open>\<not> usedDelta\<close> w
      by (auto simp: resp same delta_response_def Let_def removed_full resource_names_def split: option.splits)
    then have "set (ddr_RemovedResources resp) = W - set (resource_names res)"
      unfolding W by (metis fset_of_list.rep_eq minus_fset.rep_eq)
    then show ?thesis
      using True buildEndpoints_names [OF built assms(8)] W' by auto
  next
    case False
    then have "shouldUseDeltaEds req" using assms(5) by (simp add: shouldUseDeltaEds_def canSendPartialFullPushes_def)
    then have built: "buildDeltaEndpoints env eds req w = Inr (res, removed, log, eds')" and used: usedDelta
      using assms(4,6)
      by (auto simp: Eds_GenerateDeltas_def result map_sum_def split: sum.splits prod.splits)
    have "ddr_RemovedResources resp = (case removed of None \<Rightarrow> [] | Some ns \<Rightarrow> ns)"
      using used by (simp add: resp same delta_response_def Let_def removed_resources_def)
    then show ?thesis using False buildDeltaEndpoints_names(2) [OF built assms(8)] W' by auto
  qed
qed

theorem endpoint_withdrawals_witness:
  "\<exists>con' t resp. pushDeltaXds example_eds_server example_io example_eds_con (Some example_eds_watch) example_eds_request =
      Inr (None, con') \<and> con_sent con' = [(t, Delta resp, None)] \<and>
    set (ddr_RemovedResources resp) = {BuildSubsetKey ''outbound'' [] ''db'' 80}"
proof -
  obtain res log eds where gen: "Eds_GenerateDeltas example_eds_env example_eds example_eds_request example_eds_watch =
      Inr (Some res, None, log, False, eds)"
    using example_eds_generated by blast
  have send: "io_send example_io t = None" for t by (simp add: example_io_def)
  have found: "findGenerator example_eds_server (wr_TypeUrl example_eds_watch) (Some example_eds_con) =
      Some (eds_generator example_eds_env example_eds)"
    by (simp add: example_eds_facts)
  obtain con' resp where push:
      "pushDeltaXds example_eds_server example_io example_eds_con (Some example_eds_watch) example_eds_request = Inr (None, con')"
      "con_sent con' = con_sent example_eds_con @ [(con_ticks example_eds_con + 1, Delta resp, None)]"
    using eds_push_sent [OF example_eds_facts(5,1) found gen example_eds_facts(9,10) send] by blast
  have "is_range (ee_names example_eds_env K) K" for K by (simp add: example_eds_env_def sorted_list_range)
  from endpoint_withdrawals [OF push found gen example_eds_facts(6,8,9,10) this refl]
  have "set (ddr_RemovedResources resp) =
      {n \<in> {example_cluster ''web'', example_cluster ''db''}. \<not> (asked_for example_eds_request n \<and> well_formed n)}"
    by (simp add: example_eds_facts(7,11))
  moreover have "asked_for example_eds_request (example_cluster ''web'')" "well_formed (example_cluster ''web'')"
    "\<not> asked_for example_eds_request (example_cluster ''db'')"
    by (simp_all add: example_eds_asked)
  ultimately have "set (ddr_RemovedResources resp) = {example_cluster ''db''}" by auto
  then show ?thesis
    using push by (intro exI [of _ con'] exI [of _ resp]) (simp add: example_eds_facts(2) example_cluster_def)
qed

end
