(* ===== verification/PushQueue.thy ===== *)
theory PushQueue
  imports PushRequest
begin

text \<open>
  The push queue, \<^verbatim>\<open>dubbod/discovery/pkg/xds/pushqueue.go\<close>. The state is the struct, with
  connections as an arbitrary type compared by identity. Every method runs under the mutex of
  the condition variable, so a method is one step, and the only place where a method gives up
  the lock half way is \<^verbatim>\<open>cond.Wait()\<close> in \<open>Dequeue\<close>. The condition variable is modelled by the
  number of callers asleep in \<^verbatim>\<open>Wait\<close> and the number woken up that have not taken the lock
  yet. Runs of the queue with any number of callers are the traces of a step relation.
\<close>

section \<open>State and operations\<close>

record cond =
  cond_waiting :: nat
  cond_woken :: nat

definition Signal :: "cond \<Rightarrow> cond" where
  "Signal v = (if cond_waiting v = 0 then v
     else v\<lparr>cond_waiting := cond_waiting v - 1, cond_woken := cond_woken v + 1\<rparr>)"

definition Broadcast :: "cond \<Rightarrow> cond" where
  "Broadcast v = v\<lparr>cond_waiting := 0, cond_woken := cond_woken v + cond_waiting v\<rparr>"

definition Wait :: "cond \<Rightarrow> cond" where
  "Wait v = v\<lparr>cond_waiting := cond_waiting v + 1\<rparr>"

text \<open>A key of \<^verbatim>\<open>pending\<close> or \<^verbatim>\<open>processing\<close> may be there with the value \<^verbatim>\<open>nil\<close>.\<close>

record ('c, 'p) PushQueue =
  pq_cond :: cond
  pq_pending :: "('c, 'p PushRequest option) fmap"
  pq_queue :: "'c list"
  pq_processing :: "('c, 'p PushRequest option) fmap"
  pq_shuttingDown :: bool

record pushQueueStats =
  Pending :: nat
  Queued :: nat
  Processing :: nat

definition NewPushQueue :: "('c, 'p) PushQueue" where
  "NewPushQueue =
     \<lparr>pq_cond = \<lparr>cond_waiting = 0, cond_woken = 0\<rparr>, pq_pending = fmempty, pq_queue = [],
      pq_processing = fmempty, pq_shuttingDown = False\<rparr>"

definition Enqueue ::
    "('c, 'p) PushQueue \<Rightarrow> 'c \<Rightarrow> 'p PushRequest option \<Rightarrow> ('c, 'p) PushQueue" where
  "Enqueue p con pushRequest =
     (if pq_shuttingDown p then p
      else case fmlookup (pq_processing p) con of
        Some request \<Rightarrow>
          p\<lparr>pq_processing := fmupd con (PushRequest_CopyMerge request pushRequest) (pq_processing p)\<rparr>
      | None \<Rightarrow> (case fmlookup (pq_pending p) con of
          Some request \<Rightarrow>
            p\<lparr>pq_pending := fmupd con (PushRequest_CopyMerge request pushRequest) (pq_pending p)\<rparr>
        | None \<Rightarrow>
            p\<lparr>pq_pending := fmupd con pushRequest (pq_pending p),
              pq_queue := pq_queue p @ [con], pq_cond := Signal (pq_cond p)\<rparr>))"

text \<open>What a caller of \<open>Dequeue\<close> that holds the lock does next: it goes to sleep, or returns.\<close>

datatype ('c, 'p) dequeue_result =
  DequeueWait "('c, 'p) PushQueue"
| DequeueShutdown "('c, 'p) PushQueue"
| DequeueItem 'c "'p PushRequest option" "('c, 'p) PushQueue"

definition Dequeue :: "('c, 'p) PushQueue \<Rightarrow> ('c, 'p) dequeue_result" where
  "Dequeue p =
     (if pq_queue p = [] \<and> \<not> pq_shuttingDown p then DequeueWait (p\<lparr>pq_cond := Wait (pq_cond p)\<rparr>)
      else case pq_queue p of
        [] \<Rightarrow> DequeueShutdown p
      | con # rest \<Rightarrow>
          DequeueItem con (case fmlookup (pq_pending p) con of None \<Rightarrow> None | Some request \<Rightarrow> request)
            (p\<lparr>pq_queue := rest, pq_pending := fmdrop con (pq_pending p),
               pq_processing := fmupd con None (pq_processing p)\<rparr>))"

definition MarkDone :: "('c, 'p) PushQueue \<Rightarrow> 'c \<Rightarrow> ('c, 'p) PushQueue" where
  "MarkDone p con =
     (let request = (case fmlookup (pq_processing p) con of None \<Rightarrow> None | Some r \<Rightarrow> r);
          p = p\<lparr>pq_processing := fmdrop con (pq_processing p)\<rparr>
      in if request \<noteq> None
         then p\<lparr>pq_pending := fmupd con request (pq_pending p),
                pq_queue := pq_queue p @ [con], pq_cond := Signal (pq_cond p)\<rparr>
         else p)"

definition ShutDown :: "('c, 'p) PushQueue \<Rightarrow> ('c, 'p) PushQueue" where
  "ShutDown p = p\<lparr>pq_shuttingDown := True, pq_cond := Broadcast (pq_cond p)\<rparr>"

definition Stats :: "('c, 'p) PushQueue option \<Rightarrow> pushQueueStats" where
  "Stats p = (case p of
     None \<Rightarrow> \<lparr>Pending = 0, Queued = 0, Processing = 0\<rparr>
   | Some p \<Rightarrow> \<lparr>Pending = fm_len (pq_pending p), Queued = length (pq_queue p),
       Processing = fm_len (pq_processing p)\<rparr>)"

section \<open>Runs\<close>

text \<open>
  A call of \<open>Dequeue\<close> takes the lock either when it is made or when a sleeping caller has
  been woken up; \<open>entering p p0\<close> gives the state \<open>p0\<close> in which it tests the loop condition.
\<close>

definition entering :: "('c, 'p) PushQueue \<Rightarrow> ('c, 'p) PushQueue \<Rightarrow> bool" where
  "entering p p0 \<longleftrightarrow> p0 = p \<or>
     cond_woken (pq_cond p) > 0 \<and> p0 = p\<lparr>pq_cond := (pq_cond p)\<lparr>cond_woken := cond_woken (pq_cond p) - 1\<rparr>\<rparr>"

datatype ('c, 'p) event =
  EvEnqueue 'c "'p PushRequest option"
| EvWait
| EvDequeue 'c "'p PushRequest option"
| EvDequeueShutdown
| EvMarkDone 'c
| EvShutDown

inductive queue_step :: "('c, 'p) PushQueue \<Rightarrow> ('c, 'p) event \<Rightarrow> ('c, 'p) PushQueue \<Rightarrow> bool" where
  enqueue: "queue_step p (EvEnqueue con r) (Enqueue p con r)"
| sleep: "entering p p0 \<Longrightarrow> Dequeue p0 = DequeueWait p' \<Longrightarrow> queue_step p EvWait p'"
| dequeue: "entering p p0 \<Longrightarrow> Dequeue p0 = DequeueItem con r p' \<Longrightarrow> queue_step p (EvDequeue con r) p'"
| stopped: "entering p p0 \<Longrightarrow> Dequeue p0 = DequeueShutdown p' \<Longrightarrow> queue_step p EvDequeueShutdown p'"
| mark_done: "queue_step p (EvMarkDone con) (MarkDone p con)"
| shut_down: "queue_step p EvShutDown (ShutDown p)"

inductive queue_run :: "('c, 'p) PushQueue \<Rightarrow> ('c, 'p) event list \<Rightarrow> ('c, 'p) PushQueue \<Rightarrow> bool" where
  run_nil: "queue_run p [] p"
| run_snoc: "queue_run p es p' \<Longrightarrow> queue_step p' e p'' \<Longrightarrow> queue_run p (es @ [e]) p''"

inductive_cases queue_stepE:
  "queue_step p (EvEnqueue con r) p'"
  "queue_step p EvWait p'"
  "queue_step p (EvDequeue con r) p'"
  "queue_step p EvDequeueShutdown p'"
  "queue_step p (EvMarkDone con) p'"
  "queue_step p EvShutDown p'"

text \<open>The requests accepted for \<open>con\<close> since it was last handed out, read off the events alone.\<close>

fun accepted :: "'c \<Rightarrow> ('c, 'p) event list \<Rightarrow> bool \<Rightarrow> 'p PushRequest option list \<Rightarrow> 'p PushRequest option list"
where
  "accepted con [] shut acc = acc"
| "accepted con (EvEnqueue d r # es) shut acc =
     accepted con es shut (if d = con \<and> \<not> shut then acc @ [r] else acc)"
| "accepted con (EvDequeue d r # es) shut acc = accepted con es shut (if d = con then [] else acc)"
| "accepted con (EvShutDown # es) shut acc = accepted con es True acc"
| "accepted con (_ # es) shut acc = accepted con es shut acc"

text \<open>The request the queue holds for \<open>con\<close>, waiting or to be requeued when its push is done.\<close>

definition outstanding :: "('c, 'p) PushQueue \<Rightarrow> 'c \<Rightarrow> 'p PushRequest option" where
  "outstanding p con =
     (case fmlookup (pq_pending p) con of Some r \<Rightarrow> r
      | None \<Rightarrow> (case fmlookup (pq_processing p) con of Some r \<Rightarrow> r | None \<Rightarrow> None))"

definition queue_wf :: "('c, 'p) PushQueue \<Rightarrow> bool" where
  "queue_wf p \<longleftrightarrow> distinct (pq_queue p) \<and> fset_of_list (pq_queue p) = fmdom (pq_pending p)
     \<and> fmdom (pq_pending p) |\<inter>| fmdom (pq_processing p) = {||}"

text \<open>Nobody sleeps while there is work that no woken caller is about to take.\<close>

definition no_lost_wakeup :: "('c, 'p) PushQueue \<Rightarrow> bool" where
  "no_lost_wakeup p \<longleftrightarrow>
     (cond_waiting (pq_cond p) > 0 \<longrightarrow>
        length (pq_queue p) \<le> cond_woken (pq_cond p) \<and> \<not> pq_shuttingDown p)"

section \<open>The invariant\<close>

lemma wf_iff:
  "queue_wf p \<longleftrightarrow> distinct (pq_queue p) \<and> set (pq_queue p) = fset (fmdom (pq_pending p))
     \<and> (\<forall>con. con |\<in>| fmdom (pq_pending p) \<longrightarrow> con |\<notin>| fmdom (pq_processing p))"
  unfolding queue_wf_def fset_of_list.rep_eq [symmetric] fset_inject by auto

lemma wf_New [simp]: "queue_wf NewPushQueue"
  by (simp add: queue_wf_def NewPushQueue_def)

lemma entering_simps:
  assumes "entering p p0"
  shows "pq_queue p0 = pq_queue p" "pq_pending p0 = pq_pending p" "pq_processing p0 = pq_processing p"
    "pq_shuttingDown p0 = pq_shuttingDown p" "queue_wf p0 = queue_wf p" "outstanding p0 con = outstanding p con"
    "cond_waiting (pq_cond p0) = cond_waiting (pq_cond p)"
  using assms by (auto simp: entering_def queue_wf_def outstanding_def split: option.splits)

lemma wf_Enqueue:
  assumes "queue_wf p"
  shows "queue_wf (Enqueue p con r)"
  using assms by (auto simp: wf_iff Enqueue_def fmdomI fmdom_notI split: option.splits)

lemma wf_MarkDone:
  assumes "queue_wf p"
  shows "queue_wf (MarkDone p con)"
  using assms by (auto simp: wf_iff MarkDone_def Let_def fmdomI split: option.splits)

lemma wf_ShutDown:
  "queue_wf p \<Longrightarrow> queue_wf (ShutDown p)"
  by (simp add: queue_wf_def ShutDown_def)

lemma Dequeue_cases:
  obtains (wait) "pq_queue p = []" "\<not> pq_shuttingDown p" "Dequeue p = DequeueWait (p\<lparr>pq_cond := Wait (pq_cond p)\<rparr>)"
  | (stop) "pq_queue p = []" "pq_shuttingDown p" "Dequeue p = DequeueShutdown p"
  | (item) con rest where "pq_queue p = con # rest"
      "Dequeue p = DequeueItem con (case fmlookup (pq_pending p) con of None \<Rightarrow> None | Some request \<Rightarrow> request)
         (p\<lparr>pq_queue := rest, pq_pending := fmdrop con (pq_pending p),
            pq_processing := fmupd con None (pq_processing p)\<rparr>)"
  by (cases "pq_queue p"; cases "pq_shuttingDown p") (auto simp: Dequeue_def)

lemma wf_Dequeue:
  assumes "queue_wf p" "Dequeue p = DequeueItem con r p'"
  shows "queue_wf p'"
  using assms(1)
  by (cases rule: Dequeue_cases [of p]) (use assms in \<open>auto simp: wf_iff\<close>)

lemma wf_step: "queue_step p e p' \<Longrightarrow> queue_wf p \<Longrightarrow> queue_wf p'"
proof (induction rule: queue_step.induct)
  case (sleep p p0 p')
  then show ?case
    by (cases rule: Dequeue_cases [of p0]) (auto simp: queue_wf_def entering_simps(1-4))
next
  case (stopped p p0 p')
  then show ?case
    by (cases rule: Dequeue_cases [of p0]) (auto simp: entering_simps(5))
next
  case (dequeue p p0 con r p')
  then have "queue_wf p0" by (simp add: entering_simps(5))
  then show ?case using dequeue.hyps(2) by (rule wf_Dequeue)
qed (simp_all add: wf_Enqueue wf_MarkDone wf_ShutDown)

lemma wf_run: "queue_run p es p' \<Longrightarrow> queue_wf p \<Longrightarrow> queue_wf p'"
  by (induction rule: queue_run.induct) (auto intro: wf_step)

lemma run_append:
  "queue_run p (es @ fs) p'' \<longleftrightarrow> (\<exists>p'. queue_run p es p' \<and> queue_run p' fs p'')"
proof (induction fs arbitrary: p'' rule: rev_induct)
  case Nil
  then show ?case by (auto intro: run_nil elim: queue_run.cases)
next
  case (snoc f fs)
  have "queue_run p (gs @ [f]) p'' \<longleftrightarrow> (\<exists>p'. queue_run p gs p' \<and> queue_step p' f p'')" for p gs
    by (auto intro: run_snoc elim: queue_run.cases)
  then show ?case using snoc by (auto simp flip: append_assoc)
qed

lemma run_Nil [simp]: "queue_run p [] p' \<longleftrightarrow> p' = p"
  by (auto intro: run_nil elim: queue_run.cases)

lemma run_single [simp]: "queue_run p [e] p' \<longleftrightarrow> queue_step p e p'"
  using run_snoc [OF run_nil] by (auto elim: queue_run.cases)

lemma run_Cons: "queue_run p (e # es) p'' \<longleftrightarrow> (\<exists>p'. queue_step p e p' \<and> queue_run p' es p'')"
  using run_append [of p "[e]" es p''] by simp

section \<open>What the queue owes a connection\<close>

lemma wf_not_both:
  "queue_wf p \<Longrightarrow> fmlookup (pq_pending p) d = Some x \<Longrightarrow> fmlookup (pq_processing p) d = None"
  unfolding wf_iff by (meson fmdomI fmdom_notD)

lemma wf_queued:
  "queue_wf p \<Longrightarrow> con \<in> set (pq_queue p) \<longleftrightarrow> fmlookup (pq_pending p) con \<noteq> None"
  unfolding wf_iff by (auto simp: fmlookup_dom_iff)

lemma outstanding_Enqueue:
  assumes "queue_wf p"
  shows "PushRequest_Copy (outstanding (Enqueue p con r) d) =
    (if d = con \<and> \<not> pq_shuttingDown p then PushRequest_CopyMerge (outstanding p con) r
     else PushRequest_Copy (outstanding p d))"
  using wf_not_both [OF assms, of con]
  by (auto simp: Enqueue_def outstanding_def split: option.splits)

lemma outstanding_MarkDone:
  assumes "queue_wf p"
  shows "outstanding (MarkDone p con) d = outstanding p d"
  using wf_not_both [OF assms, of con]
  by (auto simp: MarkDone_def outstanding_def Let_def split: option.splits)

lemma outstanding_ShutDown [simp]: "outstanding (ShutDown p) d = outstanding p d"
  by (simp add: ShutDown_def outstanding_def split: option.splits)

lemma outstanding_Dequeue:
  assumes "queue_wf p" "Dequeue p = DequeueItem con r p'"
  shows "r = outstanding p con \<and> outstanding p' d = (if d = con then None else outstanding p d)"
proof (cases rule: Dequeue_cases [of p])
  case (item c rest)
  then have "fmlookup (pq_pending p) con \<noteq> None"
    using assms wf_queued [OF assms(1), of con] by simp
  then obtain x where "fmlookup (pq_pending p) con = Some x" by blast
  moreover have "c = con" "r = (case fmlookup (pq_pending p) con of None \<Rightarrow> None | Some q \<Rightarrow> q)"
    "pq_pending p' = fmdrop con (pq_pending p)" "pq_processing p' = fmupd con None (pq_processing p)"
    using item assms(2) by auto
  ultimately show ?thesis by (simp add: outstanding_def cong: option.case_cong)
qed (use assms(2) in simp_all)

lemma accepted_snoc:
  "accepted con (es @ [e]) shut acc =
     (case e of
        EvEnqueue d r \<Rightarrow> if d = con \<and> \<not> shut \<and> EvShutDown \<notin> set es
          then accepted con es shut acc @ [r] else accepted con es shut acc
      | EvDequeue d r \<Rightarrow> if d = con then [] else accepted con es shut acc
      | _ \<Rightarrow> accepted con es shut acc)"
proof (induction es arbitrary: shut acc)
  case Nil
  then show ?case by (cases e) simp_all
next
  case (Cons a es)
  then show ?case by (cases a; cases e) simp_all
qed

lemma run_shuttingDown:
  "queue_run p es p' \<Longrightarrow> pq_shuttingDown p' \<longleftrightarrow> pq_shuttingDown p \<or> EvShutDown \<in> set es"
proof (induction rule: queue_run.induct)
  case (run_snoc p es p' e p'')
  from run_snoc.hyps(2) have "pq_shuttingDown p'' \<longleftrightarrow> pq_shuttingDown p' \<or> e = EvShutDown"
    by (induction rule: queue_step.induct)
      (auto simp: Enqueue_def MarkDone_def ShutDown_def Dequeue_def Let_def entering_simps(4)
        split: option.splits list.splits if_splits)
  then show ?case using run_snoc by auto
qed simp

lemma step_outstanding:
  assumes "queue_step p e p'" "queue_wf p"
  shows "PushRequest_Copy (outstanding p' con) =
    (case e of
       EvEnqueue d r \<Rightarrow> if d = con \<and> \<not> pq_shuttingDown p
         then PushRequest_CopyMerge (outstanding p con) r else PushRequest_Copy (outstanding p con)
     | EvDequeue d r \<Rightarrow> if d = con then None else PushRequest_Copy (outstanding p con)
     | _ \<Rightarrow> PushRequest_Copy (outstanding p con))"
  using assms
proof (induction rule: queue_step.induct)
  case (sleep p p0 p')
  then show ?case
    by (cases rule: Dequeue_cases [of p0])
      (auto simp: outstanding_def entering_simps(1-4) cong: option.case_cong)
next
  case (stopped p p0 p')
  then show ?case
    by (cases rule: Dequeue_cases [of p0]) (auto simp: entering_simps(6))
next
  case (dequeue p p0 d r p')
  then have "queue_wf p0" by (simp add: entering_simps(5))
  from outstanding_Dequeue [OF this dequeue.hyps(2), of con] show ?case
    by (simp add: entering_simps(6) [OF dequeue.hyps(1)])
qed (auto simp: outstanding_Enqueue outstanding_MarkDone)

lemma run_outstanding:
  "queue_run p es p' \<Longrightarrow> p = NewPushQueue \<Longrightarrow>
     PushRequest_Copy (outstanding p' con) = foldl PushRequest_CopyMerge None (accepted con es False [])"
proof (induction rule: queue_run.induct)
  case (run_nil p)
  then show ?case by (simp add: NewPushQueue_def outstanding_def)
next
  case (run_snoc p es p' e p'')
  have wf: "queue_wf p'" using wf_run [OF run_snoc.hyps(1)] run_snoc.prems by simp
  have shut: "pq_shuttingDown p' \<longleftrightarrow> EvShutDown \<in> set es"
    using run_shuttingDown [OF run_snoc.hyps(1)] run_snoc.prems by (simp add: NewPushQueue_def)
  have merge: "PushRequest_CopyMerge (outstanding p' con) r =
      PushRequest_CopyMerge (foldl PushRequest_CopyMerge None (accepted con es False [])) r" for r
    by (simp flip: run_snoc.IH [OF run_snoc.prems])
  show ?case
    by (cases e) (simp_all add: step_outstanding [OF run_snoc.hyps(2) wf] accepted_snoc shut merge
        run_snoc.IH [OF run_snoc.prems])
qed

section \<open>Order, exclusion and wake-ups\<close>

text \<open>The connections handed out in a run, in order.\<close>

fun dequeued :: "('c, 'p) event list \<Rightarrow> 'c list" where
  "dequeued [] = []"
| "dequeued (EvDequeue con r # es) = con # dequeued es"
| "dequeued (_ # es) = dequeued es"

lemma dequeued_append [simp]: "dequeued (es @ fs) = dequeued es @ dequeued fs"
  by (induction es rule: dequeued.induct) simp_all

lemma step_queue:
  assumes "queue_step p e p'"
  shows "\<exists>zs. pq_queue p @ zs = dequeued [e] @ pq_queue p'"
  using assms
proof (induction rule: queue_step.induct)
  case (sleep p p0 p')
  then show ?case by (cases rule: Dequeue_cases [of p0]) (auto simp: entering_simps(1))
next
  case (dequeue p p0 con r p')
  then show ?case by (cases rule: Dequeue_cases [of p0]) (auto simp: entering_simps(1))
next
  case (stopped p p0 p')
  then show ?case by (cases rule: Dequeue_cases [of p0]) (auto simp: entering_simps(1))
qed (auto simp: Enqueue_def MarkDone_def ShutDown_def Let_def split: option.splits)

lemma run_queue:
  "queue_run p es p' \<Longrightarrow> \<exists>zs. pq_queue p @ zs = dequeued es @ pq_queue p'"
proof (induction rule: queue_run.induct)
  case (run_snoc p es p' e p'')
  then obtain zs ys where "pq_queue p @ zs = dequeued es @ pq_queue p'"
    and "pq_queue p' @ ys = dequeued [e] @ pq_queue p''"
    using step_queue by blast
  then have "pq_queue p @ zs @ ys = dequeued (es @ [e]) @ pq_queue p''"
    by (metis append.assoc dequeued_append)
  then show ?case by blast
qed simp

lemma step_processing:
  assumes "queue_step p e p'" "queue_wf p" "con |\<in>| fmdom (pq_processing p)" "e \<noteq> EvMarkDone con"
  shows "con |\<in>| fmdom (pq_processing p') \<and> (\<forall>r. e \<noteq> EvDequeue con r)"
  using assms
proof (induction rule: queue_step.induct)
  case (sleep p p0 p')
  then show ?case by (cases rule: Dequeue_cases [of p0]) (auto simp: entering_simps(3))
next
  case (dequeue p p0 d r p')
  have "con \<notin> set (pq_queue p0)"
    using dequeue.prems by (auto simp: wf_iff entering_simps [OF dequeue.hyps(1)])
  then show ?case
    using dequeue by (cases rule: Dequeue_cases [of p0]) (auto simp: entering_simps(3))
next
  case (stopped p p0 p')
  then show ?case by (cases rule: Dequeue_cases [of p0]) (auto simp: entering_simps(3))
qed (auto simp: Enqueue_def MarkDone_def ShutDown_def Let_def split: option.splits)

lemma run_processing:
  "queue_run p es p' \<Longrightarrow> queue_wf p \<Longrightarrow> con |\<in>| fmdom (pq_processing p) \<Longrightarrow>
     EvMarkDone con \<notin> set es \<Longrightarrow> con |\<in>| fmdom (pq_processing p')"
proof (induction rule: queue_run.induct)
  case (run_snoc p es p' e p'')
  have "queue_wf p'" using wf_run [OF run_snoc.hyps(1) run_snoc.prems(1)] .
  then show ?case
    using step_processing [OF run_snoc.hyps(2)] run_snoc.IH run_snoc.prems by auto
qed simp

lemma step_no_lost_wakeup:
  assumes "queue_step p e p'" "no_lost_wakeup p"
  shows "no_lost_wakeup p'"
  using assms
proof (induction rule: queue_step.induct)
  case (sleep p p0 p')
  then show ?case
    by (cases rule: Dequeue_cases [of p0])
      (auto simp: no_lost_wakeup_def Wait_def entering_simps(1-4))
next
  case (dequeue p p0 con r p')
  then show ?case
    by (cases rule: Dequeue_cases [of p0]) (auto simp: no_lost_wakeup_def entering_def)
next
  case (stopped p p0 p')
  then show ?case
    by (cases rule: Dequeue_cases [of p0]) (auto simp: no_lost_wakeup_def entering_def)
qed (auto simp: no_lost_wakeup_def Enqueue_def MarkDone_def ShutDown_def Signal_def Broadcast_def
    Let_def split: option.splits)

lemma run_no_lost_wakeup:
  "queue_run p es p' \<Longrightarrow> no_lost_wakeup p \<Longrightarrow> no_lost_wakeup p'"
  by (induction rule: queue_run.induct) (auto intro: step_no_lost_wakeup)

section \<open>Shutting down\<close>

text \<open>The connections being served that have a further request to be queued again for.\<close>

definition to_requeue :: "('c, 'p) PushQueue \<Rightarrow> 'c fset" where
  "to_requeue p = ffilter (\<lambda>con. \<exists>r. fmlookup (pq_processing p) con = Some (Some r)) (fmdom (pq_processing p))"

lemma to_requeue_iff: "con |\<in>| to_requeue p \<longleftrightarrow> (\<exists>r. fmlookup (pq_processing p) con = Some (Some r))"
  by (auto simp: to_requeue_def intro: fmdomI)

lemma requeue_Dequeue:
  assumes "Dequeue p = DequeueItem con r p'"
  shows "length (pq_queue p) = Suc (length (pq_queue p'))" "to_requeue p' |\<subseteq>| to_requeue p"
  using assms
  by (cases rule: Dequeue_cases [of p]; auto simp: to_requeue_iff split: if_splits)+

lemma requeue_MarkDone:
  "length (pq_queue (MarkDone p con)) + fcard (to_requeue (MarkDone p con)) \<le>
     length (pq_queue p) + fcard (to_requeue p)"
proof (cases "con |\<in>| to_requeue p")
  case True
  then obtain r where r: "fmlookup (pq_processing p) con = Some (Some r)"
    by (auto simp: to_requeue_iff)
  have "to_requeue (MarkDone p con) = to_requeue p |-| {|con|}"
    by (rule fset_eqI) (auto simp: to_requeue_iff MarkDone_def Let_def r)
  moreover have "fcard (to_requeue p) > 0" using True by (metis fcard_fempty fcard_seteq fempty_iff gr0I fempty_fsubsetI le_zero_eq)
  ultimately show ?thesis
    using True by (simp add: MarkDone_def Let_def r fcard_fminus_fsingleton)
next
  case False
  have "to_requeue (MarkDone p con) |\<subseteq>| to_requeue p"
    by (auto simp: to_requeue_iff MarkDone_def Let_def split: if_splits)
  moreover have "pq_queue (MarkDone p con) = pq_queue p"
    using False by (auto simp: to_requeue_iff MarkDone_def Let_def split: option.splits)
  ultimately show ?thesis by (simp add: fcard_mono)
qed

lemma step_after_shutdown:
  assumes "queue_step p e p'" "pq_shuttingDown p"
  shows "length (dequeued [e]) + length (pq_queue p') + fcard (to_requeue p') \<le>
      length (pq_queue p) + fcard (to_requeue p)"
  using assms
proof (induction rule: queue_step.induct)
  case (sleep p p0 p')
  then show ?case by (cases rule: Dequeue_cases [of p0]) (auto simp: entering_simps(4))
next
  case (stopped p p0 p')
  then show ?case
    by (cases rule: Dequeue_cases [of p0]) (auto simp: entering_def to_requeue_def)
next
  case (dequeue p p0 con r p')
  have "to_requeue p0 = to_requeue p" using dequeue.hyps(1) by (auto simp: to_requeue_def entering_def)
  with requeue_Dequeue [OF dequeue.hyps(2)] show ?case
    by (simp add: entering_simps(1) [OF dequeue.hyps(1)] fcard_mono)
next
  case (mark_done p con)
  then show ?case using requeue_MarkDone [of p con] by simp
qed (auto simp: Enqueue_def ShutDown_def to_requeue_def)

lemma run_after_shutdown:
  "queue_run p es p' \<Longrightarrow> pq_shuttingDown p \<Longrightarrow>
     length (dequeued es) + length (pq_queue p') + fcard (to_requeue p') \<le>
       length (pq_queue p) + fcard (to_requeue p)"
proof (induction rule: queue_run.induct)
  case (run_snoc p es p' e p'')
  then have "pq_shuttingDown p'" using run_shuttingDown by blast
  with step_after_shutdown [OF run_snoc.hyps(2)] run_snoc.IH run_snoc.prems show ?case by simp
qed simp

section \<open>Properties\<close>

lemma step_Dequeue: "Dequeue p = DequeueItem con r p' \<Longrightarrow> queue_step p (EvDequeue con r) p'"
  by (rule queue_step.dequeue [of p p]) (simp_all add: entering_def)

lemma run_enqueue: "queue_run (Enqueue p con r) es p' \<Longrightarrow> queue_run p (EvEnqueue con r # es) p'"
  unfolding run_Cons by (rule exI, rule conjI, rule queue_step.enqueue)

lemma run_dequeue:
  "Dequeue p = DequeueItem con r p1 \<Longrightarrow> queue_run p1 es p' \<Longrightarrow> queue_run p (EvDequeue con r # es) p'"
  unfolding run_Cons by (rule exI, rule conjI, rule step_Dequeue)

lemma run_mark_done: "queue_run (MarkDone p con) es p' \<Longrightarrow> queue_run p (EvMarkDone con # es) p'"
  unfolding run_Cons by (rule exI, rule conjI, rule queue_step.mark_done)

lemma run_shut_down: "queue_run (ShutDown p) es p' \<Longrightarrow> queue_run p (EvShutDown # es) p'"
  unfolding run_Cons by (rule exI, rule conjI, rule queue_step.shut_down)

text \<open>
  A concrete run for the witnesses: connection 1 gets a request and is handed out, two more
  requests for it arrive while it is being served, a request for connection 2 arrives, and
  the push of connection 1 is done.
\<close>

definition req_a :: "nat PushRequest" where "req_a = zero_PushRequest\<lparr>pr_Full := True\<rparr>"
definition req_b :: "nat PushRequest" where "req_b = zero_PushRequest\<lparr>pr_Forced := True\<rparr>"

definition example_served :: "(nat, nat) PushQueue" where
  "example_served = NewPushQueue\<lparr>pq_processing := fmupd 1 None fmempty\<rparr>"

definition example_busy :: "(nat, nat) PushQueue" where
  "example_busy = Enqueue (Enqueue (Enqueue example_served 1 (Some req_a)) 1 (Some req_b)) 2 (Some req_a)"

definition example_busy_events :: "(nat, nat) event list" where
  "example_busy_events = [EvEnqueue 1 (Some req_a), EvDequeue 1 (Some req_a), EvEnqueue 1 (Some req_a),
     EvEnqueue 1 (Some req_b), EvEnqueue 2 (Some req_a)]"

lemma Dequeue_first: "Dequeue (Enqueue NewPushQueue 1 (Some req_a)) = DequeueItem 1 (Some req_a) example_served"
  by (simp add: Dequeue_def Enqueue_def NewPushQueue_def example_served_def Signal_def fmdrop_fmupd_same)

lemma example_busy_run: "queue_run NewPushQueue example_busy_events example_busy"
  unfolding example_busy_events_def example_busy_def
  by (rule run_enqueue, rule run_dequeue [OF Dequeue_first], (rule run_enqueue)+, rule run_nil)

definition example_rest :: "(nat, nat) PushQueue" where
  "example_rest = (case Dequeue example_busy of DequeueItem con r p \<Rightarrow> p | _ \<Rightarrow> example_busy)"

lemma example_busy_Dequeue: "Dequeue example_busy = DequeueItem 2 (Some req_a) example_rest"
  by (simp add: example_rest_def Dequeue_def example_busy_def Enqueue_def example_served_def NewPushQueue_def)

lemma example_busy_requeued: "pq_queue (MarkDone example_busy 1) = [2, 1]"
  by (simp add: example_busy_def MarkDone_def Enqueue_def example_served_def NewPushQueue_def Let_def)

text \<open>
  C1: No request is lost or handed out twice. In every run, whatever the interleaving of the
  callers, the request handed out with a connection is the merge of exactly the requests
  enqueued for that connection since it was last handed out, in the order they came.
\<close>

theorem Dequeue_hands_out_everything:
  assumes "queue_run NewPushQueue es p" and "queue_step p (EvDequeue con r) p'"
  shows "PushRequest_Copy r = foldl PushRequest_CopyMerge None (accepted con es False [])"
proof -
  obtain p0 where p0: "entering p p0" "Dequeue p0 = DequeueItem con r p'"
    using assms(2) by (auto elim: queue_stepE)
  have "queue_wf p0" using wf_run [OF assms(1)] entering_simps(5) [OF p0(1)] by simp
  then have "r = outstanding p con"
    using outstanding_Dequeue [OF _ p0(2)] entering_simps(6) [OF p0(1)] by simp
  then show ?thesis using run_outstanding [OF assms(1)] by simp
qed

theorem Dequeue_hands_out_everything_witness:
  "PushRequest_Copy (Some req_a) =
     foldl PushRequest_CopyMerge None (accepted 2 example_busy_events False [])"
  using Dequeue_hands_out_everything [OF example_busy_run step_Dequeue [OF example_busy_Dequeue]] .

text \<open>
  C2: No connection with work is stranded: whenever the requests accepted for a connection since
  it was last handed out amount to a request, the connection is in the queue, or it is being
  served and finishing that push puts it back into the queue.
\<close>

theorem accepted_never_stranded:
  assumes "queue_run NewPushQueue es p"
    and "foldl PushRequest_CopyMerge None (accepted con es False []) \<noteq> None"
  shows "con \<in> set (pq_queue p) \<or> con \<in> set (pq_queue (MarkDone p con))"
proof -
  have "outstanding p con \<noteq> None" using run_outstanding [OF assms(1) refl, of con] assms(2)
    by (metis PushRequest_Copy_None)
  moreover have "queue_wf p" using wf_run [OF assms(1)] by simp
  ultimately show ?thesis
    by (auto simp: outstanding_def wf_queued MarkDone_def Let_def split: option.splits)
qed

theorem accepted_never_stranded_witness:
  "(1::nat) \<in> set (pq_queue example_busy) \<or> 1 \<in> set (pq_queue (MarkDone example_busy 1))"
  by (rule accepted_never_stranded [OF example_busy_run])
    (simp add: example_busy_events_def CopyMerge_Some PushRequest_Copy_Some)

text \<open>
  Connections are served first come, first served: in any run from any state, the \<open>i\<close>-th
  connection handed out is the one at position \<open>i\<close> of the queue, whatever is enqueued,
  merged or marked done in the meantime. So a queued connection waits for exactly the
  connections in front of it.
\<close>

lemma queue_is_fifo:
  assumes "queue_run p es p'" and "i < length (pq_queue p)" and "i < length (dequeued es)"
  shows "dequeued es ! i = pq_queue p ! i"
  using run_queue [OF assms(1)] assms(2,3) by (metis nth_append)

lemma queue_is_fifo_witness: "dequeued [EvDequeue 2 (Some req_a)] ! 0 = pq_queue example_busy ! 0"
  by (rule queue_is_fifo [of example_busy _ example_rest])
    (simp_all add: step_Dequeue [OF example_busy_Dequeue], simp add: example_busy_def Enqueue_def example_served_def NewPushQueue_def)

text \<open>
  A connection is never served twice at the same time: between two occasions on which it is
  handed out, it has been marked done.
\<close>

lemma served_one_at_a_time:
  assumes "queue_run NewPushQueue (es @ EvDequeue con r # fs @ [EvDequeue con r']) p"
  shows "EvMarkDone con \<in> set fs"
proof (rule ccontr)
  assume no: "EvMarkDone con \<notin> set fs"
  obtain p1 p2 p3 where run: "queue_run NewPushQueue es p1" "queue_step p1 (EvDequeue con r) p2"
    "queue_run p2 fs p3" "queue_step p3 (EvDequeue con r') p"
    using assms by (auto simp: run_append run_Cons)
  have wf: "queue_wf p2" using wf_step [OF run(2)] wf_run [OF run(1)] by simp
  have "con |\<in>| fmdom (pq_processing p2)"
    using run(2) by (auto elim!: queue_stepE simp: Dequeue_def split: list.splits if_splits)
  then have "con |\<in>| fmdom (pq_processing p3)" by (rule run_processing [OF run(3) wf _ no])
  with step_processing [OF run(4) wf_run [OF run(3) wf]] show False by blast
qed

definition example_again :: "(nat, nat) PushQueue" where
  "example_again = (case Dequeue (Enqueue (MarkDone example_served 1) 1 (Some req_b)) of
     DequeueItem con r p \<Rightarrow> p | _ \<Rightarrow> example_served)"

lemma example_again_Dequeue:
  "Dequeue (Enqueue (MarkDone example_served 1) 1 (Some req_b)) = DequeueItem 1 (Some req_b) example_again"
  by (simp add: example_again_def Dequeue_def Enqueue_def MarkDone_def example_served_def NewPushQueue_def Let_def)

lemma example_again_run:
  "queue_run NewPushQueue ([EvEnqueue 1 (Some req_a)] @ EvDequeue 1 (Some req_a) #
     [EvMarkDone 1, EvEnqueue 1 (Some req_b)] @ [EvDequeue 1 (Some req_b)]) example_again"
  unfolding append.simps
  by (rule run_enqueue, rule run_dequeue [OF Dequeue_first], rule run_mark_done, rule run_enqueue,
      rule run_dequeue [OF example_again_Dequeue], rule run_nil)

lemma served_one_at_a_time_witness:
  "EvMarkDone (1::nat) \<in> set [EvMarkDone 1, EvEnqueue 1 (Some req_b)]"
  using served_one_at_a_time [OF example_again_run] .

text \<open>
  C7: No wake-up is lost. In every reachable state, if some caller of \<open>Dequeue\<close> is asleep then
  the queue is not shutting down, and every queued connection has a caller that was woken up
  and is about to take the lock. In particular nobody sleeps while a connection is queued and no
  woken caller is left to take it, and a shutdown leaves no caller asleep.
\<close>

theorem no_caller_sleeps_on_work:
  assumes "queue_run NewPushQueue es p" and "cond_waiting (pq_cond p) > 0"
  shows "length (pq_queue p) \<le> cond_woken (pq_cond p) \<and> \<not> pq_shuttingDown p"
  using run_no_lost_wakeup [OF assms(1)] assms(2)
  by (simp add: no_lost_wakeup_def NewPushQueue_def)

definition example_asleep :: "(nat, nat) PushQueue" where
  "example_asleep = NewPushQueue\<lparr>pq_cond := \<lparr>cond_waiting = 2, cond_woken = 0\<rparr>\<rparr>"

lemma example_asleep_run:
  "queue_run NewPushQueue [EvWait, EvWait, EvEnqueue 1 (Some req_a)] (Enqueue example_asleep 1 (Some req_a))"
proof -
  let ?one = "NewPushQueue\<lparr>pq_cond := \<lparr>cond_waiting = 1, cond_woken = 0\<rparr>\<rparr> :: (nat, nat) PushQueue"
  have "queue_step NewPushQueue EvWait ?one" "queue_step ?one EvWait example_asleep"
    by (rule queue_step.sleep [OF entering_def [THEN iffD2, OF disjI1, OF refl]];
        simp add: Dequeue_def NewPushQueue_def Wait_def example_asleep_def)+
  from run_snoc [OF run_snoc [OF run_nil this(1)] this(2)]
  have "queue_run NewPushQueue [EvWait, EvWait] example_asleep" by simp
  from run_snoc [OF this queue_step.enqueue] show ?thesis by simp
qed

theorem no_caller_sleeps_on_work_witness:
  "length (pq_queue (Enqueue example_asleep 1 (Some req_a))) \<le> cond_woken (pq_cond (Enqueue example_asleep 1 (Some req_a)))
     \<and> \<not> pq_shuttingDown (Enqueue example_asleep 1 (Some req_a))"
  by (rule no_caller_sleeps_on_work [OF example_asleep_run])
    (simp add: example_asleep_def Enqueue_def NewPushQueue_def Signal_def)

text \<open>
  Shutting down ends the service: once the queue is shutting down, no run hands out more
  connections than were queued plus those being served that had a further request, however many
  further requests are enqueued.
\<close>

lemma shutdown_bounds_service:
  assumes "queue_run p es p'" and "pq_shuttingDown p"
  shows "length (dequeued es) \<le> length (pq_queue p) + fcard (to_requeue p)"
  using run_after_shutdown [OF assms] by simp

lemma shutdown_bounds_service_witness:
  "length (dequeued [EvEnqueue 3 (Some req_a), EvMarkDone (1::nat)]) \<le>
     length (pq_queue (ShutDown example_busy)) + fcard (to_requeue (ShutDown example_busy))"
  by (rule shutdown_bounds_service, rule run_enqueue, rule run_mark_done, rule run_nil)
    (simp add: ShutDown_def)

end
