(* ===== verification/Debounce.thy ===== *)
theory Debounce
  imports PushRequest
begin

text \<open>
  The debouncer, \<^verbatim>\<open>debounce\<close> of \<^verbatim>\<open>dubbod/discovery/pkg/xds/discovery.go\<close>: it merges the requests that
  arrive on a channel and hands them to the push function when updates have been quiet for a
  while or have been held back for too long, one push at a time. The state holds the variables
  of the function, the timer as the time at which it fires, and the goroutines it started. Each
  iteration of the \<^verbatim>\<open>select\<close> loop is one step; goroutines finish in steps of their own. Times are read
  as an argument \<open>now\<close>.
\<close>

section \<open>State and handlers\<close>

record DebounceOptions =
  DebounceAfter :: int
  debounceMax :: int
  enableEDSDebounce :: bool

text \<open>
  \<open>db_timeChan\<close> is the time at which the armed timer fires. \<open>db_running\<close> holds the number of events
  of each debounced push in progress, \<open>db_immediate\<close> counts the pushes started without debouncing,
  \<open>db_freeCh\<close> the messages in the buffered channel \<^verbatim>\<open>freeCh\<close>, and \<open>db_clock\<close> is the last time read.
\<close>

record 'p debouncer =
  db_timeChan :: "time option"
  db_startDebounce :: time
  db_lastConfigUpdateTime :: time
  db_debouncedEvents :: nat
  db_req :: "'p PushRequest option"
  db_free :: bool
  db_freeCh :: nat
  db_running :: "nat list"
  db_immediate :: nat
  db_updateSent :: nat
  db_clock :: time

definition new_debouncer :: "'p debouncer" where
  "new_debouncer =
     \<lparr>db_timeChan = None, db_startDebounce = zero_time, db_lastConfigUpdateTime = zero_time,
      db_debouncedEvents = 0, db_req = None, db_free = True, db_freeCh = 0, db_running = [],
      db_immediate = 0, db_updateSent = 0, db_clock = zero_time\<rparr>"

text \<open>The second result is the push it starts, with the number of events in it.\<close>

definition pushWorker ::
    "DebounceOptions \<Rightarrow> time \<Rightarrow> 'p debouncer \<Rightarrow> 'p debouncer \<times> ('p PushRequest \<times> nat) option" where
  "pushWorker opts now d =
     (let eventDelay = now - db_startDebounce d; quietTime = now - db_lastConfigUpdateTime d in
      if eventDelay \<ge> debounceMax opts \<or> quietTime \<ge> DebounceAfter opts then
        (case db_req d of
           None \<Rightarrow> (d, None)
         | Some req \<Rightarrow>
             (d\<lparr>db_free := False, db_running := db_running d @ [db_debouncedEvents d], db_req := None,
                db_debouncedEvents := 0\<rparr>, Some (req, db_debouncedEvents d)))
      else (d\<lparr>db_timeChan := Some (now + (DebounceAfter opts - quietTime))\<rparr>, None))"

definition with_reason :: "'p PushRequest \<Rightarrow> 'p PushRequest" where
  "with_reason r = (if fm_len (reasons (pr_Reason r)) = 0
     then r\<lparr>pr_Reason := Some (NewReasonStats [UnknownTrigger])\<rparr> else r)"

definition is_immediate :: "DebounceOptions \<Rightarrow> 'p PushRequest \<Rightarrow> bool" where
  "is_immediate opts r \<longleftrightarrow> \<not> enableEDSDebounce opts \<and> \<not> pr_Full r"

text \<open>The case of a received request, after its reason was filled in.\<close>

definition receive_event :: "DebounceOptions \<Rightarrow> time \<Rightarrow> 'p PushRequest \<Rightarrow> 'p debouncer \<Rightarrow> 'p debouncer" where
  "receive_event opts now r d =
     (if is_immediate opts r then d\<lparr>db_immediate := db_immediate d + 1\<rparr>
      else let d = d\<lparr>db_lastConfigUpdateTime := now\<rparr>;
               wasNewDebounceWindow = (db_debouncedEvents d = 0);
               d = (if wasNewDebounceWindow
                    then d\<lparr>db_timeChan := Some (now + DebounceAfter opts), db_startDebounce := now\<rparr> else d)
           in d\<lparr>db_debouncedEvents := db_debouncedEvents d + 1,
                db_req := PushRequest_Merge (db_req d) (Some r)\<rparr>)"

datatype 'p debounce_event =
  Received "'p PushRequest"
| ReceivedNow "'p PushRequest"
| Pushed "'p PushRequest" nat
| Quiet
| Finished nat
| FinishedNow

definition worker_event :: "('p PushRequest \<times> nat) option \<Rightarrow> 'p debounce_event" where
  "worker_event out = (case out of None \<Rightarrow> Quiet | Some (req, n) \<Rightarrow> Pushed req n)"

section \<open>Runs\<close>

inductive debounce_step :: "DebounceOptions \<Rightarrow> 'p debouncer \<Rightarrow> 'p debounce_event \<Rightarrow> 'p debouncer \<Rightarrow> bool"
  for opts
where
  receive: "r' = with_reason r \<Longrightarrow> db_clock d \<le> now \<Longrightarrow>
    debounce_step opts d (if is_immediate opts r' then ReceivedNow r' else Received r')
      (receive_event opts now r' (d\<lparr>db_clock := now\<rparr>))"
| timer: "db_timeChan d = Some deadline \<Longrightarrow> deadline \<le> now \<Longrightarrow> db_clock d \<le> now \<Longrightarrow> db_free d \<Longrightarrow>
    pushWorker opts now (d\<lparr>db_timeChan := None, db_clock := now\<rparr>) = (d', out) \<Longrightarrow>
    debounce_step opts d (worker_event out) d'"
| timer_busy: "db_timeChan d = Some deadline \<Longrightarrow> deadline \<le> now \<Longrightarrow> db_clock d \<le> now \<Longrightarrow> \<not> db_free d \<Longrightarrow>
    debounce_step opts d Quiet (d\<lparr>db_timeChan := None, db_clock := now\<rparr>)"
| free: "db_freeCh d > 0 \<Longrightarrow> db_clock d \<le> now \<Longrightarrow>
    pushWorker opts now (d\<lparr>db_freeCh := db_freeCh d - 1, db_free := True, db_clock := now\<rparr>) = (d', out) \<Longrightarrow>
    debounce_step opts d (worker_event out) d'"
| finish: "db_running d = n # running \<Longrightarrow>
    debounce_step opts d (Finished n)
      (d\<lparr>db_running := running, db_updateSent := db_updateSent d + n, db_freeCh := db_freeCh d + 1\<rparr>)"
| finish_now: "db_immediate d > 0 \<Longrightarrow>
    debounce_step opts d FinishedNow
      (d\<lparr>db_immediate := db_immediate d - 1, db_updateSent := db_updateSent d + 1\<rparr>)"

inductive debounce_run :: "DebounceOptions \<Rightarrow> 'p debounce_event list \<Rightarrow> 'p debouncer \<Rightarrow> bool" for opts where
  start: "debounce_run opts [] new_debouncer"
| more: "debounce_run opts es d \<Longrightarrow> debounce_step opts d e d' \<Longrightarrow> debounce_run opts (es @ [e]) d'"

text \<open>The requests received for debouncing since the last debounced push.\<close>

fun window :: "'p debounce_event list \<Rightarrow> 'p PushRequest list \<Rightarrow> 'p PushRequest list" where
  "window [] acc = acc"
| "window (Received r # es) acc = window es (acc @ [r])"
| "window (Pushed r n # es) acc = window es []"
| "window (_ # es) acc = window es acc"

fun received :: "'p debounce_event list \<Rightarrow> nat" where
  "received [] = 0"
| "received (Received r # es) = received es + 1"
| "received (ReceivedNow r # es) = received es + 1"
| "received (_ # es) = received es"

definition merged :: "'p PushRequest list \<Rightarrow> 'p PushRequest option" where
  "merged rs = foldl PushRequest_Merge None (map Some rs)"

section \<open>Invariants\<close>

lemma window_snoc:
  "window (es @ [e]) acc = (case e of Received r \<Rightarrow> window es acc @ [r] | Pushed r n \<Rightarrow> [] | _ \<Rightarrow> window es acc)"
proof (induction es arbitrary: acc)
  case Nil
  then show ?case by (cases e) simp_all
next
  case (Cons a es)
  then show ?case by (cases a; cases e) simp_all
qed

lemma received_snoc:
  "received (es @ [e]) = received es + (case e of Received r \<Rightarrow> 1 | ReceivedNow r \<Rightarrow> 1 | _ \<Rightarrow> 0)"
proof (induction es)
  case Nil
  then show ?case by (cases e) simp_all
next
  case (Cons a es)
  then show ?case by (cases a; cases e) simp_all
qed

lemma merged_snoc: "merged (rs @ [r]) = PushRequest_Merge (merged rs) (Some r)"
  by (simp add: merged_def)

lemma merged_Nil [simp]: "merged [] = None"
  by (simp add: merged_def)

lemma merged_single: "merged [r] = PushRequest_Merge None (Some r)"
  by (simp add: merged_def)

lemma merged_None [simp]: "merged rs = None \<longleftrightarrow> rs = []"
  by (induction rs rule: rev_induct) (auto simp: merged_snoc PushRequest_Merge_def split: option.splits)

lemma pushWorker_cases:
  obtains (push) req where "db_req d = Some req"
      "pushWorker opts now d = (d\<lparr>db_free := False, db_running := db_running d @ [db_debouncedEvents d],
         db_req := None, db_debouncedEvents := 0\<rparr>, Some (req, db_debouncedEvents d))"
      "now - db_startDebounce d \<ge> debounceMax opts \<or> now - db_lastConfigUpdateTime d \<ge> DebounceAfter opts"
  | (idle) "db_req d = None" "pushWorker opts now d = (d, None)"
  | (rearm) "pushWorker opts now d =
      (d\<lparr>db_timeChan := Some (db_lastConfigUpdateTime d + DebounceAfter opts)\<rparr>, None)"
      "now - db_startDebounce d < debounceMax opts" "now - db_lastConfigUpdateTime d < DebounceAfter opts"
  by (cases "db_req d"; cases "now - db_startDebounce d \<ge> debounceMax opts \<or>
      now - db_lastConfigUpdateTime d \<ge> DebounceAfter opts")
    (auto simp: pushWorker_def Let_def algebra_simps)

lemma pushWorker_quiet:
  assumes "db_req d = Some req" "now \<ge> db_lastConfigUpdateTime d + DebounceAfter opts"
  shows "pushWorker opts now d =
    (d\<lparr>db_free := False, db_running := db_running d @ [db_debouncedEvents d], db_req := None,
       db_debouncedEvents := 0\<rparr>, Some (req, db_debouncedEvents d))"
  using assms by (auto simp: pushWorker_def Let_def)

text \<open>
  The invariant of a run: the request held back is the merge of the window and its count is the
  window's length; a push is in progress or just over exactly when the debouncer is not free, and
  there is at most one; a request held back while free has a timer, due at the end of its quiet
  time; every event received is counted once.
\<close>

definition debounce_inv :: "DebounceOptions \<Rightarrow> 'p debounce_event list \<Rightarrow> 'p debouncer \<Rightarrow> bool" where
  "debounce_inv opts es d \<longleftrightarrow>
     db_req d = merged (window es []) \<and>
     db_debouncedEvents d = length (window es []) \<and>
     length (db_running d) + db_freeCh d = (if db_free d then 0 else 1) \<and>
     db_lastConfigUpdateTime d \<le> db_clock d \<and>
     (db_req d \<noteq> None \<longrightarrow> db_free d \<longrightarrow>
        (\<exists>t. db_timeChan d = Some t \<and> t \<le> db_lastConfigUpdateTime d + DebounceAfter opts)) \<and>
     received es = db_updateSent d + sum_list (db_running d) + db_immediate d + db_debouncedEvents d"

lemma debounce_inv_start: "debounce_inv opts [] new_debouncer"
  by (simp add: debounce_inv_def new_debouncer_def)

lemma debounce_inv_receive:
  assumes inv: "debounce_inv opts es d" and now: "db_clock d \<le> now"
  shows "debounce_inv opts (es @ [if is_immediate opts r then ReceivedNow r else Received r])
           (receive_event opts now r (d\<lparr>db_clock := now\<rparr>))"
proof (cases "is_immediate opts r")
  case True
  then show ?thesis using assms
    by (auto simp: debounce_inv_def receive_event_def window_snoc received_snoc)
next
  case False
  have some: "PushRequest_Merge (merged (window es [])) (Some r) \<noteq> None"
    unfolding merged_snoc [symmetric] by simp
  have none: "window es [] \<noteq> [] \<Longrightarrow> db_req d \<noteq> None"
    using inv by (simp add: debounce_inv_def)
  show ?thesis
  proof (cases "db_debouncedEvents d = 0")
    case True
    then show ?thesis using assms False some
      by (auto simp: debounce_inv_def receive_event_def window_snoc received_snoc merged_snoc merged_single Let_def)
  next
    case old: False
    then have "window es [] \<noteq> []" using inv by (simp add: debounce_inv_def)
    note none [OF this]
    then show ?thesis using assms False old some
      by (fastforce simp: debounce_inv_def receive_event_def window_snoc received_snoc merged_snoc Let_def)
  qed
qed

text \<open>The worker is called when the debouncer is free; \<open>d\<close> may have lost its timer.\<close>

lemma debounce_inv_worker:
  assumes "db_req d = merged (window es [])" "db_debouncedEvents d = length (window es [])"
    and "db_running d = []" "db_freeCh d = 0" "db_free d" "db_lastConfigUpdateTime d \<le> db_clock d"
    and "received es = db_updateSent d + sum_list (db_running d) + db_immediate d + db_debouncedEvents d"
    and "pushWorker opts now d = (d', out)"
  shows "debounce_inv opts (es @ [worker_event out]) d'"
proof (cases rule: pushWorker_cases [of d opts now])
  case (push req)
  then show ?thesis using assms
    by (auto simp: debounce_inv_def worker_event_def window_snoc received_snoc)
next
  case idle
  then show ?thesis using assms
    by (auto simp: debounce_inv_def worker_event_def window_snoc received_snoc)
next
  case rearm
  then show ?thesis using assms
    by (auto simp: debounce_inv_def worker_event_def window_snoc received_snoc)
qed

lemma debounce_inv_step:
  assumes inv: "debounce_inv opts es d" and step: "debounce_step opts d e d'"
  shows "debounce_inv opts (es @ [e]) d'"
  using step
proof cases
  case (receive r' r now)
  then show ?thesis using debounce_inv_receive [OF inv, of now "with_reason r"] by (simp split: if_splits)
next
  case (timer deadline now out)
  show ?thesis unfolding timer(1)
    by (rule debounce_inv_worker [OF _ _ _ _ _ _ _ timer(6)])
      (use inv timer in \<open>auto simp: debounce_inv_def\<close>)
next
  case (timer_busy deadline now)
  then show ?thesis using inv by (auto simp: debounce_inv_def window_snoc received_snoc)
next
  case (free now out)
  then have idle: "db_running d = []" using inv by (cases "db_running d") (auto simp: debounce_inv_def split: if_splits)
  show ?thesis unfolding free(1)
    by (rule debounce_inv_worker [OF _ _ _ _ _ _ _ free(4)])
      (use inv free idle in \<open>auto simp: debounce_inv_def split: if_splits\<close>)
next
  case (finish n running)
  then show ?thesis using inv by (auto simp: debounce_inv_def window_snoc received_snoc split: if_splits)
next
  case finish_now
  then show ?thesis using inv by (auto simp: debounce_inv_def window_snoc received_snoc)
qed

lemma debounce_run_inv: "debounce_run opts es d \<Longrightarrow> debounce_inv opts es d"
  by (induction rule: debounce_run.induct) (auto intro: debounce_inv_start debounce_inv_step)

lemma pushed_window:
  assumes "debounce_run opts es d" "debounce_step opts d (Pushed req n) d'"
  shows "merged (window es []) = Some req \<and> n = length (window es []) \<and> n > 0"
proof -
  have inv: "debounce_inv opts es d" by (rule debounce_run_inv [OF assms(1)])
  have "db_req d = Some req \<and> n = db_debouncedEvents d"
    using assms(2)
  proof cases
    case (timer deadline now out)
    then show ?thesis
      by (cases rule: pushWorker_cases [of "d\<lparr>db_timeChan := None, db_clock := now\<rparr>" opts now])
        (auto simp: worker_event_def)
  next
    case (free now out)
    then show ?thesis
      by (cases rule: pushWorker_cases [of "d\<lparr>db_freeCh := db_freeCh d - 1, db_free := True, db_clock := now\<rparr>" opts now])
        (auto simp: worker_event_def)
  qed (auto split: if_splits)
  with inv show ?thesis by (auto simp: debounce_inv_def)
qed

section \<open>Properties\<close>

text \<open>The run of the witnesses: two requests, 50 apart, with a quiet time of 100.\<close>

definition example_options :: DebounceOptions where
  "example_options = \<lparr>DebounceAfter = 100, debounceMax = 10000, enableEDSDebounce = True\<rparr>"

definition example_change :: "string \<Rightarrow> nat PushRequest" where
  "example_change why = zero_PushRequest\<lparr>pr_Full := True, pr_Reason := Some (NewReasonStats [why])\<rparr>"

definition example_window :: "nat debouncer" where
  "example_window =
     receive_event example_options 50 (example_change ProxyUpdate)
       ((receive_event example_options 0 (example_change GlobalUpdate)
         (new_debouncer\<lparr>db_clock := 0\<rparr>))\<lparr>db_clock := 50\<rparr>)"

definition example_events :: "nat debounce_event list" where
  "example_events = [Received (example_change GlobalUpdate), Received (example_change ProxyUpdate)]"

lemma fm_len_NewReasonStats: "fm_len (reasons (Some (NewReasonStats [why]))) \<noteq> 0"
  by (simp add: fm_len_def ReasonStats_Add_def reasons_def)

lemma example_change_facts:
  "with_reason (example_change why) = example_change why" "\<not> is_immediate example_options r"
  using fm_len_NewReasonStats
  by (simp_all add: with_reason_def example_change_def is_immediate_def example_options_def)

lemma example_options_sel [simp]:
  "DebounceAfter example_options = 100" "debounceMax example_options = 10000"
  by (simp_all add: example_options_def)

lemma example_window_sel:
  "db_clock example_window = 50" "db_lastConfigUpdateTime example_window = 50" "db_running example_window = []"
  "db_timeChan example_window = Some 100" "db_free example_window" "db_debouncedEvents example_window = 2"
  "db_req example_window = merged [example_change GlobalUpdate, example_change ProxyUpdate]"
  "db_updateSent example_window = 0" "db_immediate example_window = 0" "db_freeCh example_window = 0"
  by (simp_all add: example_window_def receive_event_def example_change_facts new_debouncer_def
      Let_def merged_def)

lemma example_run: "debounce_run example_options example_events example_window"
proof -
  let ?d = "receive_event example_options 0 (example_change GlobalUpdate) (new_debouncer\<lparr>db_clock := 0\<rparr>)"
  have 1: "debounce_step example_options new_debouncer (Received (example_change GlobalUpdate)) ?d"
    using debounce_step.receive [of "example_change GlobalUpdate" "example_change GlobalUpdate" new_debouncer 0 example_options]
    by (simp add: example_change_facts new_debouncer_def zero_time_def)
  have "db_clock ?d \<le> 50"
    by (simp add: receive_event_def example_change_facts new_debouncer_def Let_def)
  then have 2: "debounce_step example_options ?d (Received (example_change ProxyUpdate)) example_window"
    using debounce_step.receive [of "example_change ProxyUpdate" "example_change ProxyUpdate" ?d 50 example_options]
    by (simp add: example_change_facts example_window_def)
  show ?thesis
    using debounce_run.more [OF debounce_run.more [OF debounce_run.start 1] 2]
    by (simp add: example_events_def)
qed


text \<open>
  C14: A debounced push carries exactly its window. In every run of the debouncer, from the initial
  state and whatever the order of requests, timers and finishing goroutines, the request handed to
  the push function is the merge, in order of arrival, of the requests received since the previous
  debounced push, none missing and none twice; the number of events reported with it is the
  number of those requests, and it is never a push of nothing.
\<close>

theorem push_is_the_window:
  assumes "debounce_run opts es d" "debounce_step opts d (Pushed req n) d'"
  shows "merged (window es []) = Some req \<and> n = length (window es []) \<and> n > 0"
  by (rule pushed_window [OF assms])

theorem push_is_the_window_witness:
  "\<exists>req d'. debounce_step example_options example_window (Pushed req 2) d' \<and>
     merged [example_change GlobalUpdate, example_change ProxyUpdate] = Some req"
proof -
  obtain req where req: "db_req example_window = Some req"
    using merged_None [of "[example_change GlobalUpdate, example_change ProxyUpdate]"]
    by (auto simp: example_window_sel(7) simp del: merged_None)
  let ?d = "example_window\<lparr>db_timeChan := None, db_clock := 150\<rparr>"
  have "pushWorker example_options 150 ?d = (?d\<lparr>db_free := False, db_running := [2], db_req := None,
       db_debouncedEvents := 0\<rparr>, Some (req, 2))"
    using pushWorker_quiet [of ?d req example_options 150] req by (simp add: example_window_sel)
  from debounce_step.timer [OF _ _ _ _ this, of 100] 
  have step: "debounce_step example_options example_window (Pushed req 2)
      (?d\<lparr>db_free := False, db_running := [2], db_req := None, db_debouncedEvents := 0\<rparr>)"
    by (simp add: example_window_sel worker_event_def)
  show ?thesis
    using push_is_the_window [OF example_run step] step
    by (auto simp: example_events_def)
qed

text \<open>
  C15: Debouncing loses no update and pushes one batch at a time. In every run, at every moment, each
  request received is counted in exactly one place: committed, in the one debounced push in
  progress, in an immediate push in progress, or in the window being collected. There is at most
  one debounced push in progress or waiting to be acknowledged, and none when the debouncer is free.
\<close>

theorem every_update_accounted:
  assumes "debounce_run opts es d"
  shows "received es = db_updateSent d + sum_list (db_running d) + db_immediate d + db_debouncedEvents d \<and>
         length (db_running d) + db_freeCh d = (if db_free d then 0 else 1)"
  using debounce_run_inv [OF assms] by (simp add: debounce_inv_def)

theorem every_update_accounted_witness:
  "received example_events = 2 \<and> db_debouncedEvents example_window = 2 \<and>
   received example_events = db_updateSent example_window + sum_list (db_running example_window) +
     db_immediate example_window + db_debouncedEvents example_window"
  using every_update_accounted [OF example_run] by (simp add: example_window_sel example_events_def)

text \<open>
  C16: A request held back is always about to be pushed. In every run, when a window is pending and no
  goroutine of a debounced push is still running, then at any time \<open>now\<close> at which updates have been
  quiet for \<^verbatim>\<open>DebounceAfter\<close> the debouncer has a step of its own that pushes the window; no
  interleaving leaves requests waiting for another one to arrive.
\<close>

theorem pending_window_gets_pushed:
  assumes "debounce_run opts es d" "db_req d = Some req" "db_running d = []"
    and "now \<ge> db_lastConfigUpdateTime d + DebounceAfter opts" "now \<ge> db_clock d"
  shows "\<exists>d'. debounce_step opts d (Pushed req (length (window es []))) d' \<and> db_clock d' = now \<and>
              db_req d' = None"
proof -
  have inv: "debounce_inv opts es d" by (rule debounce_run_inv [OF assms(1)])
  show ?thesis
  proof (cases "db_free d")
    case True
    then obtain t where t: "db_timeChan d = Some t" "t \<le> now"
      using inv assms(2,4) by (auto simp: debounce_inv_def)
    let ?d = "d\<lparr>db_timeChan := None, db_clock := now\<rparr>"
    let ?r = "pushWorker opts now ?d"
    have "snd ?r = Some (req, length (window es [])) \<and> db_clock (fst ?r) = now \<and> db_req (fst ?r) = None"
      using inv assms(2,4) by (subst (1 2 3) pushWorker_quiet [of _ req]) (auto simp: debounce_inv_def)
    moreover have "debounce_step opts d (worker_event (snd ?r)) (fst ?r)"
      using debounce_step.timer [OF t assms(5) True, of opts "fst ?r" "snd ?r"] by simp
    ultimately show ?thesis by (intro exI [of _ "fst ?r"]) (simp add: worker_event_def)
  next
    case False
    then have ch: "db_freeCh d > 0" using inv assms(3) by (simp add: debounce_inv_def)
    let ?d = "d\<lparr>db_freeCh := db_freeCh d - 1, db_free := True, db_clock := now\<rparr>"
    let ?r = "pushWorker opts now ?d"
    have "snd ?r = Some (req, length (window es [])) \<and> db_clock (fst ?r) = now \<and> db_req (fst ?r) = None"
      using inv assms(2,4) by (subst (1 2 3) pushWorker_quiet [of _ req]) (auto simp: debounce_inv_def)
    moreover have "debounce_step opts d (worker_event (snd ?r)) (fst ?r)"
      using debounce_step.free [OF ch assms(5), of opts "fst ?r" "snd ?r"] by simp
    ultimately show ?thesis by (intro exI [of _ "fst ?r"]) (simp add: worker_event_def)
  qed
qed

theorem pending_window_gets_pushed_witness:
  "\<exists>req d'. db_req example_window = Some req \<and>
     debounce_step example_options example_window (Pushed req 2) d' \<and> db_clock d' = 150"
proof -
  obtain req where req: "db_req example_window = Some req"
    using merged_None [of "[example_change GlobalUpdate, example_change ProxyUpdate]"]
    by (auto simp: example_window_sel(7) simp del: merged_None)
  with pending_window_gets_pushed [OF example_run req, of 150]
  show ?thesis by (auto simp: example_window_sel example_events_def numeral_2_eq_2)
qed

end
