(* ===== verification/Discovery.thy ===== *)
theory Discovery
  imports Eds PushQueue Debounce
begin

text \<open>
  The discovery server: how updates become pushes and pushes reach connections
  (\<^verbatim>\<open>dubbod/discovery/pkg/xds/discovery.go\<close> and the registration of connections in \<^verbatim>\<open>ads.go\<close>). The
  state holds the environment, the global push context, the push queue, the channel of updates, the
  registered connections and the connection objects, which are referred to by pointers \<open>'c\<close>. The
  channel is a list; a sender that finds it full waits, which is not visible in the order of its
  elements. Metrics and log output are left out.
\<close>

section \<open>State\<close>

type_synonym 'g push_context = "'g ConfigSnapshot PushContext"
type_synonym 'g push_request = "'g ConfigSnapshot PushContext PushRequest"

record ('a, 'x, 'g, 'c) DiscoveryServer =
  ds_Env :: "('x, 'g) Environment"
  ds_pushContext :: "'g push_context option"
  ds_notified :: "ConfigChange option list"
  ds_pushQueue :: "('c, 'g push_context) PushQueue"
  ds_InboundUpdates :: "64 word"
  ds_pushChannel :: "'g push_request list"
  ds_adsClients :: "(string, 'c) fmap"
  ds_pushVersion :: "64 word"
  ds_connectionNumber :: "64 word"
  ds_serverReady :: bool
  ds_cons :: "'c \<Rightarrow> ('a, 'g ConfigSnapshot) Connection"
  ds_initialized :: "'c fset"

text \<open>What is not part of the code: orders of iteration, the methods of the cache and the text of a time.\<close>

record 'x outside =
  ou_orders :: orders
  ou_keys :: "ConfigKey fset \<Rightarrow> ConfigKey list"
  ou_clients :: "string fset \<Rightarrow> string list"
  ou_ClearAll :: "'x \<Rightarrow> 'x"
  ou_Clear :: "'x \<Rightarrow> ConfigKey list \<Rightarrow> 'x"
  ou_RFC3339 :: "time \<Rightarrow> string"

definition NewDiscoveryServer ::
    "('x, 'g) Environment \<Rightarrow> 'g push_context option \<Rightarrow> ('c \<Rightarrow> ('a, 'g ConfigSnapshot) Connection) \<Rightarrow>
       ('a, 'x, 'g, 'c) DiscoveryServer" where
  "NewDiscoveryServer env push cons =
     \<lparr>ds_Env = env, ds_pushContext = push, ds_notified = [], ds_pushQueue = NewPushQueue, ds_InboundUpdates = 0,
      ds_pushChannel = [], ds_adsClients = fmempty, ds_pushVersion = 0, ds_connectionNumber = 0,
      ds_serverReady = False, ds_cons = cons, ds_initialized = {||}\<rparr>"

definition CachesSynced :: "('a, 'x, 'g, 'c) DiscoveryServer \<Rightarrow> ('a, 'x, 'g, 'c) DiscoveryServer" where
  "CachesSynced s = s\<lparr>ds_serverReady := True\<rparr>"

definition Shutdown :: "('a, 'x, 'g, 'c) DiscoveryServer \<Rightarrow> ('a, 'x, 'g, 'c) DiscoveryServer" where
  "Shutdown s = s\<lparr>ds_pushQueue := ShutDown (ds_pushQueue s)\<rparr>"

definition IsServerReady :: "('a, 'x, 'g, 'c) DiscoveryServer \<Rightarrow> bool" where
  "IsServerReady s = ds_serverReady s"

section \<open>Updates\<close>

definition set_cache :: "('x \<Rightarrow> 'x) \<Rightarrow> ('a, 'x, 'g, 'c) DiscoveryServer \<Rightarrow> ('a, 'x, 'g, 'c) DiscoveryServer" where
  "set_cache f s =
     s\<lparr>ds_Env := (ds_Env s)\<lparr>env_EndpointIndex := (env_EndpointIndex (ds_Env s))
       \<lparr>ei_cache := f (ei_cache (env_EndpointIndex (ds_Env s)))\<rparr>\<rparr>\<rparr>"

definition set_index :: "'x EndpointIndex \<Rightarrow> ('a, 'x, 'g, 'c) DiscoveryServer \<Rightarrow> ('a, 'x, 'g, 'c) DiscoveryServer" where
  "set_index e s = s\<lparr>ds_Env := (ds_Env s)\<lparr>env_EndpointIndex := e\<rparr>\<rparr>"

definition dropCacheForRequest ::
    "'x outside \<Rightarrow> 'g push_request \<Rightarrow> ('a, 'x, 'g, 'c) DiscoveryServer \<Rightarrow> ('a, 'x, 'g, 'c) DiscoveryServer" where
  "dropCacheForRequest ou req s =
     (if pr_Forced req then set_cache (ou_ClearAll ou) s
      else set_cache (\<lambda>x. ou_Clear ou x (ou_keys ou (elems (pr_ConfigsUpdated req)))) s)"

definition ConfigUpdate ::
    "'x outside \<Rightarrow> 'g push_request \<Rightarrow> ('a, 'x, 'g, 'c) DiscoveryServer \<Rightarrow> ('a, 'x, 'g, 'c) DiscoveryServer" where
  "ConfigUpdate ou req s =
     (let s = (if HasConfigsOfKind (pr_ConfigsUpdated req) KindAddress then set_cache (ou_ClearAll ou) s else s);
          s = s\<lparr>ds_InboundUpdates := ds_InboundUpdates s + 1\<rparr>
      in s\<lparr>ds_pushChannel := ds_pushChannel s @ [req]\<rparr>)"

definition endpoint_key :: "string \<Rightarrow> string \<Rightarrow> ConfigKey" where
  "endpoint_key name namespace = \<lparr>ck_Kind = KindService, ck_Name = name, ck_Namespace = namespace\<rparr>"

definition endpoint_request :: "bool \<Rightarrow> string \<Rightarrow> string \<Rightarrow> 'g push_request" where
  "endpoint_request full name namespace =
     zero_PushRequest\<lparr>pr_Full := full, pr_ConfigsUpdated := New [endpoint_key name namespace],
       pr_Reason := Some (NewReasonStats [EndpointUpdate])\<rparr>"

definition EDSUpdate ::
    "'x outside \<Rightarrow> ShardKey \<Rightarrow> string \<Rightarrow> string \<Rightarrow> DubboEndpoint list \<Rightarrow>
       ('a, 'x, 'g, 'c) DiscoveryServer \<Rightarrow> ('a, 'x, 'g, 'c) DiscoveryServer" where
  "EDSUpdate ou shard serviceName namespace dubboEndpoints s =
     (case UpdateServiceEndpoints (ou_Clear ou) (env_EndpointIndex (ds_Env s)) shard serviceName namespace dubboEndpoints of
        (pushType, e) \<Rightarrow>
          let s = set_index e s in
          if pushType \<noteq> NoPush then ConfigUpdate ou (endpoint_request (pushType = FullPush) serviceName namespace) s
          else if length dubboEndpoints = 0 then ConfigUpdate ou (endpoint_request False serviceName namespace) s
          else s)"

definition EDSCacheUpdate ::
    "'x outside \<Rightarrow> ShardKey \<Rightarrow> string \<Rightarrow> string \<Rightarrow> DubboEndpoint list \<Rightarrow>
       ('a, 'x, 'g, 'c) DiscoveryServer \<Rightarrow> ('a, 'x, 'g, 'c) DiscoveryServer" where
  "EDSCacheUpdate ou shard serviceName namespace dubboEndpoints s =
     set_index (snd (UpdateServiceEndpoints (ou_Clear ou) (env_EndpointIndex (ds_Env s)) shard serviceName namespace
       dubboEndpoints)) s"

datatype Event = EventAdd | EventUpdate | EventDelete

definition ServiceUpdate ::
    "'x outside \<Rightarrow> ShardKey \<Rightarrow> string \<Rightarrow> string \<Rightarrow> Event \<Rightarrow>
       ('a, 'x, 'g, 'c) DiscoveryServer \<Rightarrow> ('a, 'x, 'g, 'c) DiscoveryServer" where
  "ServiceUpdate ou shard hostname namespace event s =
     (if event = EventDelete
      then set_index (DeleteServiceShard (ou_Clear ou) (env_EndpointIndex (ds_Env s)) shard hostname namespace False) s
      else s)"

section \<open>Pushes\<close>

definition globalPushContext :: "('a, 'x, 'g, 'c) DiscoveryServer \<Rightarrow> 'g push_context option" where
  "globalPushContext s = ds_pushContext s"

definition NextVersion ::
    "'x outside \<Rightarrow> time \<Rightarrow> ('a, 'x, 'g, 'c) DiscoveryServer \<Rightarrow> string \<times> ('a, 'x, 'g, 'c) DiscoveryServer" where
  "NextVersion ou now s =
     (let v = ds_pushVersion s + 1 in (ou_RFC3339 ou now @ ''/'' @ Itoa (uint v), s\<lparr>ds_pushVersion := v\<rparr>))"

definition SetPushContext ::
    "'g push_context \<Rightarrow> ('a, 'x, 'g, 'c) DiscoveryServer \<Rightarrow> ('a, 'x, 'g, 'c) DiscoveryServer" where
  "SetPushContext pc s =
     s\<lparr>ds_pushContext := Some pc, ds_Env := (ds_Env s)\<lparr>env_configSnapshot := Some (pc_ConfigSnapshot pc)\<rparr>\<rparr>"

text \<open>The snapshot that \<^verbatim>\<open>ReconcileConfig\<close> returns is the one it has put into the environment.\<close>

definition initPushContext ::
    "'x outside \<Rightarrow> 'g push_request \<Rightarrow> string \<Rightarrow> ('a, 'x, 'g, 'c) DiscoveryServer \<Rightarrow>
       panic + ('g push_context \<times> ('a, 'x, 'g, 'c) DiscoveryServer)" where
  "initPushContext ou req version s =
     bind_panic (ReconcileConfig (ou_orders ou) (ds_Env s) (PushRequest_ConfigChange (Some req))) (\<lambda>env.
     case env_configSnapshot env of None \<Rightarrow> Inl NilDeref
     | Some snapshot \<Rightarrow>
         let push = \<lparr>pc_ConfigSnapshot = snapshot, pc_PushVersion = version\<rparr>;
             s = s\<lparr>ds_Env := env, ds_notified := ds_notified s @ [PushRequest_ConfigChange (Some req)]\<rparr>;
             s = dropCacheForRequest ou req s
         in Inr (push, SetPushContext push s))"

definition AllClients :: "'x outside \<Rightarrow> ('a, 'x, 'g, 'c) DiscoveryServer \<Rightarrow> 'c list" where
  "AllClients ou s =
     List.map_filter (fmlookup (ds_adsClients s)) (ou_clients ou (fmdom (ds_adsClients s)))"

definition adsClientCount :: "('a, 'x, 'g, 'c) DiscoveryServer \<Rightarrow> nat" where
  "adsClientCount s = fm_len (ds_adsClients s)"

definition connectionWatchesAnyService ::
    "('a, 'cs) Connection \<Rightarrow> string gset \<Rightarrow> bool" where
  "connectionWatchesAnyService con services =
     (case con_proxy con of None \<Rightarrow> True
      | Some proxy \<Rightarrow>
          if Len services = 0 then True
          else if \<not> IsInherentGrpc proxy then True
          else case fmlookup (px_WatchedResources proxy) EndpointType of None \<Rightarrow> True
            | Some watched \<Rightarrow>
                if Len (wr_ResourceNames watched) = 0 then True
                else fBex (elems (wr_ResourceNames watched))
                  (\<lambda>clusterName. Contains services (ParseSubsetKeyHostname clusterName)))"

definition clientsForPush ::
    "'x outside \<Rightarrow> 'g push_request option \<Rightarrow> ('a, 'x, 'g, 'c) DiscoveryServer \<Rightarrow> 'c list" where
  "clientsForPush ou req s =
     (case req of None \<Rightarrow> AllClients ou s
      | Some r \<Rightarrow>
          if pr_Full r then AllClients ou s
          else case edsUpdatedServicesForRequest req of (services, targeted) \<Rightarrow>
            if \<not> targeted then AllClients ou s
            else filter (\<lambda>client. connectionWatchesAnyService (ds_cons s client) services) (AllClients ou s))"

definition StartPush ::
    "'x outside \<Rightarrow> time \<Rightarrow> 'g push_request \<Rightarrow> ('a, 'x, 'g, 'c) DiscoveryServer \<Rightarrow>
       ('a, 'x, 'g, 'c) DiscoveryServer" where
  "StartPush ou now req s =
     (let req = req\<lparr>pr_Start := now\<rparr>
      in s\<lparr>ds_pushQueue := fold (\<lambda>p q. Enqueue q p (Some req)) (clientsForPush ou (Some req) s) (ds_pushQueue s)\<rparr>)"

text \<open>The version that is logged is read from the push context.\<close>

definition AdsPushAll ::
    "'x outside \<Rightarrow> time \<Rightarrow> 'g push_request \<Rightarrow> ('a, 'x, 'g, 'c) DiscoveryServer \<Rightarrow>
       panic + ('a, 'x, 'g, 'c) DiscoveryServer" where
  "AdsPushAll ou now req s =
     (case pr_Push req of None \<Rightarrow> Inl NilDeref
      | Some push \<Rightarrow>
          let req = (if pr_Full req \<and> pr_ConfigsUpdated req = None then req\<lparr>pr_ConfigsUpdated := Some {||}\<rparr> else req)
          in Inr (StartPush ou now req s))"

definition Push ::
    "'x outside \<Rightarrow> time \<Rightarrow> 'g push_request \<Rightarrow> ('a, 'x, 'g, 'c) DiscoveryServer \<Rightarrow>
       panic + ('a, 'x, 'g, 'c) DiscoveryServer" where
  "Push ou now req s =
     (if \<not> pr_Full req then
        let req = req\<lparr>pr_Push := globalPushContext s\<rparr>; s = dropCacheForRequest ou req s
        in map_sum id (\<lambda>s. s\<lparr>ds_notified := ds_notified s @ [PushRequest_ConfigChange (Some req)]\<rparr>)
             (AdsPushAll ou now req s)
      else case NextVersion ou now s of (versionLocal, s) \<Rightarrow>
        bind_panic (initPushContext ou req versionLocal s) (\<lambda>(push, s).
          AdsPushAll ou now (req\<lparr>pr_Push := Some push\<rparr>) s))"

definition Clients :: "'x outside \<Rightarrow> ('a, 'x, 'g, 'c) DiscoveryServer \<Rightarrow> 'c list" where
  "Clients ou s = filter (\<lambda>con. con |\<in>| ds_initialized s) (AllClients ou s)"

definition proxy_update_request :: "'g push_context option \<Rightarrow> time \<Rightarrow> 'g push_request" where
  "proxy_update_request push now =
     zero_PushRequest\<lparr>pr_Full := True, pr_Push := push, pr_Start := now,
       pr_Reason := Some (NewReasonStats [PushRequest.ProxyUpdate]), pr_Forced := True\<rparr>"

definition is_proxy_at :: "string \<Rightarrow> string \<Rightarrow> ('r, 'p) Proxy option \<Rightarrow> panic + bool" where
  "is_proxy_at clusterID ip proxy =
     (case proxy of None \<Rightarrow> Inl NilDeref
      | Some proxy \<Rightarrow>
        (case px_IPAddresses proxy of [] \<Rightarrow> Inr False
         | first # _ \<Rightarrow>
           (case px_Metadata proxy of None \<Rightarrow> Inl NilDeref
            | Some m \<Rightarrow> Inr (nm_ClusterID m = clusterID \<and> first = ip))))"

fun proxy_updates ::
    "string \<Rightarrow> string \<Rightarrow> time \<Rightarrow> 'c list \<Rightarrow> ('a, 'x, 'g, 'c) DiscoveryServer \<Rightarrow>
       panic + ('a, 'x, 'g, 'c) DiscoveryServer" where
  "proxy_updates clusterID ip now [] s = Inr s"
| "proxy_updates clusterID ip now (v # vs) s =
     bind_panic (is_proxy_at clusterID ip (con_proxy (ds_cons s v))) (\<lambda>matches.
       proxy_updates clusterID ip now vs
         (if matches
          then s\<lparr>ds_pushQueue := Enqueue (ds_pushQueue s) v (Some (proxy_update_request (globalPushContext s) now))\<rparr>
          else s))"

definition ProxyUpdate ::
    "'x outside \<Rightarrow> string \<Rightarrow> string \<Rightarrow> time \<Rightarrow> ('a, 'x, 'g, 'c) DiscoveryServer \<Rightarrow>
       panic + ('a, 'x, 'g, 'c) DiscoveryServer" where
  "ProxyUpdate ou clusterID ip now s = proxy_updates clusterID ip now (Clients ou s) s"

section \<open>Registration of connections\<close>

record 'm Node =
  nd_Id :: string
  nd_Metadata :: "'m option"

text \<open>
  How the metadata of a node is unmarshalled is a parameter. The texts of errors leave out the quoted
  arguments.
\<close>

definition ParseMetadata :: "('m \<Rightarrow> err + NodeMetadata) \<Rightarrow> 'm option \<Rightarrow> err + NodeMetadata" where
  "ParseMetadata unmarshal metadata =
     (case metadata of None \<Rightarrow> Inr \<lparr>nm_Generator = [], nm_ClusterID = [], nm_Namespace = []\<rparr>
      | Some m \<Rightarrow> unmarshal m)"

definition ParseIP :: "string \<Rightarrow> bool" where
  "ParseIP s \<longleftrightarrow> CHR ''%'' \<notin> set s \<and> IsValidIPAddress s"

definition ParseServiceNodeWithMetadata :: "string \<Rightarrow> NodeMetadata \<Rightarrow> err + ('r, 'p) Proxy" where
  "ParseServiceNodeWithMetadata nodeID metadata =
     (case Split nodeID (CHR ''~'') of
        [nodeType, ip, nodeName, domain] \<Rightarrow>
          if \<not> IsApplicationNodeType nodeType then Inl (Errorf ''invalid node type'')
          else if length nodeName = 0 then Inl (Errorf ''node ID is empty in service node'')
          else Inr \<lparr>px_LastPushContext = None, px_LastPushTime = zero_time, px_Type = nodeType,
            px_WatchedResources = fmempty, px_ID = nodeName, px_DNSDomain = domain, px_Metadata = Some metadata,
            px_IPAddresses = (if length ip > 0 \<and> ParseIP ip then [ip] else []), px_ConfigNamespace = [],
            px_ServiceTargets = []\<rparr>
      | _ \<Rightarrow> Inl (Errorf ''missing parts in the service node''))"

text \<open>The metadata is shared with the proxy, so that the default generator is set there, too.\<close>

definition initProxyMetadata ::
    "('m \<Rightarrow> err + NodeMetadata) \<Rightarrow> 'm Node option \<Rightarrow> panic + (err + ('r, 'p) Proxy)" where
  "initProxyMetadata unmarshal node =
     (case node of None \<Rightarrow> Inr (Inl (Status InvalidArgument ''xDS node is required''))
      | Some node \<Rightarrow>
        (case ParseMetadata unmarshal (nd_Metadata node) of
           Inl e \<Rightarrow> Inr (Inl (Status InvalidArgument (err_text e)))
         | Inr meta \<Rightarrow>
           (case ParseServiceNodeWithMetadata (nd_Id node) meta of
              Inl e \<Rightarrow> Inr (Inl (Status InvalidArgument (err_text e)))
            | Inr proxy \<Rightarrow>
                let meta = (if nm_Generator meta = [] then meta\<lparr>nm_Generator := ''grpc''\<rparr> else meta);
                    proxy = proxy\<lparr>px_Metadata := Some meta\<rparr>
                in if nm_Generator meta \<noteq> ''grpc'' then Inr (Inl (Status InvalidArgument ''unsupported xDS generator''))
                   else map_sum id (\<lambda>ns. Inr (proxy\<lparr>px_ConfigNamespace := ns\<rparr>)) (GetProxyConfigNamespace (Some proxy)))))"

definition addCon :: "string \<Rightarrow> 'c \<Rightarrow> ('a, 'x, 'g, 'c) DiscoveryServer \<Rightarrow> ('a, 'x, 'g, 'c) DiscoveryServer" where
  "addCon conID con s = s\<lparr>ds_adsClients := fmupd conID con (ds_adsClients s)\<rparr>"

definition removeCon :: "string \<Rightarrow> ('a, 'x, 'g, 'c) DiscoveryServer \<Rightarrow> ('a, 'x, 'g, 'c) DiscoveryServer" where
  "removeCon conID s = s\<lparr>ds_adsClients := fmdrop conID (ds_adsClients s)\<rparr>"

definition closeConnection :: "'c \<Rightarrow> ('a, 'x, 'g, 'c) DiscoveryServer \<Rightarrow> ('a, 'x, 'g, 'c) DiscoveryServer" where
  "closeConnection con s = (if con_ID (ds_cons s con) = [] then s else removeCon (con_ID (ds_cons s con)) s)"

definition connectionID :: "string \<Rightarrow> ('a, 'x, 'g, 'c) DiscoveryServer \<Rightarrow> string \<times> ('a, 'x, 'g, 'c) DiscoveryServer" where
  "connectionID node s =
     (let n = ds_connectionNumber s + 1 in (node @ ''-'' @ Itoa (sint n), s\<lparr>ds_connectionNumber := n\<rparr>))"

definition set_con ::
    "'c \<Rightarrow> ('a, 'g ConfigSnapshot) Connection \<Rightarrow> ('a, 'x, 'g, 'c) DiscoveryServer \<Rightarrow> ('a, 'x, 'g, 'c) DiscoveryServer" where
  "set_con c con s = s\<lparr>ds_cons := (ds_cons s)(c := con)\<rparr>"

text \<open>
  \<^verbatim>\<open>initConnection\<close> in two parts, which other goroutines can run between: up to the authorization, and
  from the registration on. The addresses that \<^verbatim>\<open>DiscoverIPMode\<close> classifies are not used later.
\<close>

definition init_begin ::
    "('a, 'g ConfigSnapshot) server \<Rightarrow> ('m \<Rightarrow> err + NodeMetadata) \<Rightarrow> 'm Node option \<Rightarrow> 'c \<Rightarrow> string list \<Rightarrow>
       ('a, 'x, 'g, 'c) DiscoveryServer \<Rightarrow> panic + (err option \<times> ('a, 'x, 'g, 'c) DiscoveryServer)" where
  "init_begin srv unmarshal node c identities s =
     bind_panic (initProxyMetadata unmarshal node) (\<lambda>proxy.
     case proxy of Inl e \<Rightarrow> Inr (Some e, s)
     | Inr proxy \<Rightarrow>
         let proxy = proxy\<lparr>px_LastPushContext := globalPushContext s\<rparr>;
             (conID, s) = connectionID (px_ID proxy) s;
             s = set_con c ((ds_cons s c)\<lparr>con_ID := conID, con_proxy := Some proxy, con_ids := identities\<rparr>) s
         in case srv_Authorize srv of
              None \<Rightarrow> Inr (Some (Status PermissionDenied ''xDS workload authorization is not configured''), s)
            | Some authorize \<Rightarrow>
                (case authorize proxy identities of
                   Some e \<Rightarrow> Inr (Some (Status PermissionDenied (err_text e)), s)
                 | None \<Rightarrow> Inr (None, s)))"

definition initializeProxy ::
    "('a, 'cs) server \<Rightarrow> ('a, 'cs) Connection \<Rightarrow> panic + ('a, 'cs) Connection" where
  "initializeProxy srv con =
     (case con_proxy con of None \<Rightarrow> Inl NilDeref
      | Some proxy \<Rightarrow>
          map_sum id (\<lambda>proxy. con\<lparr>con_proxy := Some (proxy\<lparr>px_WatchedResources := fmempty\<rparr>)\<rparr>)
            (computeProxyState (srv_GetProxyServiceTargets srv) proxy None))"

definition init_end ::
    "('a, 'g ConfigSnapshot) server \<Rightarrow> 'c \<Rightarrow> ('a, 'x, 'g, 'c) DiscoveryServer \<Rightarrow>
       panic + ('a, 'x, 'g, 'c) DiscoveryServer" where
  "init_end srv c s =
     (let s = addCon (con_ID (ds_cons s c)) c s
      in map_sum id (\<lambda>con. (set_con c con s)\<lparr>ds_initialized := finsert c (ds_initialized s)\<rparr>)
           (initializeProxy srv (ds_cons s c)))"

definition initConnection ::
    "('a, 'g ConfigSnapshot) server \<Rightarrow> ('m \<Rightarrow> err + NodeMetadata) \<Rightarrow> 'm Node option \<Rightarrow> 'c \<Rightarrow> string list \<Rightarrow>
       ('a, 'x, 'g, 'c) DiscoveryServer \<Rightarrow> panic + (err option \<times> ('a, 'x, 'g, 'c) DiscoveryServer)" where
  "initConnection srv unmarshal node c identities s =
     bind_panic (init_begin srv unmarshal node c identities s) (\<lambda>(e, s).
       if e \<noteq> None then Inr (e, s) else map_sum id (\<lambda>s. (None, s)) (init_end srv c s))"

section \<open>What an enqueued request carries\<close>

lemma Merge_Some_fields:
  assumes "PushRequest_Merge (Some p) (Some q) = Some r"
  shows "elems (pr_ConfigsUpdated r) = elems (pr_ConfigsUpdated p) |\<union>| elems (pr_ConfigsUpdated q)"
    and "pr_Full r \<longleftrightarrow> pr_Full p \<or> pr_Full q"
  using assms unfolding PushRequest_Merge_def option.case updated_set_eq by auto

lemma merged_carries:
  assumes "merged rs = Some m" "r \<in> set rs"
  shows "elems (pr_ConfigsUpdated r) |\<subseteq>| elems (pr_ConfigsUpdated m) \<and> (pr_Full r \<longrightarrow> pr_Full m)"
  using assms
proof (induction rs arbitrary: m rule: rev_induct)
  case (snoc x rs)
  show ?case
  proof (cases "merged rs")
    case None
    then show ?thesis using snoc.prems by (auto simp: merged_single PushRequest_Merge_def)
  next
    case (Some p)
    then have "PushRequest_Merge (Some p) (Some x) = Some m" using snoc.prems(1) by (simp add: merged_snoc)
    from Merge_Some_fields [OF this] snoc.prems(2) snoc.IH [OF Some] show ?thesis by auto
  qed
qed simp

definition carries :: "'g push_request \<Rightarrow> 'g push_request option \<Rightarrow> bool" where
  "carries req out \<longleftrightarrow> (\<exists>r. out = Some r \<and> pr_Push r = pr_Push req \<and>
     elems (pr_ConfigsUpdated req) |\<subseteq>| elems (pr_ConfigsUpdated r) \<and> (pr_Full req \<longrightarrow> pr_Full r))"

lemma carries_Copy: "carries req (PushRequest_Copy x) \<longleftrightarrow> carries req x"
  by (cases x) (simp_all add: carries_def PushRequest_Copy_Some)

lemma carries_CopyMerge: "pr_Push req \<noteq> None \<Longrightarrow> carries req (PushRequest_CopyMerge x (Some req))"
  by (cases x) (auto simp: carries_def CopyMerge_Some PushRequest_Copy_Some)

lemma Enqueue_carries:
  assumes "queue_wf q" "\<not> pq_shuttingDown q" "pr_Push req \<noteq> None" "con = d \<or> carries req (outstanding q d)"
  shows "carries req (outstanding (Enqueue q con (Some req)) d)"
  using assms carries_Copy [of req "outstanding (Enqueue q con (Some req)) d"]
  by (auto simp: outstanding_Enqueue [OF assms(1)] carries_CopyMerge carries_Copy split: if_splits)

lemma enqueue_all_wf:
  "queue_wf q \<Longrightarrow> queue_wf (fold (\<lambda>p q. Enqueue q p (Some req)) cs q)"
  by (induction cs arbitrary: q) (simp_all add: wf_Enqueue)

lemma Enqueue_shuttingDown [simp]: "pq_shuttingDown (Enqueue q con r) = pq_shuttingDown q"
  by (simp add: Enqueue_def split: option.splits)

lemma enqueue_all_shuttingDown [simp]:
  "pq_shuttingDown (fold (\<lambda>p q. Enqueue q p (Some req)) cs q) = pq_shuttingDown q"
  by (induction cs arbitrary: q) simp_all

lemma enqueue_all_carries:
  assumes "queue_wf q" "\<not> pq_shuttingDown q" "pr_Push req \<noteq> None" "con \<in> set cs \<or> carries req (outstanding q con)"
  shows "carries req (outstanding (fold (\<lambda>p q. Enqueue q p (Some req)) cs q) con)"
  using assms
proof (induction cs arbitrary: q)
  case (Cons c cs)
  then show ?case using wf_Enqueue [of q c "Some req"] Enqueue_carries [of q req c con] by auto
qed simp

lemma targeted_pair:
  "snd (if a then (None, False) else if b then (None, False) else (Some S, c)) \<longrightarrow>
     fst (if a then (None, False) else if b then (None, False) else (Some S, c)) = Some S"
  by simp

lemma carries_service:
  assumes "endpoint_key name ns |\<in>| elems (pr_ConfigsUpdated r)" "ParseSubsetKeyHostname cluster = name"
  shows "edsNeedsPush r" "asked_for r cluster"
proof -
  have key: "\<not> Contains skippedEdsConfigs (ck_Kind (endpoint_key name ns))" "ck_Kind (endpoint_key name ns) = KindService"
      "ck_Name (endpoint_key name ns) = name"
    by (simp_all add: endpoint_key_def skippedEdsConfigs_def Contains_def New_def)
  show "edsNeedsPush r"
    using assms(1) key(1) by (auto simp: edsNeedsPush_def xdsNeedsPush_def)
  show "asked_for r cluster"
  proof -
    let ?configs = "ffilter (\<lambda>cfg. \<not> Contains skippedEdsConfigs (ck_Kind cfg)) (elems (pr_ConfigsUpdated r))"
    have "endpoint_key name ns |\<in>| ?configs" using assms(1) key(1) by simp
    then have "name |\<in>| ck_Name |`| ?configs" using key(3) by (metis fimageI)
    moreover have "snd (edsUpdatedServicesForRequest (Some r)) \<longrightarrow>
        fst (edsUpdatedServicesForRequest (Some r)) = Some (ck_Name |`| ?configs)"
      unfolding edsUpdatedServicesForRequest_def Let_def option.case by (rule targeted_pair)
    ultimately show ?thesis
      using assms(2) unfolding asked_for_def by (auto simp: Contains_def split: prod.splits)
  qed
qed

section \<open>A push reaches the connections\<close>

lemma set_AllClients:
  assumes "\<And>K. is_range (ou_clients ou K) K"
  shows "set (AllClients ou s) = fmran' (ds_adsClients s)"
  using is_range_set [OF assms, of "fmdom (ds_adsClients s)"]
  by (force simp: AllClients_def List.map_filter_def fmran'_def fmlookup_dom_iff ran_def)

lemma dropCacheForRequest_keeps [simp]:
  "ds_adsClients (dropCacheForRequest ou req s) = ds_adsClients s" "ds_cons (dropCacheForRequest ou req s) = ds_cons s"
  "ds_pushQueue (dropCacheForRequest ou req s) = ds_pushQueue s"
  "ds_pushContext (dropCacheForRequest ou req s) = ds_pushContext s"
  "ds_pushChannel (dropCacheForRequest ou req s) = ds_pushChannel s"
  "ds_initialized (dropCacheForRequest ou req s) = ds_initialized s"
  by (simp_all add: dropCacheForRequest_def set_cache_def)

lemma clientsForPush_cong:
  "ds_adsClients s' = ds_adsClients s \<Longrightarrow> ds_cons s' = ds_cons s \<Longrightarrow> clientsForPush ou req s' = clientsForPush ou req s"
  by (simp add: clientsForPush_def AllClients_def split: option.split prod.split)

text \<open>A push, full or not: the request that is put into the queue carries the new global push context.\<close>

lemma Push_obtain:
  assumes "Push ou now req s = Inr s'"
  obtains r where "pr_Push r = ds_pushContext s'" "pr_Push r \<noteq> None" "pr_Full r = pr_Full req"
    "elems (pr_ConfigsUpdated r) = elems (pr_ConfigsUpdated req)" "pr_Forced r = pr_Forced req"
    "ds_pushQueue s' = fold (\<lambda>p q. Enqueue q p (Some r)) (clientsForPush ou (Some r) s) (ds_pushQueue s)"
    "ds_adsClients s' = ds_adsClients s" "ds_cons s' = ds_cons s" "ds_initialized s' = ds_initialized s"
    "\<not> pr_Full req \<Longrightarrow> ds_pushContext s' = ds_pushContext s"
proof (cases "pr_Full req")
  case False
  let ?s = "dropCacheForRequest ou (req\<lparr>pr_Push := ds_pushContext s\<rparr>) s"
  let ?r = "req\<lparr>pr_Push := ds_pushContext s, pr_Start := now\<rparr>"
  obtain n where "ds_pushContext s \<noteq> None" and
      s': "s' = (StartPush ou now (req\<lparr>pr_Push := ds_pushContext s\<rparr>) ?s)\<lparr>ds_notified := n\<rparr>"
    using assms False by (auto simp: Push_def AdsPushAll_def globalPushContext_def Let_def split: option.splits)
  then show thesis
    using False by (intro that [of ?r]) (simp_all add: StartPush_def Let_def clientsForPush_cong [of ?s s])
next
  case True
  obtain versionLocal s1 where v: "NextVersion ou now s = (versionLocal, s1)" by fastforce
  obtain push s2 where init: "initPushContext ou req versionLocal s1 = Inr (push, s2)"
      and all: "AdsPushAll ou now (req\<lparr>pr_Push := Some push\<rparr>) s2 = Inr s'"
    using assms True v by (auto simp: Push_def bind_panic_Inr)
  have s2: "ds_pushContext s2 = Some push" "ds_adsClients s2 = ds_adsClients s" "ds_cons s2 = ds_cons s"
      "ds_pushQueue s2 = ds_pushQueue s" "ds_initialized s2 = ds_initialized s"
    using init v by (auto simp: initPushContext_def bind_panic_Inr SetPushContext_def NextVersion_def Let_def split: option.splits)
  let ?req = "req\<lparr>pr_Push := Some push\<rparr>"
  let ?r = "(if pr_ConfigsUpdated req = None then ?req\<lparr>pr_ConfigsUpdated := Some {||}\<rparr> else ?req)\<lparr>pr_Start := now\<rparr>"
  have "s' = s2\<lparr>ds_pushQueue := fold (\<lambda>p q. Enqueue q p (Some ?r)) (clientsForPush ou (Some ?r) s2) (ds_pushQueue s2)\<rparr>"
    using all True by (cases "pr_ConfigsUpdated req") (simp_all add: AdsPushAll_def StartPush_def Let_def)
  then show thesis
    using s2 True by (intro that [of ?r]) (simp_all add: clientsForPush_cong [of s2 s])
qed

definition watches_cluster :: "('a, 'cs) Connection \<Rightarrow> string \<Rightarrow> bool" where
  "watches_cluster con cluster \<longleftrightarrow>
     (\<exists>proxy w. con_proxy con = Some proxy \<and> GetWatchedResource (px_WatchedResources proxy) EndpointType = Some w \<and>
        cluster |\<in>| elems (wr_ResourceNames w))"

lemma connectionWatchesAnyService_cluster:
  assumes "watches_cluster con cluster" "Contains services (ParseSubsetKeyHostname cluster)"
  shows "connectionWatchesAnyService con services"
  using assms
  by (auto simp: watches_cluster_def connectionWatchesAnyService_def GetWatchedResource_def)

lemma clientsForPush_watcher:
  assumes "\<And>K. is_range (ou_clients ou K) K" "con \<in> fmran' (ds_adsClients s)"
    and "watches_cluster (ds_cons s con) cluster" "asked_for r cluster"
  shows "con \<in> set (clientsForPush ou (Some r) s)"
proof -
  obtain services targeted where eds: "edsUpdatedServicesForRequest (Some r) = (services, targeted)" by fastforce
  have "con \<in> set (AllClients ou s)" using assms(1,2) by (simp add: set_AllClients)
  moreover have "targeted \<Longrightarrow> connectionWatchesAnyService (ds_cons s con) services"
    using assms(3,4) eds by (intro connectionWatchesAnyService_cluster) (auto simp: asked_for_def)
  ultimately show ?thesis using eds by (simp add: clientsForPush_def)
qed

lemma endpoint_request_carries: "endpoint_key name ns |\<in>| elems (pr_ConfigsUpdated (endpoint_request full name ns))"
  by (simp add: endpoint_request_def New_def)

lemma with_reason_configs [simp]: "pr_ConfigsUpdated (with_reason r) = pr_ConfigsUpdated r"
  by (simp add: with_reason_def)

lemma EDSUpdate_channel:
  "ds_pushChannel (EDSUpdate ou shard name ns eps s) = ds_pushChannel s @
     (case fst (UpdateServiceEndpoints (ou_Clear ou) (env_EndpointIndex (ds_Env s)) shard name ns eps) of
        NoPush \<Rightarrow> if eps = [] then [endpoint_request False name ns] else []
      | IncrementalPush \<Rightarrow> [endpoint_request False name ns]
      | FullPush \<Rightarrow> [endpoint_request True name ns])"
  by (cases "UpdateServiceEndpoints (ou_Clear ou) (env_EndpointIndex (ds_Env s)) shard name ns eps";
      cases "fst (UpdateServiceEndpoints (ou_Clear ou) (env_EndpointIndex (ds_Env s)) shard name ns eps)")
    (simp_all add: EDSUpdate_def ConfigUpdate_def set_index_def set_cache_def Let_def)

section \<open>Properties\<close>

text \<open>
  C35: an update of endpoints that asks for a push reaches every client that watches the service. The update
  puts a request into the channel. Whenever the debouncer has received it and hands out the push
  of its window, then after that push every registered connection that watches a cluster of the
  service has a request outstanding in the queue, whatever it was merged with before, for which
  the endpoint generator runs and generates that cluster, with the push context that is then the global
  one.
\<close>

theorem endpoint_update_reaches_watchers:
  assumes "ds_pushChannel (EDSUpdate ou shard name ns eps s) = ds_pushChannel s @ [req]"
    and "debounce_run opts es d" "debounce_step opts d (Pushed m k) d'" "with_reason req \<in> set (window es [])"
    and "Push ou now m s1 = Inr s2" "queue_wf (ds_pushQueue s1)" "\<not> pq_shuttingDown (ds_pushQueue s1)"
    and "\<And>K. is_range (ou_clients ou K) K"
    and "con \<in> fmran' (ds_adsClients s1)" "watches_cluster (ds_cons s1 con) cluster"
    and "ParseSubsetKeyHostname cluster = name"
  shows "\<exists>r. outstanding (ds_pushQueue s2) con = Some r \<and> edsNeedsPush r \<and> asked_for r cluster \<and>
    pr_Push r = ds_pushContext s2 \<and> (pr_Full req \<longrightarrow> pr_Full r)"
proof -
  have "merged (window es []) = Some m" using pushed_window [OF assms(2,3)] by blast
  note m = merged_carries [OF this assms(4)]
  have req: "endpoint_key name ns |\<in>| elems (pr_ConfigsUpdated req)"
    using assms(1) endpoint_request_carries [of name ns]
    by (auto simp: EDSUpdate_channel split: PushType.splits if_splits)
  obtain r where r: "pr_Push r = ds_pushContext s2" "pr_Push r \<noteq> None" "pr_Full r = pr_Full m"
      "elems (pr_ConfigsUpdated r) = elems (pr_ConfigsUpdated m)"
      "ds_pushQueue s2 = fold (\<lambda>p q. Enqueue q p (Some r)) (clientsForPush ou (Some r) s1) (ds_pushQueue s1)"
    using Push_obtain [OF assms(5)] by metis
  have key: "endpoint_key name ns |\<in>| elems (pr_ConfigsUpdated r)" using r(4) m req by auto
  have "con \<in> set (clientsForPush ou (Some r) s1)"
    by (rule clientsForPush_watcher [OF assms(8-10) carries_service(2) [OF key assms(11)]])
  then have "carries r (outstanding (ds_pushQueue s2) con)"
    unfolding r(5) by (intro enqueue_all_carries) (use assms(6,7) r(2) in simp_all)
  then obtain out where out: "outstanding (ds_pushQueue s2) con = Some out" "pr_Push out = pr_Push r"
      "elems (pr_ConfigsUpdated r) |\<subseteq>| elems (pr_ConfigsUpdated out)" "pr_Full r \<longrightarrow> pr_Full out"
    by (auto simp: carries_def)
  have "endpoint_key name ns |\<in>| elems (pr_ConfigsUpdated out)" using key out(3) by auto
  from carries_service [OF this assms(11)] show ?thesis
    using out r(1,3) m by (auto simp: with_reason_def split: if_splits)
qed

definition example_outside :: "unit outside" where
  "example_outside = \<lparr>ou_orders = example_orders, ou_keys = (\<lambda>_. []), ou_clients = sorted_list_of_fset,
     ou_ClearAll = id, ou_Clear = (\<lambda>x _. x), ou_RFC3339 = (\<lambda>_. ''now'')\<rparr>"

definition example_context :: "nat push_context" where
  "example_context = \<lparr>pc_ConfigSnapshot = NewConfigSnapshot, pc_PushVersion = []\<rparr>"

definition example_ds :: "(unit, unit, nat, nat) DiscoveryServer" where
  "example_ds = (NewDiscoveryServer (Snapshot.example_env [] [] (Some NewConfigSnapshot)) (Some example_context) (\<lambda>_. example_eds_con))
     \<lparr>ds_adsClients := fmupd ''c'' 0 fmempty\<rparr>"

definition example_withdrawn :: "nat push_request" where
  "example_withdrawn = endpoint_request False ''web'' ''ns''"

lemma example_withdrawn_facts:
  "with_reason example_withdrawn = example_withdrawn" "\<not> pr_Full example_withdrawn"
  "pr_Reason example_withdrawn \<noteq> None"
  using fm_len_NewReasonStats
  by (simp_all add: example_withdrawn_def endpoint_request_def with_reason_def zero_PushRequest_def)

lemma example_debounced:
  "\<exists>es d d'. debounce_run example_options es d \<and> debounce_step example_options d (Pushed example_withdrawn 1) d' \<and>
     example_withdrawn \<in> set (window es [])"
proof -
  let ?d = "receive_event example_options 0 example_withdrawn (new_debouncer\<lparr>db_clock := 0\<rparr>)"
  have now: "\<not> is_immediate example_options example_withdrawn" by (rule example_change_facts(2))
  have "db_clock new_debouncer \<le> 0" by (simp add: new_debouncer_def zero_time_def)
  from debounce_step.receive [OF example_withdrawn_facts(1) [symmetric] this, of example_options]
  have "debounce_step example_options new_debouncer (Received example_withdrawn) ?d" using now by simp
  from debounce_run.more [OF debounce_run.start this]
  have run: "debounce_run example_options [Received example_withdrawn] ?d" by simp
  have d: "db_req ?d = Some example_withdrawn" "db_timeChan ?d = Some 100" "db_clock ?d = 0" "db_free ?d"
      "db_debouncedEvents ?d = 1" "db_lastConfigUpdateTime ?d = 0"
    using now by (simp_all add: receive_event_def new_debouncer_def Let_def PushRequest_Merge_def)
  let ?e = "?d\<lparr>db_timeChan := None, db_clock := 100\<rparr>"
  obtain d' where "pushWorker example_options 100 ?e = (d', Some (example_withdrawn, 1))"
    using d by (simp add: pushWorker_def Let_def)
  from debounce_step.timer [OF d(2) _ _ d(4) this]
  have "debounce_step example_options ?d (Pushed example_withdrawn 1) d'" using d by (simp add: worker_event_def)
  then show ?thesis using run by (intro exI [of _ "[Received example_withdrawn]"]) auto
qed

theorem endpoint_update_reaches_watchers_witness:
  "\<exists>s r. Push example_outside 5 example_withdrawn example_ds = Inr s \<and>
     outstanding (ds_pushQueue s) 0 = Some r \<and> asked_for r (BuildSubsetKey ''outbound'' [] ''web'' 80) \<and>
     pr_Push r = Some example_context"
proof -
  obtain es d d' where run: "debounce_run example_options es d"
      "debounce_step example_options d (Pushed example_withdrawn 1) d'" "example_withdrawn \<in> set (window es [])"
    using example_debounced by blast
  have channel: "ds_pushChannel (EDSUpdate example_outside example_shard ''web'' ''ns'' [] example_ds) =
      ds_pushChannel example_ds @ [example_withdrawn]"
    by (simp add: EDSUpdate_channel UpdateServiceEndpoints_def example_withdrawn_def)
  obtain s where push: "Push example_outside 5 example_withdrawn example_ds = Inr s"
    and ctx: "ds_pushContext s = Some example_context"
    using example_withdrawn_facts(2)
    by (simp add: Push_def AdsPushAll_def StartPush_def globalPushContext_def example_ds_def NewDiscoveryServer_def
        dropCacheForRequest_def set_cache_def Let_def)
  have "is_range (ou_clients example_outside K) K" for K by (simp add: example_outside_def sorted_list_range)
  moreover have "0 \<in> fmran' (ds_adsClients example_ds)" by (auto simp: example_ds_def intro: fmran'I [of _ "''c''"])
  moreover have "watches_cluster (ds_cons example_ds 0) (BuildSubsetKey ''outbound'' [] ''web'' 80)"
    by (simp add: watches_cluster_def example_ds_def NewDiscoveryServer_def example_eds_con_def example_eds_proxy_def
        GetWatchedResource_def example_eds_watch_def example_cluster_def)
  moreover have "ParseSubsetKeyHostname (BuildSubsetKey ''outbound'' [] ''web'' 80) = ''web''"
    by (simp add: outbound_key maxInt64_def)
  moreover have "queue_wf (ds_pushQueue example_ds)" "\<not> pq_shuttingDown (ds_pushQueue example_ds)"
    by (simp_all add: example_ds_def NewDiscoveryServer_def) (simp add: NewPushQueue_def)
  ultimately show ?thesis
    using endpoint_update_reaches_watchers [OF channel run(1,2) _ push] run(3) push ctx
    by (simp add: example_withdrawn_facts(1)) blast
qed

end
