(* ===== verification/Sending.thy ===== *)
theory Sending
  imports PushQueue
begin

text \<open>
  The goroutine that takes connections from the push queue and hands their requests over
  (\<^verbatim>\<open>doSendPushes\<close> in \<^verbatim>\<open>dubbod/discovery/pkg/xds/discovery.go\<close>). A semaphore, a buffered channel of
  capacity \<open>cap\<close>, limits how many connections are served at the same time. A step relation
  interleaves the loop with the goroutines it starts, one per event, and with other users of the
  queue.
\<close>

section \<open>The loop and its goroutines\<close>

text \<open>Where the loop is: at the \<^verbatim>\<open>select\<close>, in \<^verbatim>\<open>Dequeue\<close> with a token taken, or at the end.\<close>

datatype sender_loop = AtSelect | InDequeue | Ended

record ('c, 'p) sender =
  sn_semaphore :: nat
  sn_loop :: sender_loop
  sn_queue :: "('c, 'p) PushQueue"
  sn_events :: "('c \<times> 'p PushRequest option) list"

definition new_sender :: "('c, 'p) sender" where
  "new_sender = \<lparr>sn_semaphore = 0, sn_loop = AtSelect, sn_queue = NewPushQueue, sn_events = []\<rparr>"

text \<open>\<^verbatim>\<open>doneFunc\<close> of an event.\<close>

definition doneFunc :: "'c \<Rightarrow> ('c, 'p) sender \<Rightarrow> ('c, 'p) sender" where
  "doneFunc client sn = sn\<lparr>sn_queue := MarkDone (sn_queue sn) client, sn_semaphore := sn_semaphore sn - 1\<rparr>"

text \<open>
  An event is either received by the connection, which calls \<^verbatim>\<open>doneFunc\<close> when it has handled it, or
  the stream is closed and the goroutine calls it; in both cases it is called once.
\<close>

inductive send_step :: "nat \<Rightarrow> ('c, 'p) sender \<Rightarrow> ('c, 'p) sender \<Rightarrow> bool" for cap where
  stop: "sn_loop sn = AtSelect \<Longrightarrow> send_step cap sn (sn\<lparr>sn_loop := Ended\<rparr>)"
| acquire: "sn_loop sn = AtSelect \<Longrightarrow> sn_semaphore sn < cap \<Longrightarrow>
    send_step cap sn (sn\<lparr>sn_loop := InDequeue, sn_semaphore := sn_semaphore sn + 1\<rparr>)"
| wait: "sn_loop sn = InDequeue \<Longrightarrow> queue_step (sn_queue sn) EvWait q \<Longrightarrow> send_step cap sn (sn\<lparr>sn_queue := q\<rparr>)"
| shutting_down: "sn_loop sn = InDequeue \<Longrightarrow> queue_step (sn_queue sn) EvDequeueShutdown q \<Longrightarrow>
    send_step cap sn (sn\<lparr>sn_queue := q, sn_loop := Ended\<rparr>)"
| hand_over: "sn_loop sn = InDequeue \<Longrightarrow> queue_step (sn_queue sn) (EvDequeue client push) q \<Longrightarrow>
    send_step cap sn (sn\<lparr>sn_queue := q, sn_loop := AtSelect, sn_events := sn_events sn @ [(client, push)]\<rparr>)"
| finish: "(client, push) \<in> set (sn_events sn) \<Longrightarrow>
    send_step cap sn (doneFunc client (sn\<lparr>sn_events := remove1 (client, push) (sn_events sn)\<rparr>))"
| enqueue: "send_step cap sn (sn\<lparr>sn_queue := Enqueue (sn_queue sn) con r\<rparr>)"
| shut_down: "send_step cap sn (sn\<lparr>sn_queue := ShutDown (sn_queue sn)\<rparr>)"

abbreviation send_run :: "nat \<Rightarrow> ('c, 'p) sender \<Rightarrow> bool" where
  "send_run cap sn \<equiv> (send_step cap)\<^sup>*\<^sup>* new_sender sn"

section \<open>Invariant\<close>

text \<open>Connections being served are those with an event, each has one, and each event holds a token.\<close>

definition send_inv :: "nat \<Rightarrow> ('c, 'p) sender \<Rightarrow> bool" where
  "send_inv cap sn \<longleftrightarrow> queue_wf (sn_queue sn) \<and> distinct (map fst (sn_events sn)) \<and>
     fset (fmdom (pq_processing (sn_queue sn))) = fst ` set (sn_events sn) \<and> sn_semaphore sn \<le> cap \<and>
     (if sn_loop sn = Ended then length (sn_events sn) \<le> sn_semaphore sn
      else sn_semaphore sn = length (sn_events sn) + (if sn_loop sn = InDequeue then 1 else 0))"

lemma Dequeue_step:
  assumes "queue_step p (EvDequeue con r) p'" "queue_wf p"
  shows "con |\<notin>| fmdom (pq_processing p)" "fset (fmdom (pq_processing p')) = insert con (fset (fmdom (pq_processing p)))"
proof -
  obtain p0 where p0: "entering p p0" "Dequeue p0 = DequeueItem con r p'" using assms(1) by (cases rule: queue_step.cases) auto
  show "con |\<notin>| fmdom (pq_processing p)"
    using assms(2) p0 by (cases rule: Dequeue_cases [of p0]) (auto simp: wf_iff entering_simps)
  show "fset (fmdom (pq_processing p')) = insert con (fset (fmdom (pq_processing p)))"
    using p0 by (cases rule: Dequeue_cases [of p0]) (auto simp: entering_simps)
qed

lemma other_steps_processing:
  assumes "queue_step p e p'" "e = EvWait \<or> e = EvDequeueShutdown"
  shows "pq_processing p' = pq_processing p"
  using assms
proof (induction rule: queue_step.induct)
  case (sleep p p0 p')
  then show ?case by (cases rule: Dequeue_cases [of p0]) (auto simp: entering_simps)
next
  case (stopped p p0 p')
  then show ?case by (cases rule: Dequeue_cases [of p0]) (auto simp: entering_simps)
qed simp_all

lemma Enqueue_processing: "fmdom (pq_processing (Enqueue p con r)) = fmdom (pq_processing p)"
  by (auto simp: Enqueue_def fmdomI split: option.splits)

lemma MarkDone_processing: "fmdom (pq_processing (MarkDone p con)) = fmdom (pq_processing p) |-| {|con|}"
  by (auto simp: MarkDone_def Let_def split: option.splits)

lemma ShutDown_processing: "pq_processing (ShutDown p) = pq_processing p"
  by (simp add: ShutDown_def)

lemma remove1_event:
  assumes "distinct (map fst es)" "(c, r) \<in> set es"
  shows "distinct (map fst (remove1 (c, r) es)) \<and> fst ` set (remove1 (c, r) es) = fst ` set es - {c}"
  using assms
proof (induction es)
  case (Cons e es)
  show ?case
  proof (cases "e = (c, r)")
    case False
    then have "(c, r) \<in> set es" using Cons.prems(2) by simp
    then have "c \<in> fst ` set es" by (metis fst_conv image_eqI)
    then have "fst e \<noteq> c" using Cons.prems(1) by auto
    then show ?thesis using Cons False \<open>(c, r) \<in> set es\<close> by auto
  qed (use Cons.prems in auto)
qed simp

lemma send_step_inv:
  assumes "send_step cap sn sn'" "send_inv cap sn"
  shows "send_inv cap sn'"
  using assms
proof (induction rule: send_step.induct)
  case (hand_over sn client push q)
  have wf: "queue_wf (sn_queue sn)" using hand_over.prems by (simp add: send_inv_def)
  note q = Dequeue_step [OF hand_over.hyps(2) wf] wf_step [OF hand_over.hyps(2) wf]
  have "client \<notin> fst ` set (sn_events sn)" using q(1) hand_over.prems by (metis send_inv_def)
  then show ?case using q hand_over by (auto simp: send_inv_def)
next
  case (finish client push sn)
  have d: "distinct (map fst (sn_events sn))" using finish.prems by (simp add: send_inv_def)
  have "sn_events sn \<noteq> []" using finish.hyps by auto
  then show ?case
    using finish remove1_event [OF d finish.hyps] wf_MarkDone [of "sn_queue sn" client]
    by (auto simp: send_inv_def doneFunc_def MarkDone_processing length_remove1)
next
  case (wait sn q)
  then show ?case using other_steps_processing [OF wait.hyps(2)] wf_step [OF wait.hyps(2)] by (auto simp: send_inv_def)
next
  case (shutting_down sn q)
  then show ?case
    using other_steps_processing [OF shutting_down.hyps(2)] wf_step [OF shutting_down.hyps(2)] by (auto simp: send_inv_def)
qed (auto simp: send_inv_def Enqueue_processing wf_Enqueue wf_ShutDown ShutDown_processing)

lemma send_run_inv: "send_run cap sn \<Longrightarrow> send_inv cap sn"
proof (induction rule: rtranclp_induct)
  case base
  show ?case by (simp add: send_inv_def new_sender_def) (simp add: NewPushQueue_def)
qed (rule send_step_inv)

section \<open>Properties\<close>

text \<open>
  C38: the semaphore bounds the number of connections that are served at the same time by its capacity, in
  every interleaving. They are the connections with an event under way, each has exactly one, and
  no token is lost: as long as the loop runs, the tokens taken are those of the events and, while
  the loop is in \<^verbatim>\<open>Dequeue\<close>, one more. So the loop only waits for a token while the full number of
  connections is being served.
\<close>

theorem served_within_limit:
  assumes "send_run cap sn"
  shows "fcard (fmdom (pq_processing (sn_queue sn))) = length (sn_events sn) \<and> length (sn_events sn) \<le> cap \<and>
    distinct (map fst (sn_events sn)) \<and>
    (sn_loop sn \<noteq> Ended \<longrightarrow> sn_semaphore sn = length (sn_events sn) + (if sn_loop sn = InDequeue then 1 else 0)) \<and>
    (sn_loop sn = AtSelect \<and> \<not> (\<exists>sn'. send_step cap sn sn' \<and> sn_loop sn' = InDequeue) \<longrightarrow> length (sn_events sn) = cap)"
proof -
  have inv: "send_inv cap sn" by (rule send_run_inv [OF assms])
  then have "card (fset (fmdom (pq_processing (sn_queue sn)))) = card (set (map fst (sn_events sn)))"
    by (simp add: send_inv_def)
  also have "\<dots> = length (sn_events sn)" using inv by (subst distinct_card) (auto simp: send_inv_def)
  finally have "fcard (fmdom (pq_processing (sn_queue sn))) = length (sn_events sn)" by (simp add: fcard.rep_eq)
  moreover have "cap \<le> sn_semaphore sn"
    if "sn_loop sn = AtSelect \<and> \<not> (\<exists>sn'. send_step cap sn sn' \<and> sn_loop sn' = InDequeue)"
    using that send_step.acquire [of sn cap] by fastforce
  ultimately show ?thesis using inv by (auto simp: send_inv_def split: if_splits)
qed

definition example_sender :: "(nat, nat) sender" where
  "example_sender = \<lparr>sn_semaphore = 1, sn_loop = AtSelect, sn_queue = example_served, sn_events = [(1, Some req_a)]\<rparr>"

lemma example_sender_run: "send_run 1 example_sender"
proof -
  let ?a = "new_sender\<lparr>sn_queue := Enqueue (sn_queue new_sender) 1 (Some req_a)\<rparr> :: (nat, nat) sender"
  let ?b = "?a\<lparr>sn_loop := InDequeue, sn_semaphore := sn_semaphore ?a + 1\<rparr>"
  have "send_step 1 new_sender ?a" by (rule send_step.enqueue)
  moreover have "send_step 1 ?a ?b" by (rule send_step.acquire) (simp_all add: new_sender_def)
  moreover have "queue_step (sn_queue ?b) (EvDequeue 1 (Some req_a)) example_served"
    using step_Dequeue [OF Dequeue_first] by (simp add: new_sender_def)
  then have "send_step 1 ?b (?b\<lparr>sn_queue := example_served, sn_loop := AtSelect, sn_events := sn_events ?b @ [(1, Some req_a)]\<rparr>)"
    by (intro send_step.hand_over) simp_all
  then have "send_step 1 ?b example_sender" by (simp add: example_sender_def new_sender_def)
  ultimately show ?thesis by (meson rtranclp.rtrancl_refl rtranclp.rtrancl_into_rtrancl)
qed

theorem served_within_limit_witness:
  "fcard (fmdom (pq_processing (sn_queue example_sender))) = 1 \<and> \<not> (\<exists>sn'. send_step 1 example_sender sn' \<and> sn_loop sn' = InDequeue)"
proof -
  have "fcard (fmdom (pq_processing (sn_queue example_sender))) = length (sn_events example_sender)"
    using served_within_limit [OF example_sender_run] by blast
  moreover have "\<not> (send_step 1 example_sender sn' \<and> sn_loop sn' = InDequeue)" for sn'
    by (auto elim!: send_step.cases simp: example_sender_def doneFunc_def)
  ultimately show ?thesis by (simp add: example_sender_def)
qed

end
