(* ===== verification/Sessions.thy ===== *)
theory Sessions
  imports PushXds
begin

text \<open>
  Sessions of a client: the sequences of requests and push events that a connection of the discovery
  server handles, of either protocol. The handlers of \<^verbatim>\<open>ads.go\<close>, \<^verbatim>\<open>delta.go\<close> and \<^verbatim>\<open>xdsgen.go\<close> are composed
  here; the properties hold for every session.
\<close>

section \<open>The handlers keep the connection\<close>

lemma proxy_watcher_sel [simp]:
  "w_GetWatchedResource proxy_watcher = GetWatchedResource" "w_DeleteWatchedResource proxy_watcher = DeleteWatchedResource"
  "w_NewWatchedResource proxy_watcher = NewWatchedResource" "w_UpdateWatchedResource proxy_watcher = UpdateWatchedResource"
  by (simp_all add: proxy_watcher_def)

lemma ShouldRespond_keyed:
  assumes "ShouldRespond proxy_watcher ws req = Inr (respond, delta, ws')" "keyed ws"
  shows "keyed ws'"
proof -
  have upd: "keyed ws2" if "keyed ws1" "answer r d (UpdateWatchedResource ws1 (req_TypeUrl req) f) = Inr (respond, delta, ws2)"
      "keeps_type (req_TypeUrl req) f" for r d f ws1 ws2
    using that keyed_UpdateWatchedResource [OF that(1,3)]
    by (auto simp: answer_def map_sum_def split: sum.splits)
  have ack: "keyed ws'" if resp: "respond_to_ack proxy_watcher ws req p = Inr (respond, delta, ws')" for p
  proof -
    obtain ws1 where ws1: "UpdateWatchedResource ws (req_TypeUrl req) (accept_ack (req_ResponseNonce req) (req_ResourceNames req)) = Inr ws1"
      using resp
      by (cases "UpdateWatchedResource ws (req_TypeUrl req) (accept_ack (req_ResponseNonce req) (req_ResourceNames req))")
        (simp_all add: respond_to_ack_def Let_def)
    have "keyed ws1" by (rule keyed_UpdateWatchedResource [OF assms(2) _ ws1]) simp
    moreover have "ws' = ws1 \<or> answer False emptyResourceDelta
        (UpdateWatchedResource ws1 (req_TypeUrl req) (restore_names (wr_ResourceNames p))) = Inr (respond, delta, ws')"
      using resp ws1 by (auto simp: respond_to_ack_def Let_def split: if_splits)
    ultimately show ?thesis using upd [of ws1] by auto
  qed
  show ?thesis
  proof (cases "req_ErrorDetail req")
    case None
    then show ?thesis
      using assms(1) upd [OF assms(2)] ack keyed_NewWatchedResource [OF assms(2)] keyed_DeleteWatchedResource [OF assms(2)] assms(2)
      by (cases "GetWatchedResource ws (req_TypeUrl req)")
        (auto simp: ShouldRespond_def Let_def split: if_splits)
  next
    case (Some e)
    then show ?thesis using assms(1) upd [OF assms(2)]
      by (cases e) (auto simp: ShouldRespond_def Let_def)
  qed
qed

lemma computeProxyState_keeps:
  assumes "computeProxyState getTargets proxy req = Inr proxy'"
  shows "proxy_ident proxy' = proxy_ident proxy \<and> px_WatchedResources proxy' = px_WatchedResources proxy"
  using assms by (auto simp: computeProxyState_def SetServiceTargets_def proxy_ident_def Let_def
      split: sum.splits option.splits if_splits)

lemma shouldRespondDelta_keyed:
  assumes "shouldRespondDelta ws req = Inr (respond, ws')" "keyed ws"
  shows "keyed ws'"
proof (cases "dreq_ErrorDetail req")
  case (Some e)
  then have "UpdateWatchedResource ws (dreq_TypeUrl req) (record_error (snd e)) = Inr ws'"
    using assms(1) by (auto simp: shouldRespondDelta_def map_sum_def split: prod.splits sum.splits)
  then show ?thesis by (rule keyed_UpdateWatchedResource [OF assms(2) keeps_type_updates(1)])
next
  case None
  then show ?thesis
  proof (cases "GetWatchedResource ws (dreq_TypeUrl req)")
    case no: None
    then show ?thesis using assms None
      by (auto simp: shouldRespondDelta_def Let_def zero_WatchedResource_def intro!: keyed_fmupd split: prod.splits)
  next
    case (Some w)
    then have "ws' = ws \<or> UpdateWatchedResource ws (dreq_TypeUrl req) (apply_delta req (dreq_ResponseNonce req = [])) = Inr ws'"
      using assms(1) None
      by (auto simp: shouldRespondDelta_def map_sum_def Let_def split: prod.splits sum.splits if_splits)
    then show ?thesis using assms(2) keyed_UpdateWatchedResource [OF assms(2) keeps_type_updates(9)] by blast
  qed
qed

lemma push_watches_delta_progress:
  "push_watches_delta s io req urls con = Inr (e, con') \<Longrightarrow> progress s io con con'"
proof (induction urls arbitrary: con)
  case (Cons url urls)
  then obtain proxy where proxy: "con_proxy con = Some proxy" by (cases "con_proxy con") simp_all
  let ?r = "pushDeltaXds s io con (GetWatchedResource (px_WatchedResources proxy) url) req"
  obtain e1 con1 where r: "?r = Inr (e1, con1)" using Cons.prems proxy by (cases ?r) auto
  note p1 = pushDeltaXds_progress [OF r]
  show ?case
  proof (cases e1)
    case None
    with Cons.prems proxy r have "push_watches_delta s io req urls con1 = Inr (e, con')" by simp
    then show ?thesis using progress_trans [OF p1 Cons.IH] by blast
  next
    case (Some a)
    then show ?thesis using Cons.prems proxy r p1 by simp
  qed
qed simp

lemma push_watches_progress:
  "push_watches pb s io req urls con = Some (Inr (e, con')) \<Longrightarrow> progress s io con con'"
proof (induction urls arbitrary: con)
  case (Cons url urls)
  then obtain proxy where proxy: "con_proxy con = Some proxy" by (cases "con_proxy con") simp_all
  let ?r = "pushXds pb s io con (GetWatchedResource (px_WatchedResources proxy) url) req"
  obtain e1 con1 where r: "?r = Some (Inr (e1, con1))"
    using Cons.prems proxy by (auto split: option.splits sum.splits prod.splits)
  note p1 = pushXds_progress [OF r]
  show ?case
  proof (cases e1)
    case None
    with Cons.prems proxy r have "push_watches pb s io req urls con1 = Some (Inr (e, con'))" by simp
    then show ?thesis using progress_trans [OF p1 Cons.IH] by blast
  next
    case (Some a)
    then show ?thesis using Cons.prems proxy r p1 by simp
  qed
qed simp

lemma pushed_request_progress:
  assumes "con_proxy con = Some proxy" "keyed (px_WatchedResources proxy) \<Longrightarrow> keyed ws"
    and "progress s io (con\<lparr>con_proxy := Some (proxy\<lparr>px_WatchedResources := ws\<rparr>)\<rparr>) con'"
  shows "progress s io con con'"
  by (rule progress_trans [OF progress_proxy [OF assms(1)] assms(3)]) (simp_all add: assms(2))

lemma processRequest_progress:
  assumes "processRequest pb s io req con = Some (Inr (e, con'))"
  shows "progress s io con con'"
proof -
  obtain e1 con1 where auth: "authorizeConnection s io con = (e1, con1)" by fastforce
  note p1 = authorize_progress [OF auth]
  show ?thesis
  proof (cases "e1 \<noteq> None \<or> Option.is_none (findGenerator s (req_TypeUrl req) (Some con1))")
    case True
    then have "con' = con1" using assms auth
      by (cases e1) (simp_all add: processRequest_def)
    with p1 show ?thesis by simp
  next
    case False
    then obtain proxy respond delta ws where
      proxy: "con_proxy con1 = Some proxy" and
      respond: "ShouldRespond proxy_watcher (px_WatchedResources proxy) req = Inr (respond, delta, ws)"
      using assms auth by (auto simp: processRequest_def split: option.splits sum.splits)
    have keyed: "keyed (px_WatchedResources proxy) \<Longrightarrow> keyed ws" by (rule ShouldRespond_keyed [OF respond])
    define ws1 where "ws1 = (case GetWatchedResource ws (req_TypeUrl req) of
        None \<Rightarrow> NewWatchedResource ws (req_TypeUrl req) (req_ResourceNames req) | Some _ \<Rightarrow> ws)"
    have keyed1: "keyed (px_WatchedResources proxy) \<Longrightarrow> keyed ws1"
      using keyed by (auto simp: ws1_def split: option.splits)
    have "progress s io con1 con'"
    proof (cases respond)
      case True
      let ?con = "con1\<lparr>con_proxy := Some (proxy\<lparr>px_WatchedResources := ws1\<rparr>)\<rparr>"
      have "pushXds pb s io ?con (GetWatchedResource ws1 (req_TypeUrl req))
          (sotw_push_request (proxy\<lparr>px_WatchedResources := ws1\<rparr>) delta) = Some (Inr (e, con'))"
        using assms auth False proxy respond True by (simp add: processRequest_def Let_def ws1_def)
      from pushed_request_progress [OF proxy _ pushXds_progress [OF this]] keyed1 show ?thesis by blast
    next
      case no: False
      then have "con' = con1\<lparr>con_proxy := Some (proxy\<lparr>px_WatchedResources := ws\<rparr>)\<rparr>"
        using assms auth False proxy respond by (simp add: processRequest_def Let_def)
      with pushed_request_progress [OF proxy _ progress_refl] keyed show ?thesis by blast
    qed
    then show ?thesis by (rule progress_trans [OF p1])
  qed
qed

lemma forceEDSPush_progress: "forceEDSPush s io con = Inr (e, con') \<Longrightarrow> progress s io con con'"
  by (auto simp: forceEDSPush_def intro: pushDeltaXds_progress split: option.splits)

lemma processDeltaRequest_progress:
  assumes "processDeltaRequest s io req con = Inr (e, con')"
  shows "progress s io con con'"
proof -
  obtain e1 con1 where auth: "authorizeConnection s io con = (e1, con1)" by fastforce
  note p1 = authorize_progress [OF auth]
  show ?thesis
  proof (cases "e1 \<noteq> None \<or> Option.is_none (findGenerator s (dreq_TypeUrl req) (Some con1))")
    case True
    then have "con' = con1" using assms auth
      by (cases e1) (simp_all add: processDeltaRequest_def)
    with p1 show ?thesis by simp
  next
    case False
    then obtain proxy respond ws where
      proxy: "con_proxy con1 = Some proxy" and
      respond: "shouldRespondDelta (px_WatchedResources proxy) req = Inr (respond, ws)"
      using assms auth by (auto simp: processDeltaRequest_def split: option.splits sum.splits)
    have keyed: "keyed (px_WatchedResources proxy) \<Longrightarrow> keyed ws" by (rule shouldRespondDelta_keyed [OF respond])
    let ?con = "con1\<lparr>con_proxy := Some (proxy\<lparr>px_WatchedResources := ws\<rparr>)\<rparr>"
    let ?push = "pushDeltaXds s io ?con (GetWatchedResource ws (dreq_TypeUrl req))
      (delta_push_request (proxy\<lparr>px_WatchedResources := ws\<rparr>) req)"
    have step: "(if \<not> respond then Inr (None, ?con)
        else case ?push of
          Inr (None, con) \<Rightarrow> if dreq_TypeUrl req \<noteq> ClusterType then Inr (None, con) else forceEDSPush s io con
        | r \<Rightarrow> r) = Inr (e, con')"
      using assms auth False proxy respond by (simp add: processDeltaRequest_def Let_def)
    have "progress s io ?con con'"
    proof (cases "con' = ?con")
      case no: False
      then obtain e2 con2 where push: "?push = Inr (e2, con2)"
        using step by (cases ?push) (auto split: if_splits)
      note p2 = pushDeltaXds_progress [OF push]
      have "con' = con2 \<or> forceEDSPush s io con2 = Inr (e, con')"
        using step no push by (cases e2) (auto split: if_splits)
      then show ?thesis using p2 progress_trans [OF p2 forceEDSPush_progress] by blast
    qed simp
    from pushed_request_progress [OF proxy _ this] keyed have "progress s io con1 con'" by blast
    then show ?thesis by (rule progress_trans [OF p1])
  qed
qed

text \<open>The common part of the two handlers of push events.\<close>

lemma state_computed_advance:
  assumes "con_proxy con = Some proxy"
    and "(if full then computeProxyState getTargets proxy req else Inr proxy) = Inr proxy'"
  shows "advance s io con (con\<lparr>con_proxy := Some proxy'\<rparr>)"
proof -
  have "proxy_ident proxy' = proxy_ident proxy \<and> px_WatchedResources proxy' = px_WatchedResources proxy"
    using assms(2) computeProxyState_keeps by (cases full) auto
  then show ?thesis by (intro advance_proxy [OF assms(1)]) simp_all
qed

lemma pushConnection_cases:
  assumes "pushConnection pb s io ks con pushRequest = Some (Inr (e, con'))"
  obtains (skip) "con' = con" "con_proxy con = None \<or> pushRequest = None"
  | (push) proxy proxy' req req' urls where "con_proxy con = Some proxy" "pushRequest = Some req"
      "(if pr_Full req then computeProxyState (srv_GetProxyServiceTargets s) proxy (Some req) else Inr proxy) = Inr proxy'"
      "con' = con\<lparr>con_proxy := Some proxy'\<rparr> \<or>
       push_watches pb s io req' urls (con\<lparr>con_proxy := Some proxy'\<rparr>) = Some (Inr (e, con'))"
proof (cases "con_proxy con = None \<or> pushRequest = None")
  case True
  then show ?thesis using True assms skip by (cases "con_proxy con") (auto simp: pushConnection_def)
next
  case False
  then obtain proxy req where some: "con_proxy con = Some proxy" "pushRequest = Some req" by auto
  then obtain proxy' where st:
    "(if pr_Full req then computeProxyState (srv_GetProxyServiceTargets s) proxy (Some req) else Inr proxy) = Inr proxy'"
    using assms by (auto simp: pushConnection_def split: sum.splits)
  obtain req' needsPush where np: "(case srv_ProxyNeedsPush s of None \<Rightarrow> (req, True) | Some f \<Rightarrow> f proxy' req) = (req', needsPush)"
    by fastforce
  show ?thesis
    by (rule push [OF some st, of req' "map wr_TypeUrl (watchedResourcesByOrder ks (px_WatchedResources proxy'))"])
      (use assms some st np in \<open>cases needsPush; simp add: pushConnection_def Let_def\<close>)
qed

lemma pushConnection_advance:
  assumes "pushConnection pb s io ks con pushRequest = Some (Inr (e, con'))"
  shows "advance s io con con'"
  using assms
proof (cases rule: pushConnection_cases)
  case (push proxy proxy' req req' urls)
  have p: "advance s io con (con\<lparr>con_proxy := Some proxy'\<rparr>)" by (rule state_computed_advance [OF push(1,3)])
  show ?thesis using push(4) p advance_trans [OF p progress_advance [OF push_watches_progress]] by blast
qed simp

lemma pushConnectionDelta_cases:
  assumes "pushConnectionDelta s io ks con pushRequest = Inr (e, con')"
  obtains (skip) "con' = con" "con_proxy con = None \<or> pushRequest = None"
  | (push) proxy proxy' req req' urls where "con_proxy con = Some proxy" "pushRequest = Some req"
      "(if pr_Full req then computeProxyState (srv_GetProxyServiceTargets s) proxy (Some req) else Inr proxy) = Inr proxy'"
      "con' = con\<lparr>con_proxy := Some proxy'\<rparr> \<or>
       push_watches_delta s io req' urls (con\<lparr>con_proxy := Some proxy'\<rparr>) = Inr (e, con')"
proof (cases "con_proxy con = None \<or> pushRequest = None")
  case True
  then show ?thesis using True assms skip by (cases "con_proxy con") (auto simp: pushConnectionDelta_def)
next
  case False
  then obtain proxy req where some: "con_proxy con = Some proxy" "pushRequest = Some req" by auto
  then obtain proxy' where st:
    "(if pr_Full req then computeProxyState (srv_GetProxyServiceTargets s) proxy (Some req) else Inr proxy) = Inr proxy'"
    using assms by (auto simp: pushConnectionDelta_def split: sum.splits)
  obtain req' needsPush where np: "(case srv_ProxyNeedsPush s of None \<Rightarrow> (req, True) | Some f \<Rightarrow> f proxy' req) = (req', needsPush)"
    by fastforce
  show ?thesis
    by (rule push [OF some st, of req' "map wr_TypeUrl (watchedResourcesByOrder ks (px_WatchedResources proxy'))"])
      (use assms some st np in \<open>cases needsPush; simp add: pushConnectionDelta_def Let_def\<close>)
qed

lemma pushConnectionDelta_advance:
  assumes "pushConnectionDelta s io ks con pushRequest = Inr (e, con')"
  shows "advance s io con con'"
  using assms
proof (cases rule: pushConnectionDelta_cases)
  case (push proxy proxy' req req' urls)
  have p: "advance s io con (con\<lparr>con_proxy := Some proxy'\<rparr>)" by (rule state_computed_advance [OF push(1,3)])
  show ?thesis using push(4) p advance_trans [OF p progress_advance [OF push_watches_delta_progress]] by blast
qed simp

text \<open>A full push event sets the push context of the proxy, and nothing else changes it.\<close>

lemma computeProxyState_context:
  "computeProxyState getTargets proxy (Some req) = Inr proxy' \<Longrightarrow> px_LastPushContext proxy' = pr_Push req"
  by (auto simp: computeProxyState_def Let_def split: sum.splits)

lemma pushed_context:
  assumes "con_proxy con = Some proxy"
    and "(if pr_Full req then computeProxyState getTargets proxy (Some req) else Inr proxy) = Inr proxy'"
    and "con' = con\<lparr>con_proxy := Some proxy'\<rparr> \<or> progress s io (con\<lparr>con_proxy := Some proxy'\<rparr>) con'"
  shows "con_context con' = (if pr_Full req then Some (pr_Push req) else con_context con)"
  using assms computeProxyState_context [of getTargets proxy req proxy']
  by (auto simp: progress_def con_context_def split: if_splits)

lemma pushConnection_context:
  assumes "pushConnection pb s io ks con (Some req) = Some (Inr (e, con'))" "con_proxy con \<noteq> None"
  shows "con_context con' = (if pr_Full req then Some (pr_Push req) else con_context con)"
  using assms(1)
proof (cases rule: pushConnection_cases)
  case (push proxy proxy' req1 req' urls)
  have "con' = con\<lparr>con_proxy := Some proxy'\<rparr> \<or> progress s io (con\<lparr>con_proxy := Some proxy'\<rparr>) con'"
    using push(4) push_watches_progress by blast
  then show ?thesis using pushed_context [OF push(1,3)] push(2) by simp
qed (use assms(2) in simp)

lemma pushConnectionDelta_context:
  assumes "pushConnectionDelta s io ks con (Some req) = Inr (e, con')" "con_proxy con \<noteq> None"
  shows "con_context con' = (if pr_Full req then Some (pr_Push req) else con_context con)"
  using assms(1)
proof (cases rule: pushConnectionDelta_cases)
  case (push proxy proxy' req1 req' urls)
  have "con' = con\<lparr>con_proxy := Some proxy'\<rparr> \<or> progress s io (con\<lparr>con_proxy := Some proxy'\<rparr>) con'"
    using push(4) push_watches_delta_progress by blast
  then show ?thesis using pushed_context [OF push(1,3)] push(2) by simp
qed (use assms(2) in simp)

lemmas handler_advance = processRequest_progress [THEN progress_advance] pushConnection_advance
  processDeltaRequest_progress [THEN progress_advance] pushConnectionDelta_advance

section \<open>Sessions\<close>

text \<open>
  A session handles requests and push events one after the other; a handler that returns an error
  ends its stream, which is a session that does not go on. \<open>initializeProxy\<close> gives a connection its
  empty watches.
\<close>

inductive session :: "'a proto \<Rightarrow> ('a, 'cs) server \<Rightarrow> io \<Rightarrow> ('a, 'cs) Connection \<Rightarrow> ('a, 'cs) Connection \<Rightarrow> bool"
  for pb s io con0
where
  start: "session pb s io con0 con0"
| request: "session pb s io con0 con \<Longrightarrow> processRequest pb s io req con = Some (Inr (e, con')) \<Longrightarrow> session pb s io con0 con'"
| push: "session pb s io con0 con \<Longrightarrow> pushConnection pb s io ks con ev = Some (Inr (e, con')) \<Longrightarrow> session pb s io con0 con'"
| delta_request: "session pb s io con0 con \<Longrightarrow> processDeltaRequest s io dreq con = Inr (e, con') \<Longrightarrow> session pb s io con0 con'"
| delta_push: "session pb s io con0 con \<Longrightarrow> pushConnectionDelta s io ks con ev = Inr (e, con') \<Longrightarrow> session pb s io con0 con'"

lemma session_advance: "session pb s io con0 con \<Longrightarrow> advance s io con0 con"
proof (induction rule: session.induct)
  case start
  show ?case by simp
qed (erule advance_trans, erule handler_advance)+

section \<open>Pushes return\<close>

lemma and_then_returns: "r \<noteq> None \<Longrightarrow> (\<And>e con. r = Some (Inr (e, con)) \<Longrightarrow> k con \<noteq> None) \<Longrightarrow> and_then r k \<noteq> None"
  by (auto simp: and_then_def split: option.splits sum.splits)

lemma pushXds_fuel_other:
  assumes "\<And>v. w = Some v \<Longrightarrow> wr_TypeUrl v \<noteq> ListenerType"
  shows "pushXds_fuel (Suc n) pb s io con w req \<noteq> None"
proof (cases "push_one pb s io con w req")
  case (Sent con1 res)
  have "(case w of None \<Rightarrow> [] | Some w \<Rightarrow> wr_TypeUrl w) \<noteq> ListenerType"
    using assms by (cases w) (simp_all add: type_urls)
  then show ?thesis using Sent
    by (simp add: Let_def after_listeners_def and_then_def)
qed simp

lemma push_watch_returns:
  assumes "con_keyed con" "url \<noteq> ListenerType"
  shows "push_watch (pushXds_fuel (Suc n) pb s io) url why req con \<noteq> None"
proof (cases "con_proxy con")
  case (Some proxy)
  then have "\<And>v. GetWatchedResource (px_WatchedResources proxy) url = Some v \<Longrightarrow> wr_TypeUrl v \<noteq> ListenerType"
    using assms by (auto simp: con_keyed_def keyed_def GetWatchedResource_def)
  then show ?thesis unfolding push_watch_def Some option.case by (rule pushXds_fuel_other)
qed (simp add: push_watch_def)

lemma other_types: "ClusterType \<noteq> ListenerType" "RouteType \<noteq> ListenerType" "ClusterType \<noteq> EndpointType"
  by (simp_all add: type_urls)

lemma advance_keyed: "advance s io con con' \<Longrightarrow> con_keyed con \<Longrightarrow> con_keyed con'"
  by (simp add: advance_def)

lemmas progress_keyed = advance_keyed [OF progress_advance]

lemma push_clusters_returns:
  assumes "con_keyed con"
  shows "push_clusters (pushXds_fuel (Suc n) pb s io) req names con \<noteq> None"
proof (cases "con_proxy con")
  case (Some proxy)
  have "con_keyed (new_watch con proxy ClusterType names)"
    by (rule progress_keyed [OF progress_new_watch [OF Some] assms])
  from push_watch_returns [OF this other_types(1)] Some show ?thesis by (simp add: push_clusters_def)
qed (simp add: push_clusters_def)

lemma push_routes_returns:
  assumes "con_keyed con"
  shows "push_routes (pushXds_fuel (Suc n) pb s io) req names con \<noteq> None"
proof (cases "names = {||} \<or> con_proxy con = None")
  case False
  then obtain proxy where proxy: "con_proxy con = Some proxy" by auto
  have new: "push_watch (pushXds_fuel (Suc n) pb s io) RouteType why req (new_watch con proxy RouteType names) \<noteq> None" for why
    by (rule push_watch_returns [OF progress_keyed [OF progress_new_watch [OF proxy] assms] other_types(2)])
  have more: "push_watch (pushXds_fuel (Suc n) pb s io) RouteType why req con1 \<noteq> None"
    if "update_watch con RouteType (add_names RouteType names) = Inr con1" for why con1
    using push_watch_returns [OF progress_keyed [OF progress_update_watch [OF that] assms] other_types(2)] by simp
  show ?thesis
  proof (cases "GetWatchedResource (px_WatchedResources proxy) RouteType")
    case None
    then show ?thesis using False proxy new by (simp add: push_routes_def)
  next
    case (Some w)
    then show ?thesis using False proxy new more
      by (cases "Len (wr_ResourceNames w) = 0"; cases "names |\<subseteq>| elems (wr_ResourceNames w)";
          cases "update_watch con RouteType (add_names RouteType names)") (simp_all add: push_routes_def)
  qed
qed (auto simp: push_routes_def)

lemma pushXds_fuel_returns:
  assumes "con_keyed con"
  shows "pushXds_fuel (Suc (Suc n)) pb s io con w req \<noteq> None"
proof (cases "push_one pb s io con w req")
  case (Sent con1 res)
  let ?push = "pushXds_fuel (Suc n) pb s io"
  have k1: "con_keyed con1"
    using push_one_progress [of pb s io con w req con1] Sent progress_keyed assms by (fastforce simp: pushed_con_def)
  have "push_referenced pb ?push req res con1 \<noteq> None"
    unfolding push_referenced_def
  proof (rule and_then_returns [OF push_clusters_returns [OF k1]])
    fix e con2 assume "push_clusters ?push req (extractClusterNamesFromLDS res) con1 = Some (Inr (e, con2))"
    then have "con_keyed con2"
      using progress_keyed [OF push_clusters_progress [OF pushXds_fuel_progress] k1] by blast
    then show "and_then (push_routes ?push req (extractRouteNamesFromLDS pb res) con2) (\<lambda>con. Some (Inr (None, con))) \<noteq> None"
      by (rule and_then_returns [OF push_routes_returns]) simp
  qed
  then have "after_listeners pb ?push req url res con1 \<noteq> None" for url by (simp add: after_listeners_def)
  then show ?thesis
    unfolding pushXds_fuel.simps Sent pushed.case Let_def by (rule and_then_returns) simp
qed simp

lemma pushXds_returns: "con_keyed con \<Longrightarrow> pushXds pb s io con w req \<noteq> None"
  using pushXds_fuel_returns [of con 0 pb s io w req] by (simp only: pushXds_def numeral_2_eq_2 not_False_eq_True)

lemma push_watches_returns: "con_keyed con \<Longrightarrow> push_watches pb s io req urls con \<noteq> None"
proof (induction urls arbitrary: con)
  case (Cons url urls)
  show ?case
  proof (cases "con_proxy con")
    case (Some proxy)
    let ?r = "pushXds pb s io con (GetWatchedResource (px_WatchedResources proxy) url) req"
    obtain r where r: "?r = Some r" using pushXds_returns [OF Cons.prems] by blast
    have "con_keyed con1" if "r = Inr (None, con1)" for con1
      using progress_keyed [OF pushXds_progress Cons.prems] r that by blast
    then show ?thesis using Some r Cons.IH
      by (auto split: sum.splits option.splits)
  qed simp
qed simp

lemma processRequest_returns:
  assumes "con_keyed con"
  shows "processRequest pb s io req con \<noteq> None"
proof -
  obtain e1 con1 where auth: "authorizeConnection s io con = (e1, con1)" by fastforce
  have k1: "con_keyed con1" by (rule progress_keyed [OF authorize_progress [OF auth] assms])
  show ?thesis
  proof (cases "e1 \<noteq> None \<or> Option.is_none (findGenerator s (req_TypeUrl req) (Some con1)) \<or> con_proxy con1 = None")
    case True
    then show ?thesis using auth by (cases e1) (auto simp: processRequest_def)
  next
    case False
    then obtain proxy where proxy: "con_proxy con1 = Some proxy" by auto
    then have k: "keyed (px_WatchedResources proxy)" using k1 by (simp add: con_keyed_def)
    show ?thesis
    proof (cases "ShouldRespond proxy_watcher (px_WatchedResources proxy) req")
      case (Inr r)
      obtain respond delta ws where r: "r = (respond, delta, ws)" by (metis prod_cases3)
      define ws1 where "ws1 = (case GetWatchedResource ws (req_TypeUrl req) of
          None \<Rightarrow> NewWatchedResource ws (req_TypeUrl req) (req_ResourceNames req) | Some _ \<Rightarrow> ws)"
      have "keyed ws1" using ShouldRespond_keyed [OF _ k] Inr r by (auto simp: ws1_def split: option.splits)
      then have "con_keyed (con1\<lparr>con_proxy := Some (proxy\<lparr>px_WatchedResources := ws1\<rparr>)\<rparr>)" by (simp add: con_keyed_def)
      note pushXds_returns [OF this, of pb s io "GetWatchedResource ws1 (req_TypeUrl req)"
          "sotw_push_request (proxy\<lparr>px_WatchedResources := ws1\<rparr>) delta"]
      then show ?thesis using False auth proxy Inr r
        by (simp add: processRequest_def Let_def ws1_def)
    qed (use False auth proxy in \<open>simp add: processRequest_def\<close>)
  qed
qed

lemma pushConnection_returns:
  assumes "con_keyed con"
  shows "pushConnection pb s io ks con pushRequest \<noteq> None"
proof (cases "con_proxy con = None \<or> pushRequest = None")
  case True
  then show ?thesis by (cases "con_proxy con") (auto simp: pushConnection_def)
next
  case False
  then obtain proxy req where some: "con_proxy con = Some proxy" "pushRequest = Some req" by auto
  let ?st = "if pr_Full req then computeProxyState (srv_GetProxyServiceTargets s) proxy (Some req) else Inr proxy"
  show ?thesis
  proof (cases ?st)
    case (Inr proxy')
    have "con_keyed (con\<lparr>con_proxy := Some proxy'\<rparr>)"
      by (rule advance_keyed [OF state_computed_advance [OF some(1) Inr] assms])
    note push_watches_returns [OF this]
    then show ?thesis using some Inr by (simp add: pushConnection_def Let_def split: prod.splits)
  qed (use some in \<open>simp add: pushConnection_def\<close>)
qed

lemma send_sotw_sent:
  assumes "send_sotw io con resp = Inr (None, con')"
  shows "con_sent con' = con_sent con @ [(con_ticks con, Sotw resp, None)]"
proof -
  obtain proxy where proxy: "con_proxy con = Some proxy"
    using assms by (cases "con_proxy con") (simp_all add: send_sotw_def hand_to_stream_def Let_def)
  have ok: "io_send io (con_ticks con) = None"
    using assms proxy by (cases "io_send io (con_ticks con)") (simp_all add: send_sotw_def hand_to_stream_def Send_def Let_def)
  show ?thesis
    using assms proxy ok
    by (auto simp: send_sotw_def hand_to_stream_def Send_def Let_def map_sum_def elim!: update_watch_obtain
        split: sum.splits if_splits)
qed

lemma push_one_Sent:
  assumes "push_one pb s io con (Some w) req = Sent con' res"
  obtains con1 proxy gen requested proxy' w' all l resp where
    "authorizeConnection s io con = (None, con1)" "con_proxy con1 = Some proxy"
    "findGenerator s (wr_TypeUrl w) (Some con1) = Some gen"
    "requested_names pb s con1 proxy w req = (requested, proxy', w')"
    "Generate_of gen proxy' (generated_watch proxy' w' req) req = (Some all, l, None)"
    "res = filter_requested (IsInherentGrpc proxy') requested all"
    "send_sotw io (con1\<lparr>con_proxy := Some proxy'\<rparr>) resp = Inr (None, con')"
    "dr_TypeUrl resp = wr_TypeUrl w'" "dr_Resources resp = map res_Resource res"
proof -
  obtain e1 con1 where auth: "authorizeConnection s io con = (e1, con1)" by fastforce
  have e1: "e1 = None" using assms auth by (cases e1) (simp_all add: push_one_def)
  obtain proxy where proxy: "con_proxy con1 = Some proxy"
    using assms auth e1 by (cases "con_proxy con1") (simp_all add: push_one_def)
  obtain gen where gen: "findGenerator s (wr_TypeUrl w) (Some con1) = Some gen"
    using assms auth e1 proxy by (cases "findGenerator s (wr_TypeUrl w) (Some con1)") (simp_all add: push_one_def)
  obtain requested proxy' w' where req: "requested_names pb s con1 proxy w req = (requested, proxy', w')"
    by (metis prod_cases3)
  obtain r l e2 where run: "Generate_of gen proxy' (generated_watch proxy' w' req) req = (r, l, e2)"
    by (metis prod_cases3)
  have e2: "e2 = None" using assms auth e1 proxy gen req run by (cases e2; cases r) (simp_all add: push_one_def Let_def)
  obtain all where all: "r = Some all" using assms auth e1 proxy gen req run e2 by (cases r) (simp_all add: push_one_def Let_def)
  obtain push where push: "pr_Push req = Some push"
    using assms auth e1 proxy gen req run e2 all by (cases "pr_Push req") (simp_all add: push_one_def Let_def)
  let ?con = "con1\<lparr>con_proxy := Some proxy'\<rparr>"
  let ?res = "filter_requested (IsInherentGrpc proxy') requested all"
  let ?resp = "\<lparr>dr_TypeUrl = wr_TypeUrl w', dr_VersionInfo = pc_PushVersion push,
    dr_Nonce = pc_PushVersion push @ io_uuid io (con_ticks ?con), dr_Resources = map res_Resource ?res\<rparr>"
  have "(case send_sotw io ?con ?resp of Inr (None, con) \<Rightarrow> Sent con ?res | r \<Rightarrow> Returned r) = Sent con' res"
    using assms auth e1 proxy gen req run e2 all push by (simp add: push_one_def Let_def)
  then have "send_sotw io ?con ?resp = Inr (None, con')" "res = ?res"
    by (auto split: sum.splits option.splits prod.splits)
  then show thesis
    by (intro that [OF auth [unfolded e1] proxy gen req run [unfolded e2 all], of ?resp]) simp_all
qed

lemma watch_endpoints_tracks:
  assumes "watch_endpoints pb con res = Inr con'"
  shows "extractEDSClusterNamesFromCDS pb res |\<subseteq>| tracked con' EndpointType"
proof (cases "extractEDSClusterNamesFromCDS pb res = {||}")
  case False
  let ?names = "extractEDSClusterNamesFromCDS pb res"
  obtain proxy where proxy: "con_proxy con = Some proxy"
    using assms False by (cases "con_proxy con") (simp_all add: watch_endpoints_def Let_def)
  have names: "fset_of_list (sorted_list_of_fset ?names) = ?names"
    by (metis fset_inverse fset_of_list.rep_eq set_sorted_list_of_set finite_fset sorted_list_of_fset.rep_eq)
  show ?thesis
  proof (cases "GetWatchedResource (px_WatchedResources proxy) EndpointType")
    case None
    then have "con' = new_watch con proxy EndpointType ?names"
      using assms False proxy by (simp add: watch_endpoints_def Let_def)
    then show ?thesis
      using names by (simp add: new_watch_def tracked_def GetWatchedResource_def NewWatchedResource_def)
  next
    case (Some w)
    show ?thesis
    proof (cases "?names |\<subseteq>| elems (wr_ResourceNames w)")
      case True
      then have "con' = con" using assms False Some proxy by (simp add: watch_endpoints_def Let_def)
      with True Some proxy show ?thesis by (simp add: tracked_def)
    next
      case no: False
      then have "update_watch con EndpointType (add_names EndpointType ?names) = Inr con'"
        using assms False Some proxy by (simp add: watch_endpoints_def Let_def)
      then show ?thesis using Some proxy
        by (auto simp: update_watch_def UpdateWatchedResource_def add_names_def tracked_def GetWatchedResource_def Let_def)
    qed
  qed
qed simp

lemma progress_grpc: "progress s io con con' \<Longrightarrow> con_grpc con' = con_grpc con"
  by (auto simp: progress_def advance_def con_ident_def con_grpc_def proxy_ident_def IsInherentGrpc_def split: option.splits)

text \<open>The session of the witnesses: a connection that watches routes receives a push event.\<close>

definition example_event :: "unit PushContext PushRequest" where
  "example_event = zero_PushRequest\<lparr>pr_Push := Some \<lparr>pc_ConfigSnapshot = (), pc_PushVersion = ''v''\<rparr>\<rparr>"

definition example_proto :: "unit proto" where
  "example_proto = \<lparr>pb_Listener = \<lambda>_. None, pb_HttpConnectionManager = \<lambda>_. None,
     pb_Cluster = \<lambda>_. Some \<lparr>cl_Name = ''c1'', cl_ClusterDiscoveryType = Some Cluster_EDS\<rparr>\<rparr>"

lemma example_session:
  obtains con' resp where "session example_proto example_server example_io example_con con'"
    "(1, resp, None) \<in> set (con_sent con')"
proof -
  have auth: "authorizeConnection example_server example_io example_con = (None, example_con\<lparr>con_ticks := 1\<rparr>)"
    by (simp add: authorizeConnection_def authorize_at_iff example_con_facts)
  have watch: "GetWatchedResource (px_WatchedResources example_proxy) RouteType = Some example_watch"
    by (simp add: example_proxy_def GetWatchedResource_def)
  have order: "map wr_TypeUrl (watchedResourcesByOrder [RouteType] (px_WatchedResources example_proxy)) = [RouteType]"
    by (simp add: watchedResourcesByOrder_def PushOrder_def KnownOrderedTypeUrls_def List.map_filter_def
        example_proxy_def example_watch_def zero_WatchedResource_def type_urls)
  let ?res = "filter (\<lambda>r. res_Name r |\<in>| elems (wr_ResourceNames example_watch)) [example_route ''a'', example_route ''b'']"
  have run: "run_generator example_route_generator example_proxy example_event (pushed_watch example_watch example_event) =
      (Some ?res, None, False, None)"
    by (simp add: pushed_watch_def example_event_def zero_PushRequest_def ResourceDelta_IsEmpty_def emptyResourceDelta_def
        example_route_generator_def)
  have gen: "findGenerator example_server (wr_TypeUrl example_watch) (Some example_con) = Some example_route_generator"
    by (simp add: example_con_facts)
  have push: "pr_Push example_event = Some \<lparr>pc_ConfigSnapshot = (), pc_PushVersion = ''v''\<rparr>" "\<not> pr_Full example_event"
    by (simp_all add: example_event_def zero_PushRequest_def)
  let ?con = "example_con\<lparr>con_ticks := con_ticks example_con + 1\<rparr>"
  obtain resp names where r: "pushDeltaXds example_server example_io example_con (Some example_watch) example_event =
      sendDelta example_io ?con resp names"
    using pushDeltaXds_generated [OF example_con_facts(9) example_con_facts(1) gen run, of example_io] push(1)
    by (simp add: Let_def)
  have "con_proxy ?con = Some example_proxy" "io_send example_io (con_ticks ?con) = None"
    by (simp_all add: example_con_facts example_io_def)
  note sent = trans [OF r sendDelta_ok [OF this]]
  have none: "srv_ProxyNeedsPush example_server = None" by (simp add: example_server_def)
  have same: "example_con\<lparr>con_proxy := Some example_proxy\<rparr> = example_con" by (simp add: example_con_def)
  have "pushConnectionDelta example_server example_io [RouteType] example_con (Some example_event) =
      pushDeltaXds example_server example_io example_con (Some example_watch) example_event"
    by (simp add: pushConnectionDelta_def push(2) order watch example_con_facts(1) none same sent)
  note session.delta_push [OF session.start trans [OF this sent], of example_proto]
  then show thesis by (rule that) (simp add: example_con_facts)
qed

text \<open>A gRPC client that asks for a cluster.\<close>

definition example_cds_watch :: "unit Resource WatchedResource" where
  "example_cds_watch = (zero_WatchedResource ClusterType)\<lparr>wr_ResourceNames := Some {|''c1''|}\<rparr>"

definition example_cds_server :: "(unit, unit) server" where
  "example_cds_server = example_server\<lparr>srv_Generators := fmupd (''grpc/'' @ ClusterType)
     (ResourceGenerator (\<lambda>proxy w req. (Some [example_route ''c1'', example_route ''c2''],
        \<lparr>Incremental = False, AdditionalInfo = []\<rparr>, None))) fmempty\<rparr>"

definition example_cds_con :: "(unit, unit) Connection" where
  "example_cds_con = example_con\<lparr>con_proxy := Some (example_proxy\<lparr>px_WatchedResources :=
     fmupd ClusterType example_cds_watch fmempty\<rparr>)\<rparr>"

lemma example_push_one:
  "\<exists>con'. push_one example_proto example_cds_server example_io example_cds_con (Some example_cds_watch) example_event =
     Sent con' [example_route ''c1'']"
  by (simp add: push_one_def authorizeConnection_def authorize_at_def findGenerator_def requested_names_def
      generated_watch_def filter_requested_def send_sotw_def hand_to_stream_def Send_def update_watch_def
      UpdateWatchedResource_def record_sent_def set_nonce_def IsInherentGrpc_def IsZero_def
      example_cds_server_def example_cds_con_def example_cds_watch_def example_con_defs example_event_def Len_def Let_def)

lemma example_cds_facts: "con_grpc example_cds_con" "Len (wr_ResourceNames example_cds_watch) > 0"
  "wr_TypeUrl example_cds_watch = ClusterType" "elems (wr_ResourceNames example_cds_watch) = {|''c1''|}"
  "con_keyed example_cds_con"
  by (simp_all add: con_grpc_def IsInherentGrpc_def example_cds_con_def example_cds_watch_def example_con_def
      example_proxy_def zero_WatchedResource_def Len_pos_iff con_keyed_def keyed_def)

section \<open>Properties\<close>

text \<open>
  C21: Every response of a session was authorized. In every session of a client, of either protocol and
  with any sequence of requests and pushes, each response handed to the stream was preceded by an
  authorization at the tick just before it: the server's rule accepted the identities the stream
  was authenticated with, for a proxy of the same type, node identifier and metadata, and the
  client certificate had not expired at that time.
\<close>

theorem responses_only_while_authorized:
  assumes "session pb s io con0 con" "con_sent con0 = []" "(t, resp, outcome) \<in> set (con_sent con)"
  shows "t > 0 \<and> (con_authExpiry con0 = zero_time \<or> io_now io (t - 1) < con_authExpiry con0) \<and>
    (\<exists>proxy0 proxy authorize. con_proxy con0 = Some proxy0 \<and> srv_Authorize s = Some authorize \<and>
       authorize proxy (con_ids con0) = None \<and>
       px_Type proxy = px_Type proxy0 \<and> px_ID proxy = px_ID proxy0 \<and> px_Metadata proxy = px_Metadata proxy0)"
proof -
  have "list_all (sent_permitted s io con0) (con_sent con)"
    using session_advance [OF assms(1)] assms(2) by (auto simp: advance_def)
  with assms(3) have "sent_permitted s io con0 (t, resp, outcome)" by (auto simp: list_all_iff)
  then show ?thesis by (force simp: sent_permitted_def permitted_def con_ident_def proxy_ident_def)
qed

theorem responses_only_while_authorized_witness:
  "\<exists>con' resp. session example_proto example_server example_io example_con con' \<and>
     (1, resp, None) \<in> set (con_sent con') \<and>
     (\<exists>proxy authorize. srv_Authorize example_server = Some authorize \<and> authorize proxy (con_ids example_con) = None \<and>
        px_ID proxy = ''p'')"
proof -
  obtain con' resp where s: "session example_proto example_server example_io example_con con'"
    "(1, resp, None) \<in> set (con_sent con')" by (rule example_session)
  from responses_only_while_authorized [OF s(1) _ s(2)]
  show ?thesis using s by (force simp: example_con_facts example_proxy_def)
qed

text \<open>
  C22: Watches stay under their own type, and handlers return. In every session that starts with watches
  stored under the type they are for, which is how a connection begins, they are at every moment;
  and there every request and every push event is handled in finitely many steps: the recursion
  of a push never goes deeper than from listeners to clusters or routes.
\<close>

theorem sessions_typed_and_return:
  assumes "session pb s io con0 con" "con_keyed con0"
  shows "con_keyed con \<and> (\<exists>r. processRequest pb s io req con = Some r) \<and>
         (\<exists>r. pushConnection pb s io ks con ev = Some r)"
  using advance_keyed [OF session_advance [OF assms(1)] assms(2)] processRequest_returns pushConnection_returns
  by blast

theorem sessions_typed_and_return_witness:
  "\<exists>con'. session example_proto example_server example_io example_con con' \<and> con_keyed con' \<and>
     (\<exists>r. pushConnection example_proto example_server example_io [RouteType] con' (Some example_event) = Some r)"
proof -
  obtain con' resp where s: "session example_proto example_server example_io example_con con'"
    "(1, resp, None) \<in> set (con_sent con')" by (rule example_session)
  have "con_keyed example_con"
    by (simp add: con_keyed_def keyed_def example_con_def example_proxy_def example_watch_def zero_WatchedResource_def)
  from sessions_typed_and_return [OF s(1) this] s(1) show ?thesis by blast
qed

text \<open>
  A gRPC client that names the resources it wants receives no others. When a push for such a client
  sends a response for a watch with names, the resources of the response are among those the
  generator made for it, in their order, and each has one of the names of the watch.
\<close>

lemma grpc_response_within_request:
  assumes "push_one pb s io con (Some w) req = Sent con' res" "con_grpc con" "Len (wr_ResourceNames w) > 0"
  shows "set (map res_Name res) \<subseteq> fset (elems (wr_ResourceNames w)) \<and>
    (\<exists>proxy gen all l. con_proxy con = Some proxy \<and> findGenerator s (wr_TypeUrl w) (Some con) = Some gen \<and>
       Generate_of gen proxy w req = (Some all, l, None) \<and>
       res = filter (\<lambda>r. res_Name r |\<in>| elems (wr_ResourceNames w)) all) \<and>
    (\<exists>t resp. con_sent con' = con_sent con @ [(t, Sotw resp, None)] \<and> dr_Resources resp = map res_Resource res)"
proof -
  obtain con1 proxy gen requested proxy' w' all l resp where
    auth: "authorizeConnection s io con = (None, con1)" and proxy: "con_proxy con1 = Some proxy"
    and gen: "findGenerator s (wr_TypeUrl w) (Some con1) = Some gen"
    and req: "requested_names pb s con1 proxy w req = (requested, proxy', w')"
    and run: "Generate_of gen proxy' (generated_watch proxy' w' req) req = (Some all, l, None)"
    and res: "res = filter_requested (IsInherentGrpc proxy') requested all"
    and send: "send_sotw io (con1\<lparr>con_proxy := Some proxy'\<rparr>) resp = Inr (None, con')"
    and resp: "dr_Resources resp = map res_Resource res"
    by (rule push_one_Sent [OF assms(1)])
  have con1: "con1 = con\<lparr>con_ticks := con_ticks con + 1\<rparr>" using auth by (auto simp: authorizeConnection_def)
  have grpc: "IsInherentGrpc proxy" using assms(2) proxy con1 by (simp add: con_grpc_def)
  have same: "requested = elems (wr_ResourceNames w)" "proxy' = proxy" "w' = w"
    using req grpc assms(3) by (auto simp: requested_names_def)
  have "generated_watch proxy w req = w" using grpc by (simp add: generated_watch_def)
  then have all: "Generate_of gen proxy w req = (Some all, l, None)" using run same by simp
  have "length (filter P xs) = length xs \<Longrightarrow> filter P xs = xs" for P and xs :: "'a Resource list"
    by (metis filter_True length_filter_less less_irrefl)
  moreover have "elems (wr_ResourceNames w) \<noteq> {||}" using assms(3) by (simp add: Len_pos_iff)
  ultimately have "filter (\<lambda>r. res_Name r |\<in>| elems (wr_ResourceNames w)) all = res"
    using res same grpc by (simp add: filter_requested_def Let_def split: if_splits)
  note res' = this [symmetric]
  show ?thesis
    using send_sotw_sent [OF send] gen proxy all res' resp con1 by auto
qed

lemma grpc_response_within_request_witness:
  "\<exists>con'. push_one example_proto example_cds_server example_io example_cds_con (Some example_cds_watch) example_event =
       Sent con' [example_route ''c1''] \<and> set (map res_Name [example_route ''c1'']) \<subseteq> {''c1''}"
proof -
  obtain con' where push: "push_one example_proto example_cds_server example_io example_cds_con (Some example_cds_watch)
      example_event = Sent con' [example_route ''c1'']"
    using example_push_one by blast
  from grpc_response_within_request [OF this example_cds_facts(1,2)] push show ?thesis
    by (simp add: example_cds_facts)
qed

text \<open>
  C26: Clusters sent to a gRPC client have their endpoints watched. After a push of clusters to such a
  client, every cluster of the response that takes its endpoints from endpoint discovery is among
  the names watched for endpoints, so that later endpoint updates reach the client.
\<close>

theorem clusters_sent_have_watched_endpoints:
  assumes "pushXds pb s io con (Some w) req = Some (Inr (e, con'))" "push_one pb s io con (Some w) req = Sent con1 res"
    and "wr_TypeUrl w = ClusterType" "con_grpc con"
  shows "extractEDSClusterNamesFromCDS pb res |\<subseteq>| tracked con' EndpointType"
proof -
  have "progress s io con con1"
    using push_one_progress [of pb s io con "Some w" req con1] assms(2) by (simp add: pushed_con_def)
  then have grpc: "con_grpc con1" using progress_grpc assms(4) by blast
  have "after_clusters pb ClusterType res con1 = Inr (e, con')"
    using assms(1-3) other_types(1) by (simp add: pushXds_def numeral_2_eq_2 after_listeners_def and_then_def)
  then have "res = [] \<or> watch_endpoints pb con1 res = Inr con'"
    using grpc by (auto simp: after_clusters_def map_sum_def split: if_splits sum.splits)
  then show ?thesis
  proof
    assume "watch_endpoints pb con1 res = Inr con'"
    then show ?thesis by (rule watch_endpoints_tracks)
  qed simp
qed

theorem clusters_sent_have_watched_endpoints_witness:
  "\<exists>con'. pushXds example_proto example_cds_server example_io example_cds_con (Some example_cds_watch) example_event =
       Some (Inr (None, con')) \<and> ''c1'' |\<in>| tracked con' EndpointType"
proof -
  obtain con1 where push: "push_one example_proto example_cds_server example_io example_cds_con (Some example_cds_watch)
      example_event = Sent con1 [example_route ''c1'']"
    using example_push_one by blast
  obtain proxy where "con_proxy con1 = Some proxy"
    using push_one_progress [of example_proto example_cds_server example_io example_cds_con "Some example_cds_watch"
        example_event con1] push
    by (auto simp: pushed_con_def progress_def advance_def con_ident_def example_cds_con_def)
  then have "\<exists>con'. watch_endpoints example_proto con1 [example_route ''c1''] = Inr con'"
    by (cases "GetWatchedResource (px_WatchedResources proxy) EndpointType")
      (auto simp: watch_endpoints_def update_watch_def UpdateWatchedResource_def add_names_def Let_def)
  then obtain con' where all: "pushXds example_proto example_cds_server example_io example_cds_con (Some example_cds_watch)
      example_event = Some (Inr (None, con'))"
    using push other_types
    by (cases "con_grpc con1")
      (auto simp: pushXds_def numeral_2_eq_2 example_cds_facts after_listeners_def after_clusters_def and_then_def)
  from clusters_sent_have_watched_endpoints [OF this push example_cds_facts(3,1)]
  have "''c1'' |\<in>| tracked con' EndpointType" by (simp add: example_proto_def)
  with all show ?thesis by blast
qed

end
