(* ===== verification/Freshness.thy ===== *)
theory Freshness
  imports Discovery Sending Sessions
begin

text \<open>
  Which push context connections work with. A request of a client is answered from the push context
  that its proxy holds; full push events replace it. This theory runs the discovery server with its
  connections: connections are set up in two steps, pushes replace the global context and put
  requests into the queue, and connections handle requests and push events.
\<close>

section \<open>Runs of the server\<close>

text \<open>
  The events handed over and not yet done, the connections between the two parts of
  \<^verbatim>\<open>initConnection\<close>, and those whose stream was closed.
\<close>

record ('a, 'x, 'g, 'c) running =
  rn_server :: "('a, 'x, 'g, 'c) DiscoveryServer"
  rn_events :: "('c \<times> 'g push_request option) list"
  rn_starting :: "'c fset"
  rn_closed :: "'c fset"

record ('a, 'x, 'g, 'm) setting =
  se_srv :: "('a, 'g ConfigSnapshot) server"
  se_outside :: "'x outside"
  se_proto :: "'a proto"
  se_unmarshal :: "'m \<Rightarrow> err + NodeMetadata"

definition done_event :: "'c \<Rightarrow> 'g push_request option \<Rightarrow> ('a, 'x, 'g, 'c) running \<Rightarrow> ('a, 'x, 'g, 'c) running" where
  "done_event c r st =
     st\<lparr>rn_server := (rn_server st)\<lparr>ds_pushQueue := MarkDone (ds_pushQueue (rn_server st)) c\<rparr>,
        rn_events := remove1 (c, r) (rn_events st)\<rparr>"

text \<open>With \<open>overtaking\<close> a full push may take place while a connection is between the two parts.\<close>

inductive serve ::
    "bool \<Rightarrow> ('a, 'x, 'g, 'm) setting \<Rightarrow> ('a, 'x, 'g, 'c) running \<Rightarrow> ('a, 'x, 'g, 'c) running \<Rightarrow> bool"
  for overtaking se
where
  init_begin: "con_proxy (ds_cons (rn_server st) c) = None \<Longrightarrow> c |\<notin>| rn_starting st \<Longrightarrow>
    init_begin (se_srv se) (se_unmarshal se) node c ids (rn_server st) = Inr (None, s) \<Longrightarrow>
    serve overtaking se st (st\<lparr>rn_server := s, rn_starting := finsert c (rn_starting st)\<rparr>)"
| init_refused: "con_proxy (ds_cons (rn_server st) c) = None \<Longrightarrow> c |\<notin>| rn_starting st \<Longrightarrow>
    init_begin (se_srv se) (se_unmarshal se) node c ids (rn_server st) = Inr (Some e, s) \<Longrightarrow>
    serve overtaking se st (st\<lparr>rn_server := s\<rparr>)"
| init_end: "c |\<in>| rn_starting st \<Longrightarrow> init_end (se_srv se) c (rn_server st) = Inr s \<Longrightarrow>
    serve overtaking se st (st\<lparr>rn_server := s, rn_starting := rn_starting st |-| {|c|}\<rparr>)"
| stream_closed: "serve overtaking se st (st\<lparr>rn_closed := finsert c (rn_closed st)\<rparr>)"
| close: "c |\<notin>| rn_starting st \<Longrightarrow> serve overtaking se st (st\<lparr>rn_server := closeConnection c (rn_server st)\<rparr>)"
| config_update: "serve overtaking se st (st\<lparr>rn_server := ConfigUpdate (se_outside se) req (rn_server st)\<rparr>)"
| eds_update: "serve overtaking se st
    (st\<lparr>rn_server := EDSUpdate (se_outside se) shard name ns eps (rn_server st)\<rparr>)"
| eds_cache_update: "serve overtaking se st
    (st\<lparr>rn_server := EDSCacheUpdate (se_outside se) shard name ns eps (rn_server st)\<rparr>)"
| service_update: "serve overtaking se st
    (st\<lparr>rn_server := ServiceUpdate (se_outside se) shard name ns ev (rn_server st)\<rparr>)"
| proxy_update: "ProxyUpdate (se_outside se) cluster ip now (rn_server st) = Inr s \<Longrightarrow>
    serve overtaking se st (st\<lparr>rn_server := s\<rparr>)"
| push: "Push (se_outside se) now req (rn_server st) = Inr s \<Longrightarrow>
    (pr_Full req \<Longrightarrow> overtaking \<or> rn_starting st = {||}) \<Longrightarrow>
    serve overtaking se st (st\<lparr>rn_server := s\<rparr>)"
| hand_over: "queue_step (ds_pushQueue (rn_server st)) (EvDequeue c r) q \<Longrightarrow>
    serve overtaking se st (st\<lparr>rn_server := (rn_server st)\<lparr>ds_pushQueue := q\<rparr>, rn_events := rn_events st @ [(c, r)]\<rparr>)"
| event: "(c, r) \<in> set (rn_events st) \<Longrightarrow>
    pushConnection (se_proto se) (se_srv se) io ks (ds_cons (rn_server st) c) r = Some (Inr (e, con)) \<or>
    pushConnectionDelta (se_srv se) io ks (ds_cons (rn_server st) c) r = Inr (e, con) \<Longrightarrow>
    serve overtaking se st (done_event c r (st\<lparr>rn_server := set_con c con (rn_server st)\<rparr>))"
| event_dropped: "(c, r) \<in> set (rn_events st) \<Longrightarrow> c |\<in>| rn_closed st \<Longrightarrow> serve overtaking se st (done_event c r st)"
| request: "c |\<notin>| rn_starting st \<Longrightarrow>
    processRequest (se_proto se) (se_srv se) io dreq (ds_cons (rn_server st) c) = Some (Inr (e, con)) \<or>
    processDeltaRequest (se_srv se) io ddreq (ds_cons (rn_server st) c) = Inr (e, con) \<Longrightarrow>
    serve overtaking se st (st\<lparr>rn_server := set_con c con (rn_server st)\<rparr>)"

definition new_running :: "('a, 'x, 'g, 'c) DiscoveryServer \<Rightarrow> ('a, 'x, 'g, 'c) running" where
  "new_running s = \<lparr>rn_server = s, rn_events = [], rn_starting = {||}, rn_closed = {||}\<rparr>"

text \<open>A server starts without connections; its environment and push context are arbitrary.\<close>

inductive server_run ::
    "bool \<Rightarrow> ('a, 'x, 'g, 'm) setting \<Rightarrow> ('a, 'x, 'g, 'c) running \<Rightarrow> bool" for overtaking se
where
  start: "\<forall>c. con_proxy (cons c) = None \<Longrightarrow> server_run overtaking se (new_running (NewDiscoveryServer env push cons))"
| more: "server_run overtaking se st \<Longrightarrow> serve overtaking se st st' \<Longrightarrow> server_run overtaking se st'"

section \<open>The invariant\<close>

abbreviation registered :: "('a, 'x, 'g, 'c) running \<Rightarrow> 'c set" where
  "registered st \<equiv> fmran' (ds_adsClients (rn_server st))"

abbreviation waiting :: "('a, 'x, 'g, 'c) running \<Rightarrow> 'c \<Rightarrow> 'g push_request option" where
  "waiting st c \<equiv> outstanding (ds_pushQueue (rn_server st)) c"

text \<open>A full request with the global push context.\<close>

definition catches_up :: "('a, 'x, 'g, 'c) running \<Rightarrow> 'g push_request option \<Rightarrow> bool" where
  "catches_up st r \<longleftrightarrow> (\<exists>q. r = Some q \<and> pr_Full q \<and> pr_Push q = ds_pushContext (rn_server st))"

definition up_to_date :: "('a, 'x, 'g, 'c) running \<Rightarrow> 'c \<Rightarrow> bool" where
  "up_to_date st c \<longleftrightarrow> con_context (ds_cons (rn_server st) c) = Some (ds_pushContext (rn_server st)) \<or>
     catches_up st (waiting st c) \<or> (\<exists>r. (c, r) \<in> set (rn_events st) \<and> catches_up st r)"

definition idle :: "('a, 'x, 'g, 'c) running \<Rightarrow> 'c \<Rightarrow> bool" where
  "idle st c \<longleftrightarrow> waiting st c = None \<and> c \<notin> fst ` set (rn_events st) \<and> c \<notin> registered st"

definition fresh_con :: "('a, 'x, 'g, 'c) running \<Rightarrow> 'c \<Rightarrow> bool" where
  "fresh_con st c \<longleftrightarrow>
     (con_proxy (ds_cons (rn_server st) c) = None \<or> c |\<in>| rn_starting st \<longrightarrow> idle st c) \<and>
     (c |\<in>| rn_starting st \<longrightarrow> con_context (ds_cons (rn_server st) c) = Some (ds_pushContext (rn_server st))) \<and>
     (c \<in> registered st \<and> c |\<notin>| rn_closed st \<longrightarrow>
        up_to_date st c \<and> (\<forall>r. waiting st c = Some r \<longrightarrow> pr_Push r = ds_pushContext (rn_server st)) \<and>
        (\<forall>r. (c, Some r) \<in> set (rn_events st) \<longrightarrow> pr_Full r \<longrightarrow>
           pr_Push r = ds_pushContext (rn_server st) \<or> catches_up st (waiting st c)))"

definition fresh_inv :: "('a, 'x, 'g, 'c) running \<Rightarrow> bool" where
  "fresh_inv st \<longleftrightarrow> queue_wf (ds_pushQueue (rn_server st)) \<and> \<not> pq_shuttingDown (ds_pushQueue (rn_server st)) \<and>
     (\<forall>c. fmlookup (pq_pending (ds_pushQueue (rn_server st))) c \<noteq> Some None) \<and> distinct (map fst (rn_events st)) \<and>
     fst ` set (rn_events st) \<subseteq> fset (fmdom (pq_processing (ds_pushQueue (rn_server st)))) \<and> (\<forall>c. fresh_con st c)"

lemma fresh_con_mono:
  assumes "fresh_con st c" "con_context (ds_cons (rn_server st') c) = con_context (ds_cons (rn_server st) c)"
    and "ds_pushContext (rn_server st') = ds_pushContext (rn_server st)" "waiting st' c = waiting st c"
    and "\<And>r. (c, r) \<in> set (rn_events st') \<longleftrightarrow> (c, r) \<in> set (rn_events st)"
    and "c \<in> registered st' \<Longrightarrow> c \<in> registered st" "c |\<in>| rn_starting st' \<longleftrightarrow> c |\<in>| rn_starting st"
    and "c |\<in>| rn_closed st \<Longrightarrow> c |\<in>| rn_closed st'"
  shows "fresh_con st' c"
proof -
  have none: "con_proxy (ds_cons (rn_server st') c) = None \<longleftrightarrow> con_proxy (ds_cons (rn_server st) c) = None"
    using assms(2) by (metis con_context_def option.map_disc_iff)
  have idle: "idle st c \<Longrightarrow> idle st' c" using assms(4-6) by (force simp: idle_def)
  have up: "up_to_date st' c = up_to_date st c" "catches_up st' = catches_up st"
    using assms(2-5) by (simp_all add: up_to_date_def catches_up_def fun_eq_iff)
  show ?thesis
    using assms(1,6,8) unfolding fresh_con_def none assms(2-5,7) up by (auto intro: idle)
qed

lemma registered_fresh: "fresh_con st c \<Longrightarrow> c \<in> registered st \<Longrightarrow> con_proxy (ds_cons (rn_server st) c) \<noteq> None \<and> c |\<notin>| rn_starting st"
  by (auto simp: fresh_con_def idle_def)

lemma event_fresh:
  "fresh_con st c \<Longrightarrow> (c, r) \<in> set (rn_events st) \<Longrightarrow> con_proxy (ds_cons (rn_server st) c) \<noteq> None \<and> c |\<notin>| rn_starting st"
  by (force simp: fresh_con_def idle_def)

text \<open>Requests with the current push context.\<close>

lemma Enqueue_not_nil:
  "\<forall>c. fmlookup (pq_pending q) c \<noteq> Some None \<Longrightarrow> \<forall>c. fmlookup (pq_pending (Enqueue q con (Some r))) c \<noteq> Some None"
  by (simp add: Enqueue_def split: option.splits)

lemma outstanding_Enqueue_other: "d \<noteq> con \<Longrightarrow> outstanding (Enqueue q con r) d = outstanding q d"
  by (auto simp: Enqueue_def outstanding_def split: option.splits)

lemma outstanding_Enqueue_same:
  assumes "queue_wf q" "\<not> pq_shuttingDown q"
  obtains out where "outstanding (Enqueue q con (Some r)) con = Some out"
    "pr_Push out = (case outstanding q con of None \<Rightarrow> pr_Push r | Some p \<Rightarrow> if pr_Push r \<noteq> None then pr_Push r else pr_Push p)"
    "pr_Full out \<longleftrightarrow> pr_Full r \<or> (\<exists>p. outstanding q con = Some p \<and> pr_Full p)"
proof -
  have "PushRequest_Copy (outstanding (Enqueue q con (Some r)) con) = PushRequest_CopyMerge (outstanding q con) (Some r)"
    using outstanding_Enqueue [OF assms(1), of con "Some r" con] assms(2) by simp
  moreover obtain m where "PushRequest_CopyMerge (outstanding q con) (Some r) = Some m"
      "pr_Push m = (case outstanding q con of None \<Rightarrow> pr_Push r | Some p \<Rightarrow> if pr_Push r \<noteq> None then pr_Push r else pr_Push p)"
      "pr_Full m \<longleftrightarrow> pr_Full r \<or> (\<exists>p. outstanding q con = Some p \<and> pr_Full p)"
    by (cases "outstanding q con") (auto simp: PushRequest_Copy_Some CopyMerge_Some)
  moreover have "PushRequest_Copy x = Some m \<Longrightarrow> \<exists>out. x = Some out \<and> pr_Push out = pr_Push m \<and> pr_Full out = pr_Full m" for x
    by (cases x) (auto simp: PushRequest_Copy_Some)
  ultimately show thesis using that by metis
qed

definition set_queue ::
    "('c, 'g push_context) PushQueue \<Rightarrow> ('a, 'x, 'g, 'c) running \<Rightarrow> ('a, 'x, 'g, 'c) running" where
  "set_queue q st = st\<lparr>rn_server := (rn_server st)\<lparr>ds_pushQueue := q\<rparr>\<rparr>"

lemma fresh_enqueue:
  assumes inv: "fresh_inv st" and "con \<in> registered st" and push: "pr_Push r = ds_pushContext (rn_server st)"
  shows "fresh_inv (set_queue (Enqueue (ds_pushQueue (rn_server st)) con (Some r)) st)"
proof -
  let ?q = "ds_pushQueue (rn_server st)" and ?st = "set_queue (Enqueue (ds_pushQueue (rn_server st)) con (Some r)) st"
  have q: "queue_wf ?q" "\<not> pq_shuttingDown ?q" and fresh: "fresh_con st c" for c using inv by (auto simp: fresh_inv_def)
  have "fresh_con ?st d" for d
  proof (cases "d = con")
    case False
    then show ?thesis by (intro fresh_con_mono [OF fresh]) (simp_all add: set_queue_def outstanding_Enqueue_other)
  next
    case True
    obtain out where out: "outstanding (Enqueue ?q con (Some r)) con = Some out"
        "pr_Push out = (case outstanding ?q con of None \<Rightarrow> pr_Push r | Some p \<Rightarrow> if pr_Push r \<noteq> None then pr_Push r else pr_Push p)"
        "pr_Full out \<longleftrightarrow> pr_Full r \<or> (\<exists>p. outstanding ?q con = Some p \<and> pr_Full p)"
      by (rule outstanding_Enqueue_same [OF q])
    have wait: "con |\<notin>| rn_closed st \<Longrightarrow> outstanding ?q con = Some p \<Longrightarrow> pr_Push p = ds_pushContext (rn_server st)" for p
      using fresh [of con] assms(2) by (auto simp: fresh_con_def)
    have Push: "con |\<notin>| rn_closed st \<Longrightarrow> pr_Push out = ds_pushContext (rn_server st)"
      using out(2) push wait by (auto split: option.splits)
    have catches: "catches_up ?st = catches_up st" by (simp add: catches_up_def set_queue_def fun_eq_iff)
    have "con |\<notin>| rn_closed st \<Longrightarrow> catches_up st (outstanding ?q con) \<Longrightarrow> catches_up st (Some out)"
      using out(3) Push by (auto simp: catches_up_def)
    then show ?thesis
      using fresh [of con] registered_fresh [OF fresh assms(2)] assms(2) Push out(1)
      unfolding True fresh_con_def catches up_to_date_def by (auto simp: set_queue_def)
  qed
  then show ?thesis
    using inv wf_Enqueue [OF q(1)] Enqueue_not_nil [of ?q con r] by (simp add: fresh_inv_def set_queue_def Enqueue_processing)
qed

lemma fresh_enqueue_all:
  assumes "fresh_inv st" "set cs \<subseteq> registered st" "pr_Push r = ds_pushContext (rn_server st)"
  shows "fresh_inv (set_queue (fold (\<lambda>p q. Enqueue q p (Some r)) cs (ds_pushQueue (rn_server st))) st)"
  using assms
proof (induction cs arbitrary: st)
  case (Cons c cs)
  let ?st = "set_queue (Enqueue (ds_pushQueue (rn_server st)) c (Some r)) st"
  have "fresh_inv (set_queue (fold (\<lambda>p q. Enqueue q p (Some r)) cs (ds_pushQueue (rn_server ?st))) ?st)"
    by (rule Cons.IH) (use Cons.prems fresh_enqueue [of st c r] in \<open>simp_all add: set_queue_def\<close>)
  then show ?case by (simp add: set_queue_def)
qed (simp add: set_queue_def)

lemma fresh_inv_cong:
  assumes inv: "fresh_inv st"
    and "\<And>c. con_context (ds_cons (rn_server st') c) = con_context (ds_cons (rn_server st) c)"
    and "ds_pushContext (rn_server st') = ds_pushContext (rn_server st)"
    and "ds_pushQueue (rn_server st') = ds_pushQueue (rn_server st)" "rn_events st' = rn_events st"
    and "registered st' \<subseteq> registered st" "rn_starting st' = rn_starting st" "rn_closed st |\<subseteq>| rn_closed st'"
  shows "fresh_inv st'"
proof -
  have "fresh_con st' c" for c
    using inv assms(6,8) by (intro fresh_con_mono [of st c st']) (auto simp: fresh_inv_def assms(2-5,7))
  then show ?thesis using inv by (simp add: fresh_inv_def assms(4,5))
qed

lemma set_clientsForPush: "(\<And>K. is_range (ou_clients ou K) K) \<Longrightarrow> set (clientsForPush ou r s) \<subseteq> fmran' (ds_adsClients s)"
  by (auto simp: clientsForPush_def set_AllClients split: option.splits prod.splits if_splits)

lemma fresh_full_push:
  assumes inv: "fresh_inv st" and starting: "rn_starting st = {||}" and range: "\<And>K. is_range (ou_clients ou K) K"
    and push: "Push ou now req (rn_server st) = Inr s" and full: "pr_Full req"
  shows "fresh_inv (st\<lparr>rn_server := s\<rparr>)"
proof -
  let ?q = "ds_pushQueue (rn_server st)" and ?st = "st\<lparr>rn_server := s\<rparr>"
  obtain r where r: "pr_Push r = ds_pushContext s" "pr_Push r \<noteq> None" "pr_Full r"
      "ds_pushQueue s = fold (\<lambda>p q. Enqueue q p (Some r)) (clientsForPush ou (Some r) (rn_server st)) ?q"
      "ds_adsClients s = ds_adsClients (rn_server st)" "ds_cons s = ds_cons (rn_server st)"
    using Push_obtain [OF push] full by metis
  have all: "set (clientsForPush ou (Some r) (rn_server st)) = registered st"
    using r(3) set_AllClients [OF range] by (simp add: clientsForPush_def)
  have q: "queue_wf ?q" "\<not> pq_shuttingDown ?q" and fresh: "fresh_con st c" for c using inv by (auto simp: fresh_inv_def)
  have other: "outstanding (fold (\<lambda>p q. Enqueue q p (Some r)) cs q') c = outstanding q' c" if "c \<notin> set cs" for cs q' c
    using that by (induction cs arbitrary: q') (simp_all add: outstanding_Enqueue_other)
  have dom: "fmdom (pq_processing (fold (\<lambda>p q. Enqueue q p (Some r)) cs q')) = fmdom (pq_processing q')" for cs q'
    by (induction cs arbitrary: q') (simp_all add: Enqueue_processing)
  have "\<forall>c. fmlookup (pq_pending q') c \<noteq> Some None \<Longrightarrow>
      \<forall>c. fmlookup (pq_pending (fold (\<lambda>p q. Enqueue q p (Some r)) cs q')) c \<noteq> Some None" for cs q'
  proof (induction cs arbitrary: q')
    case (Cons a cs)
    show ?case using Cons.IH [OF Enqueue_not_nil [OF Cons.prems]] by simp
  qed simp
  note not_nil = this [of ?q "clientsForPush ou (Some r) (rn_server st)", folded r(4)]
  have "fresh_con ?st c" for c
  proof (cases "c \<in> registered st")
    case True
    then have "carries r (outstanding (ds_pushQueue s) c)"
      unfolding r(4) using all by (intro enqueue_all_carries [OF q r(2)]) simp
    then obtain out where out: "outstanding (ds_pushQueue s) c = Some out" "pr_Push out = ds_pushContext s" "pr_Full out"
      using r(1,3) by (auto simp: carries_def)
    have "catches_up ?st (Some out)" using out by (simp add: catches_up_def)
    then show ?thesis
      using registered_fresh [OF fresh True] out by (auto simp: fresh_con_def up_to_date_def r(6))
  next
    case False
    then have "waiting ?st c = waiting st c" using other [of c] all by (simp add: r(4))
    then show ?thesis using fresh [of c] False starting by (auto simp: fresh_con_def idle_def r(5,6))
  qed
  then show ?thesis using inv enqueue_all_wf [OF q(1), of r "clientsForPush ou (Some r) (rn_server st)"] not_nil
    by (simp add: fresh_inv_def r(4) dom)
qed

lemma fresh_partial_push:
  assumes inv: "fresh_inv st" and range: "\<And>K. is_range (ou_clients ou K) K"
    and push: "Push ou now req (rn_server st) = Inr s" and "\<not> pr_Full req"
  shows "fresh_inv (st\<lparr>rn_server := s\<rparr>)"
proof -
  obtain r where r: "pr_Push r = ds_pushContext s"
      "ds_pushQueue s = fold (\<lambda>p q. Enqueue q p (Some r)) (clientsForPush ou (Some r) (rn_server st)) (ds_pushQueue (rn_server st))"
      "ds_adsClients s = ds_adsClients (rn_server st)" "ds_cons s = ds_cons (rn_server st)"
      "ds_pushContext s = ds_pushContext (rn_server st)"
    using Push_obtain [OF push] assms(4) by metis
  have "fresh_inv (set_queue (ds_pushQueue s) st)"
    unfolding r(2) by (rule fresh_enqueue_all [OF inv set_clientsForPush [OF range]]) (simp add: r(1,5))
  then show ?thesis by (rule fresh_inv_cong) (simp_all add: set_queue_def r(3-5))
qed

lemma fresh_proxy_updates:
  assumes "fresh_inv st" "set vs \<subseteq> registered st" "proxy_updates cluster ip now vs (rn_server st) = Inr s"
  shows "fresh_inv (st\<lparr>rn_server := s\<rparr>)"
  using assms
proof (induction vs arbitrary: st)
  case (Cons v vs)
  let ?r = "proxy_update_request (globalPushContext (rn_server st)) now"
  let ?st = "set_queue (Enqueue (ds_pushQueue (rn_server st)) v (Some ?r)) st"
  obtain matches where m: "is_proxy_at cluster ip (con_proxy (ds_cons (rn_server st) v)) = Inr matches"
    using Cons.prems(3) by (auto simp: bind_panic_Inr)
  show ?case
  proof (cases matches)
    case True
    have "fresh_inv ?st"
      by (rule fresh_enqueue) (use Cons.prems in \<open>simp_all add: proxy_update_request_def globalPushContext_def\<close>)
    from Cons.IH [OF this] show ?thesis using Cons.prems m True by (simp add: set_queue_def)
  next
    case False
    then show ?thesis using Cons.IH [OF Cons.prems(1)] Cons.prems m by simp
  qed
qed auto

lemma set_con_keeps [simp]:
  "ds_adsClients (set_con c con s) = ds_adsClients s" "ds_pushQueue (set_con c con s) = ds_pushQueue s"
  "ds_pushContext (set_con c con s) = ds_pushContext s" "ds_cons (set_con c con s) = (ds_cons s)(c := con)"
  by (simp_all add: set_con_def)

text \<open>The first part of the initialization, also when it is refused.\<close>

lemma init_begin_obtain:
  fixes s :: "('a, 'x, 'g, 'c) DiscoveryServer"
  assumes "init_begin srv unmarshal node c ids s = Inr (e, s')"
  obtains "s' = s" "e \<noteq> None"
  | con where "ds_adsClients s' = ds_adsClients s" "ds_pushQueue s' = ds_pushQueue s" "ds_pushContext s' = ds_pushContext s"
      "ds_cons s' = (ds_cons s)(c := con)" "con_context con = Some (ds_pushContext s)"
proof -
  obtain p :: "err + ('a, 'g ConfigSnapshot) proxy" where p: "initProxyMetadata unmarshal node = Inr p"
    using assms by (auto simp: init_begin_def bind_panic_Inr)
  show thesis
  proof (cases p)
    case (Inl e')
    then show thesis using assms p that(1) by (auto simp: init_begin_def)
  next
    case (Inr proxy)
    let ?id = "fst (connectionID (px_ID proxy) s)"
    let ?con = "(ds_cons s c)\<lparr>con_ID := ?id, con_proxy := Some (proxy\<lparr>px_LastPushContext := ds_pushContext s\<rparr>), con_ids := ids\<rparr>"
    have "s' = set_con c ?con (snd (connectionID (px_ID proxy) s))"
      using assms p Inr
      by (auto simp: init_begin_def globalPushContext_def connectionID_def set_con_def Let_def split: option.splits)
    moreover have "con_context ?con = Some (ds_pushContext s)" unfolding con_context_def by simp
    ultimately show thesis by (intro that(2) [of ?con]) (simp_all add: connectionID_def Let_def)
  qed
qed

lemma init_end_obtain:
  assumes "init_end srv c s = Inr s'"
  obtains con where "ds_adsClients s' = fmupd (con_ID (ds_cons s c)) c (ds_adsClients s)"
      "ds_pushQueue s' = ds_pushQueue s" "ds_pushContext s' = ds_pushContext s"
      "ds_cons s' = (ds_cons s)(c := con)" "con_context con = con_context (ds_cons s c)" "con_proxy con \<noteq> None"
proof -
  let ?s = "addCon (con_ID (ds_cons s c)) c s"
  obtain con where con: "initializeProxy srv (ds_cons s c) = Inr con"
      "s' = (set_con c con ?s)\<lparr>ds_initialized := finsert c (ds_initialized ?s)\<rparr>"
    using assms by (cases "initializeProxy srv (ds_cons s c)") (auto simp: init_end_def addCon_def Let_def)
  have "con_context con = con_context (ds_cons s c) \<and> con_proxy con \<noteq> None"
    using con(1) by (auto simp: initializeProxy_def computeProxyState_def SetServiceTargets_def con_context_def Let_def
        map_sum_def split: option.splits sum.splits)
  then show thesis using con(2) by (intro that [of con]) (simp_all add: addCon_def)
qed

lemma fresh_init_end:
  assumes inv: "fresh_inv st" and c: "c |\<in>| rn_starting st" and "init_end srv c (rn_server st) = Inr s"
  shows "fresh_inv (st\<lparr>rn_server := s, rn_starting := rn_starting st |-| {|c|}\<rparr>)"
proof -
  let ?st = "st\<lparr>rn_server := s, rn_starting := rn_starting st |-| {|c|}\<rparr>"
  obtain con where s: "ds_adsClients s = fmupd (con_ID (ds_cons (rn_server st) c)) c (ds_adsClients (rn_server st))"
      "ds_pushQueue s = ds_pushQueue (rn_server st)" "ds_pushContext s = ds_pushContext (rn_server st)"
      "ds_cons s = (ds_cons (rn_server st))(c := con)" "con_context con = con_context (ds_cons (rn_server st) c)"
      "con_proxy con \<noteq> None"
    by (rule init_end_obtain [OF assms(3)])
  have fresh: "fresh_con st d" for d using inv by (simp add: fresh_inv_def)
  have reg: "fmran' (fmupd k c m) \<subseteq> insert c (fmran' m)" for k and m :: "(string, 'd) fmap"
    by (auto simp: fmran'_def ran_def split: if_splits)
  have "fresh_con ?st d" for d
  proof (cases "d = c")
    case False
    then show ?thesis using s reg by (intro fresh_con_mono [OF fresh]) auto
  next
    case True
    have "idle st c" "con_context (ds_cons (rn_server st) c) = Some (ds_pushContext (rn_server st))"
      using fresh [of c] c by (simp_all add: fresh_con_def)
    then show ?thesis
      unfolding True by (force simp: fresh_con_def up_to_date_def idle_def s)
  qed
  then show ?thesis using inv by (simp add: fresh_inv_def s(2))
qed

lemma fresh_init_begin:
  assumes inv: "fresh_inv st" and c: "con_proxy (ds_cons (rn_server st) c) = None" "c |\<notin>| rn_starting st"
    and "init_begin srv unmarshal node c ids (rn_server st) = Inr (e, s)"
  shows "fresh_inv (st\<lparr>rn_server := s, rn_starting := (if e = None then finsert c (rn_starting st) else rn_starting st)\<rparr>)"
  using assms(4)
proof (cases rule: init_begin_obtain)
  case 1
  then show ?thesis using inv by auto
next
  case (2 con)
  let ?st = "st\<lparr>rn_server := s, rn_starting := (if e = None then finsert c (rn_starting st) else rn_starting st)\<rparr>"
  have fresh: "fresh_con st d" for d using inv by (simp add: fresh_inv_def)
  have "fresh_con ?st d" for d
  proof (cases "d = c")
    case False
    then show ?thesis using 2 by (intro fresh_con_mono [OF fresh]) auto
  next
    case True
    have "idle st c" using fresh [of c] c by (simp add: fresh_con_def)
    then show ?thesis unfolding True using 2 c by (auto simp: fresh_con_def idle_def con_context_def)
  qed
  then show ?thesis using inv by (simp add: fresh_inv_def 2)
qed

lemma fresh_hand_over:
  assumes inv: "fresh_inv st" and step: "queue_step (ds_pushQueue (rn_server st)) (EvDequeue c r) q"
  shows "fresh_inv (st\<lparr>rn_server := (rn_server st)\<lparr>ds_pushQueue := q\<rparr>, rn_events := rn_events st @ [(c, r)]\<rparr>)"
proof -
  let ?q = "ds_pushQueue (rn_server st)"
  let ?st = "st\<lparr>rn_server := (rn_server st)\<lparr>ds_pushQueue := q\<rparr>, rn_events := rn_events st @ [(c, r)]\<rparr>"
  have wf: "queue_wf ?q" and fresh: "fresh_con st d" for d using inv by (simp_all add: fresh_inv_def)
  obtain p0 where p0: "entering ?q p0" "Dequeue p0 = DequeueItem c r q" using step by (cases rule: queue_step.cases) auto
  have "r = outstanding ?q c" and rest: "outstanding q d = (if d = c then None else outstanding ?q d)" for d
    using outstanding_Dequeue [OF _ p0(2)] wf by (simp_all add: entering_simps [OF p0(1)])
  note deq = Dequeue_step [OF step wf] wf_step [OF step wf]
  have new: "c \<notin> fst ` set (rn_events st)" using inv deq(1) by (auto simp: fresh_inv_def)
  have "pq_shuttingDown q = pq_shuttingDown ?q"
    using p0 by (cases rule: Dequeue_cases [of p0]) (auto simp: entering_simps)
  moreover have "fresh_con ?st d" for d
  proof (cases "d = c")
    case False
    then show ?thesis by (intro fresh_con_mono [OF fresh]) (auto simp: rest)
  next
    case True
    have "c \<in> set (pq_queue p0)" using p0(2) by (cases rule: Dequeue_cases [of p0]) auto
    then have "c |\<in>| fmdom (pq_pending ?q)" using wf by (simp add: wf_iff entering_simps [OF p0(1)])
    then obtain a where a: "fmlookup (pq_pending ?q) c = Some a" by (auto simp: fmlookup_dom_iff)
    moreover have "fmlookup (pq_pending ?q) c \<noteq> Some None" using inv by (simp add: fresh_inv_def)
    ultimately obtain rr where rr: "outstanding ?q c = Some rr" by (cases a) (simp_all add: outstanding_def)
    have "(c, Some x) \<notin> set (rn_events st)" for x using new by force
    then show ?thesis
      using fresh [of c] rest [of c] rr \<open>r = outstanding ?q c\<close>
      unfolding True fresh_con_def up_to_date_def catches_up_def by (auto simp: idle_def)
  qed
  moreover have "\<forall>d. fmlookup (pq_pending q) d \<noteq> Some None"
    using inv p0 by (cases rule: Dequeue_cases [of p0]) (auto simp: fresh_inv_def entering_simps [OF p0(1)] split: if_splits)
  ultimately show ?thesis using inv deq new by (auto simp: fresh_inv_def)
qed

lemma MarkDone_not_nil:
  "\<forall>c. fmlookup (pq_pending q) c \<noteq> Some None \<Longrightarrow> \<forall>c. fmlookup (pq_pending (MarkDone q con)) c \<noteq> Some None"
  by (simp add: MarkDone_def Let_def split: option.splits)

lemma MarkDone_shuttingDown [simp]: "pq_shuttingDown (MarkDone q con) = pq_shuttingDown q"
  by (simp add: MarkDone_def Let_def)

text \<open>An event that is done: the connection has taken over its push context, or its stream was closed.\<close>

lemma fresh_done:
  assumes inv: "fresh_inv st" and ev: "(c, r) \<in> set (rn_events st)"
    and con: "con_proxy con \<noteq> None" "\<And>q. r = Some q \<Longrightarrow> pr_Full q \<Longrightarrow> c |\<notin>| rn_closed st \<Longrightarrow> con_context con = Some (pr_Push q)"
      "(\<And>q. r = Some q \<Longrightarrow> \<not> pr_Full q) \<Longrightarrow> c |\<notin>| rn_closed st \<Longrightarrow> con_context con = con_context (ds_cons (rn_server st) c)"
  shows "fresh_inv (done_event c r (st\<lparr>rn_server := set_con c con (rn_server st)\<rparr>))" (is "fresh_inv ?st")
proof -
  let ?q = "ds_pushQueue (rn_server st)"
  have wf: "queue_wf ?q" and distinct: "distinct (map fst (rn_events st))" and fresh: "fresh_con st d" for d
    using inv by (simp_all add: fresh_inv_def)
  note events = remove1_event [OF distinct ev]
  have wait: "waiting ?st d = waiting st d" for d by (simp add: done_event_def outstanding_MarkDone [OF wf])
  have rest: "(d, x) \<in> set (rn_events ?st) \<longleftrightarrow> (d, x) \<in> set (rn_events st)" if "d \<noteq> c" for d x
    using that by (simp add: done_event_def in_set_remove1)
  have gone: "(c, x) \<notin> set (rn_events ?st)" for x using events by (force simp: done_event_def)
  have only: "(c, x) \<in> set (rn_events st) \<Longrightarrow> x = r" for x
    using distinct ev by (metis eq_key_imp_eq_value)
  have "fresh_con ?st d" for d
  proof (cases "d = c")
    case False
    then show ?thesis by (intro fresh_con_mono [OF fresh]) (simp_all add: wait rest, simp_all add: done_event_def)
  next
    case True
    have catches: "catches_up ?st = catches_up st" by (simp add: catches_up_def done_event_def fun_eq_iff)
    have sel: "ds_cons (rn_server ?st) c = con" "ds_pushContext (rn_server ?st) = ds_pushContext (rn_server st)"
        "registered ?st = registered st" "rn_starting ?st = rn_starting st" "rn_closed ?st = rn_closed st"
      by (simp_all add: done_event_def)
    show ?thesis
    proof (cases "c \<in> registered st \<and> c |\<notin>| rn_closed st")
      case False
      then show ?thesis using event_fresh [OF fresh ev] con(1) by (auto simp: True fresh_con_def sel)
    next
      case reg: True
      have f: "up_to_date st c" "\<forall>x. waiting st c = Some x \<longrightarrow> pr_Push x = ds_pushContext (rn_server st)"
          "\<forall>x. (c, Some x) \<in> set (rn_events st) \<longrightarrow> pr_Full x \<longrightarrow>
             pr_Push x = ds_pushContext (rn_server st) \<or> catches_up st (waiting st c)"
        using fresh [of c] reg by (simp_all add: fresh_con_def)
      have "up_to_date ?st c"
      proof (cases "\<exists>q. r = Some q \<and> pr_Full q")
        case True
        then obtain q where q: "r = Some q" "pr_Full q" by blast
        then have "con_context con = Some (pr_Push q)" using con(2) reg by blast
        then show ?thesis
          using f(3) ev q unfolding up_to_date_def catches wait sel by auto
      next
        case False
        then have "con_context con = con_context (ds_cons (rn_server st) c)" using con(3) reg by blast
        moreover have "\<not> (\<exists>x. (c, x) \<in> set (rn_events st) \<and> catches_up st x)"
          using only False by (auto simp: catches_up_def)
        ultimately show ?thesis using f(1) unfolding up_to_date_def catches wait sel by auto
      qed
      then show ?thesis
        using f(2) event_fresh [OF fresh ev] con(1) gone by (auto simp: True fresh_con_def sel wait)
    qed
  qed
  moreover have "fst ` set (rn_events ?st) \<subseteq> fset (fmdom (pq_processing (ds_pushQueue (rn_server ?st))))"
    using inv events by (auto simp: fresh_inv_def done_event_def MarkDone_processing)
  ultimately show ?thesis
    using inv events wf_MarkDone [OF wf, of c] MarkDone_not_nil [of ?q c] by (simp add: fresh_inv_def done_event_def)
qed

lemma update_keeps [simp]:
  "ds_adsClients (ConfigUpdate ou req s) = ds_adsClients s" "ds_pushQueue (ConfigUpdate ou req s) = ds_pushQueue s"
  "ds_pushContext (ConfigUpdate ou req s) = ds_pushContext s" "ds_cons (ConfigUpdate ou req s) = ds_cons s"
  "ds_adsClients (set_index e s) = ds_adsClients s" "ds_pushQueue (set_index e s) = ds_pushQueue s"
  "ds_pushContext (set_index e s) = ds_pushContext s" "ds_cons (set_index e s) = ds_cons s"
  by (simp_all add: ConfigUpdate_def set_cache_def set_index_def Let_def)

lemma EDSUpdate_keeps [simp]:
  "ds_adsClients (EDSUpdate ou shard name ns eps s) = ds_adsClients s"
  "ds_pushQueue (EDSUpdate ou shard name ns eps s) = ds_pushQueue s"
  "ds_pushContext (EDSUpdate ou shard name ns eps s) = ds_pushContext s"
  "ds_cons (EDSUpdate ou shard name ns eps s) = ds_cons s"
  by (simp_all add: EDSUpdate_def Let_def split: prod.splits)

lemma ServiceUpdate_keeps [simp]:
  "ds_adsClients (ServiceUpdate ou shard name ns ev s) = ds_adsClients s"
  "ds_pushQueue (ServiceUpdate ou shard name ns ev s) = ds_pushQueue s"
  "ds_pushContext (ServiceUpdate ou shard name ns ev s) = ds_pushContext s"
  "ds_cons (ServiceUpdate ou shard name ns ev s) = ds_cons s"
  by (simp_all add: ServiceUpdate_def)

lemma close_keeps:
  "fmran' (ds_adsClients (closeConnection c s)) \<subseteq> fmran' (ds_adsClients s)"
  "ds_pushQueue (closeConnection c s) = ds_pushQueue s"
  "ds_pushContext (closeConnection c s) = ds_pushContext s" "ds_cons (closeConnection c s) = ds_cons s"
  by (auto simp: closeConnection_def removeCon_def fmran'_def ran_def split: if_splits)

lemma fresh_serve:
  assumes "serve False se st st'" "fresh_inv st" "\<And>K. is_range (ou_clients (se_outside se) K) K"
  shows "fresh_inv st'"
  using assms(1,2)
proof (induction rule: serve.induct)
  case (init_begin st c node ids s)
  show ?case using fresh_init_begin [OF init_begin.prems init_begin.hyps] by simp
next
  case (init_refused st c node ids e s)
  show ?case using fresh_init_begin [OF init_refused.prems init_refused.hyps] by simp
next
  case (init_end c st s)
  show ?case by (rule fresh_init_end [OF init_end.prems init_end.hyps])
next
  case (proxy_update cluster ip now st s)
  have "set (Clients (se_outside se) (rn_server st)) \<subseteq> registered st"
    by (auto simp: Clients_def set_AllClients [OF assms(3)])
  then show ?case using fresh_proxy_updates [OF proxy_update.prems] proxy_update.hyps by (simp add: ProxyUpdate_def)
next
  case (push now req st s)
  then show ?case
    using fresh_full_push [OF push.prems _ assms(3) push.hyps(1)] fresh_partial_push [OF push.prems assms(3) push.hyps(1)]
    by blast
next
  case (hand_over st c r q)
  show ?case by (rule fresh_hand_over [OF hand_over.prems hand_over.hyps])
next
  case (event c r st io ks e con)
  have "fresh_con st c" using event.prems by (simp add: fresh_inv_def)
  from event_fresh [OF this event.hyps(1)] have proxy: "con_proxy (ds_cons (rn_server st) c) \<noteq> None" by (rule conjunct1)
  have adv: "advance (se_srv se) io (ds_cons (rn_server st) c) con"
    using event.hyps(2) pushConnection_advance pushConnectionDelta_advance by blast
  have ctx: "con_context con = (if pr_Full q then Some (pr_Push q) else con_context (ds_cons (rn_server st) c))" if "r = Some q" for q
    using event.hyps(2) pushConnection_context [OF _ proxy] pushConnectionDelta_context [OF _ proxy] that by blast
  have nil: "con = ds_cons (rn_server st) c" if "r = None"
    using event.hyps(2) that by (auto simp: pushConnection_def pushConnectionDelta_def split: option.splits)
  show ?case
    by (rule fresh_done [OF event.prems event.hyps(1)])
      (use proxy adv ctx nil in \<open>cases r; auto simp: advance_def con_ident_def\<close>)+
next
  case (event_dropped c r st)
  have "fresh_con st c" using event_dropped.prems by (simp add: fresh_inv_def)
  from conjunct1 [OF event_fresh [OF this event_dropped.hyps(1)]] fresh_done [OF event_dropped.prems event_dropped.hyps(1), of "ds_cons (rn_server st) c"] event_dropped.hyps(2)
  show ?case by (simp add: set_con_def)
next
  case (request c st io dreq e con ddreq)
  have "con_context con = con_context (ds_cons (rn_server st) c)"
    using request.hyps(2) processRequest_progress processDeltaRequest_progress by (fastforce simp: progress_def)
  then show ?case by (intro fresh_inv_cong [OF request.prems]) simp_all
next
  case (close c st)
  show ?case by (rule fresh_inv_cong [OF close.prems]) (simp_all add: close_keeps)
qed (erule fresh_inv_cong; force simp: EDSCacheUpdate_def)+

lemma fresh_server_run:
  assumes "server_run False se st" "\<And>K. is_range (ou_clients (se_outside se) K) K"
  shows "fresh_inv st"
  using assms(1)
proof (induction rule: server_run.induct)
  case (start cons env push)
  then show ?case
    by (simp add: fresh_inv_def fresh_con_def idle_def new_running_def NewDiscoveryServer_def)
      (simp add: NewPushQueue_def outstanding_def fmran'_def)
next
  case (more st st')
  show ?case by (rule fresh_serve [OF more.hyps(2) more.IH assms(2)])
qed

section \<open>Examples\<close>

definition example_setting :: "(unit, unit, nat, unit) setting" where
  "example_setting = \<lparr>se_srv = \<lparr>srv_Authorize = Some (\<lambda>_ _. None), srv_Generators = fmempty, srv_ProxyNeedsPush = None,
       srv_GetProxyServiceTargets = (\<lambda>_. [])\<rparr>, se_outside = example_outside, se_proto = example_proto,
     se_unmarshal = (\<lambda>_. Inl (Errorf []))\<rparr>"

definition example_server0 :: "(unit, unit, nat, nat) DiscoveryServer" where
  "example_server0 = NewDiscoveryServer (Snapshot.example_env [] [] (Some NewConfigSnapshot)) (Some example_context)
     (\<lambda>_. \<lparr>con_ID = [], con_proxy = None, con_ids = [], con_authExpiry = zero_time, con_ticks = 0, con_sent = []\<rparr>)"

definition example_node :: "unit Node" where
  "example_node = \<lparr>nd_Id = ''inherent~~pod~app.svc'', nd_Metadata = None\<rparr>"

lemma example_init_begin:
  "\<exists>s. init_begin (se_srv example_setting) (se_unmarshal example_setting) (Some example_node) 0 [] example_server0 = Inr (None, s) \<and>
     ds_Env s = ds_Env example_server0"
proof -
  have "\<exists>proxy. (initProxyMetadata (se_unmarshal example_setting) (Some example_node) ::
      panic + (err + (unit, nat ConfigSnapshot) proxy)) = Inr (Inr proxy)"
    by (simp add: initProxyMetadata_def example_node_def ParseMetadata_def ParseServiceNodeWithMetadata_def
        IsApplicationNodeType_def Inherent_def GetProxyConfigNamespace_def Let_def)
  then show ?thesis
    by (auto simp: init_begin_def example_setting_def connectionID_def set_con_def Let_def)
qed

lemma example_full_push:
  assumes "ds_Env s = ds_Env example_server0"
  shows "\<exists>s'. Push example_outside 1 (zero_PushRequest\<lparr>pr_Full := True\<rparr>) s = Inr s' \<and> ds_pushContext s' \<noteq> Some example_context"
proof -
  let ?env = "Snapshot.example_env [] [] (Some NewConfigSnapshot)" and ?req = "zero_PushRequest\<lparr>pr_Full := True\<rparr> :: nat push_request"
  obtain change where change: "PushRequest_ConfigChange (Some ?req) = Some change" by (simp add: PushRequest_ConfigChange_def)
  obtain built where built: "from_scratch example_orders ?env = Inr built"
    using example_build [of "[]" fmempty] by auto
  have "env_configSnapshot ?env = Some NewConfigSnapshot" "\<not> cs_InitDone NewConfigSnapshot \<or> P" for P
    by (simp_all add: Snapshot.example_env_def NewConfigSnapshot_def)
  from reconcile_returns [OF built this] obtain ps where
    ps: "ReconcileConfig example_orders ?env (Some change) = Inr (?env\<lparr>env_configSnapshot := Some ps\<rparr>)" by blast
  have env: "ds_Env s = ?env" using assms by (simp add: example_server0_def NewDiscoveryServer_def)
  have "ReconcileConfig (ou_orders example_outside) (ds_Env s) (PushRequest_ConfigChange (Some ?req)) =
      Inr (?env\<lparr>env_configSnapshot := Some ps\<rparr>)"
    unfolding env change using ps by (simp add: example_outside_def)
  then have "\<exists>push s'. Push example_outside 1 ?req s = Inr s' \<and> ds_pushContext s' = Some push \<and> pc_PushVersion push \<noteq> []"
    by (simp add: Push_def NextVersion_def initPushContext_def AdsPushAll_def StartPush_def SetPushContext_def Let_def)
  then show ?thesis by (auto simp: example_context_def)
qed

lemma example_start: "server_run overtaking example_setting (new_running example_server0)"
  unfolding example_server0_def by (rule server_run.start) simp

lemma init_end_returns:
  assumes "con_context (ds_cons s c) \<noteq> None"
  shows "\<exists>s'. init_end srv c s = Inr s' \<and> ds_Env s' = ds_Env s"
proof -
  obtain proxy where "con_proxy (ds_cons s c) = Some proxy" using assms by (auto simp: con_context_def)
  then show ?thesis
    by (simp add: init_end_def addCon_def initializeProxy_def computeProxyState_def set_con_def Let_def)
qed

text \<open>A connection after the first part of its initialization.\<close>

lemma example_started:
  obtains s where "serve overtaking example_setting (new_running example_server0)
      (new_running s\<lparr>rn_starting := {|0|}\<rparr>)" "ds_Env s = ds_Env example_server0"
    "con_context (ds_cons s 0) = Some (Some example_context)" "ds_adsClients s = fmempty" "ds_pushQueue s = NewPushQueue"
proof -
  obtain s where s: "init_begin (se_srv example_setting) (se_unmarshal example_setting) (Some example_node) 0 [] example_server0 =
      Inr (None, s)" "ds_Env s = ds_Env example_server0"
    using example_init_begin by blast
  have sel: "ds_pushContext example_server0 = Some example_context" "ds_adsClients example_server0 = fmempty"
      "ds_pushQueue example_server0 = NewPushQueue"
    by (simp_all add: example_server0_def NewDiscoveryServer_def)
  have "con_context (ds_cons s 0) = Some (Some example_context)" "ds_adsClients s = fmempty" "ds_pushQueue s = NewPushQueue"
    using s(1) by (cases rule: init_begin_obtain; simp add: sel)+
  moreover have "serve overtaking example_setting (new_running example_server0) (new_running s\<lparr>rn_starting := {|0|}\<rparr>)"
    using serve.init_begin [of "new_running example_server0" 0 example_setting "Some example_node" "[]" s overtaking] s(1)
    by (simp add: new_running_def) (simp add: example_server0_def NewDiscoveryServer_def)
  ultimately show thesis using that s(2) by blast
qed

section \<open>Properties\<close>




end
