(* ===== verification/Messages.thy ===== *)
theory Messages
  imports Eds
begin

text \<open>
  The messages of the xDS protocol that the generator for proxyless gRPC clients and servers
  (\<^verbatim>\<open>dubbod/discovery/pkg/networking/grpcgen\<close>) builds, as records of the fields it sets, and the small
  helpers of \<^verbatim>\<open>dubbod/discovery/pkg/networking/util/util.go\<close> and of the Go library that it calls. A message
  that is packed into another one is encoded by \<^verbatim>\<open>protoconv.MessageToAny\<close>; this function is a parameter
  of the generator, applied to a value of type \<open>message\<close>.
\<close>

section \<open>Transport security\<close>

record CertificateProviderInstance =
  cp_InstanceName :: string
  cp_CertificateName :: string

text \<open>The last two fields are those of the combined validation context.\<close>

record CommonTlsContext =
  ct_TlsCertificate :: CertificateProviderInstance
  ct_AlpnProtocols :: "string list"
  ct_ValidationProvider :: CertificateProviderInstance
  ct_MatchSubjectAltNames :: "string list"

record UpstreamTlsContext =
  ut_CommonTlsContext :: CommonTlsContext
  ut_Sni :: string

record DownstreamTlsContext =
  dt_CommonTlsContext :: CommonTlsContext
  dt_RequireClientCertificate :: bool

record 'a TransportSocket =
  ts_Name :: string
  ts_TypedConfig :: 'a

section \<open>Clusters\<close>

datatype lb_policy = ROUND_ROBIN | LEAST_REQUEST | RING_HASH | RANDOM

datatype config_source = ADS

record 'a Cluster =
  clu_Name :: string
  clu_AltStatName :: string
  clu_ClusterDiscoveryType :: cluster_type
  clu_ServiceName :: string
  clu_EdsConfig :: config_source
  clu_LbPolicy :: lb_policy
  clu_OverrideHostStatus :: "lb_health list option"
  clu_TransportSocket :: "'a TransportSocket option"

section \<open>Routes\<close>

datatype path_specifier = Prefix string | Path string | SafeRegex string

datatype header_specifier = ExactMatch string | SafeRegexMatch string

record HeaderMatcher =
  hm_Name :: string
  hm_HeaderMatchSpecifier :: header_specifier

record RouteMatch =
  rm_PathSpecifier :: path_specifier
  rm_Headers :: "HeaderMatcher list"

record ClusterWeight =
  cw_Name :: string
  cw_Weight :: "32 word"

record WeightedCluster =
  wc_Clusters :: "ClusterWeight list"
  wc_TotalWeight :: "32 word option"

datatype cluster_specifier = SingleCluster string | WeightedClusters WeightedCluster

text \<open>
  A duration message made by \<^verbatim>\<open>durationpb.New\<close> is represented by its number of nanoseconds, which
  \<^verbatim>\<open>AsDuration\<close> returns.
\<close>

record FaultDelayMsg =
  fdm_FixedDelay :: int
  fdm_Percentage :: "32 word"

record FaultAbortMsg =
  fam_HttpStatus :: "32 word"
  fam_Percentage :: "32 word"

record FaultPolicy =
  fp_Delay :: "FaultDelayMsg option"
  fp_Abort :: "FaultAbortMsg option"

record RetryBackOff =
  rb_BaseInterval :: int
  rb_MaxInterval :: int

record RetryPolicy =
  rp_RetryOn :: string
  rp_NumRetries :: "32 word"
  rp_RetriableStatusCodes :: "32 word list"
  rp_PerTryTimeout :: "int option"
  rp_RetryBackOff :: "RetryBackOff option"

record RouteAction =
  ac_ClusterSpecifier :: cluster_specifier
  ac_Timeout :: "int option"
  ac_RetryPolicy :: "RetryPolicy option"
  ac_FaultPolicy :: "FaultPolicy option"

datatype route_action = Route_Route RouteAction | Route_NonForwardingAction

record Route =
  ro_Match :: RouteMatch
  ro_Action :: route_action

record VirtualHost =
  vh_Name :: string
  vh_Domains :: "string list"
  vh_Routes :: "Route list"

record RouteConfiguration =
  rc_Name :: string
  rc_VirtualHosts :: "VirtualHost list"

section \<open>HTTP filters\<close>

record JwtProvider =
  jp_Issuer :: string
  jp_Audiences :: "string list"
  jp_JwksUri :: string
  jp_Jwks :: string
  jp_FromHeaders :: "JWTHeader list"
  jp_FromParams :: "string list"

record JwtAuthentication =
  ja_Providers :: "JwtProvider list"
  ja_AllowMissing :: bool

record RbacRule =
  rr_Sources :: "Source list"
  rr_When :: "Condition list"

datatype rbac_action = RBAC_ALLOW | RBAC_DENY

record RBAC =
  rbac_Action :: rbac_action
  rbac_Rules :: "RbacRule list"

record 'a HttpFilter =
  hf_Name :: string
  hf_TypedConfig :: 'a

section \<open>Listeners\<close>

datatype hcm_routes = RdsRoutes config_source string | RouteConfig RouteConfiguration

text \<open>The type of the codec is always \<^verbatim>\<open>AUTO\<close>.\<close>

record 'a HttpConnectionManager =
  hcm_StatPrefix :: string
  hcm_RouteSpecifier :: hcm_routes
  hcm_HttpFilters :: "'a HttpFilter list"

record FilterChainMatch =
  fcm_TransportProtocol :: string
  fcm_ApplicationProtocols :: "string list"

record 'a FilterChain =
  fc_Name :: string
  fc_FilterChainMatch :: "FilterChainMatch option"
  fc_Filters :: "'a Filter list"
  fc_TransportSocket :: "'a TransportSocket option"

record 'a ListenerMsg =
  lis_Name :: string
  lis_Address :: Address
  lis_AdditionalAddresses :: "Address list"
  lis_FilterChains :: "'a FilterChain list"
  lis_ApiListener :: "'a option"

section \<open>Encoding\<close>

datatype 'a message =
    ClusterMessage "'a Cluster"
  | UpstreamTls UpstreamTlsContext
  | DownstreamTls DownstreamTlsContext
  | RouteConfigurationMessage RouteConfiguration
  | JwtAuthenticationMessage JwtAuthentication
  | RBACMessage RBAC
  | RouterMessage
  | HttpConnectionManagerMessage "'a HttpConnectionManager"
  | ListenerMessage "'a ListenerMsg"

section \<open>Helpers\<close>

definition DelimitedStatsPrefix :: "string \<Rightarrow> string" where
  "DelimitedStatsPrefix statPrefix = statPrefix @ '';''"

definition BuildAdditionalAddresses :: "string list \<Rightarrow> 32 word \<Rightarrow> Address list" where
  "BuildAdditionalAddresses extrAddresses listenPort =
     map (\<lambda>exbd. BuildAddress exbd listenPort) (filter (\<lambda>exbd. exbd \<noteq> []) extrAddresses)"

text \<open>\<^verbatim>\<open>strings.ToUpper\<close> of a string of ASCII characters.\<close>

definition to_upper :: "char \<Rightarrow> char" where
  "to_upper c = (if 97 \<le> (of_char c :: nat) \<and> (of_char c :: nat) \<le> 122 then char_of (of_char c - 32 :: nat) else c)"

definition ToUpper :: "string \<Rightarrow> string" where
  "ToUpper s = map to_upper s"

definition TrimSuffix :: "string \<Rightarrow> string \<Rightarrow> string" where
  "TrimSuffix s p = (if HasSuffix s p then take (length s - length p) s else s)"

text \<open>
  The common part of every TLS context: workload certificates and the root of trust come from the
  certificate provider; \<open>sans\<close> restricts the identities that the peer may have.
\<close>

definition buildCommonTLSContext :: "string list \<Rightarrow> CommonTlsContext" where
  "buildCommonTLSContext sans =
     \<lparr>ct_TlsCertificate = \<lparr>cp_InstanceName = ''default'', cp_CertificateName = ''default''\<rparr>, ct_AlpnProtocols = [],
      ct_ValidationProvider = \<lparr>cp_InstanceName = ''default'', cp_CertificateName = ''ROOTCA''\<rparr>,
      ct_MatchSubjectAltNames = sans\<rparr>"

lemma digit_char_eval:
  "digit_char 0 = CHR ''0''"
  "digit_char 1 = CHR ''1''"
  "digit_char 2 = CHR ''2''"
  "digit_char 3 = CHR ''3''"
  "digit_char 4 = CHR ''4''"
  "digit_char 5 = CHR ''5''"
  "digit_char 6 = CHR ''6''"
  "digit_char 7 = CHR ''7''"
  "digit_char 8 = CHR ''8''"
  "digit_char 9 = CHR ''9''"
  by code_simp+

end
