(* ===== verification/Clusters.thy ===== *)
theory Clusters
  imports Messages
begin

text \<open>
  Cluster discovery for proxyless gRPC clients: \<^verbatim>\<open>dubbod/discovery/pkg/networking/grpcgen/cds.go\<close> and the
  incremental generation of clusters in \<^verbatim>\<open>grpcgen.go\<close>. The parameter \<open>any\<close> encodes a message, \<open>lb\<close> is the
  value of \<^verbatim>\<open>DUBBO_DEFAULT_LB_POLICY\<close>, \<open>rng\<close> the order in which the namespaces of a host name are
  visited and \<open>ks\<close> the order of a loop over a map or a set of names.
\<close>

section \<open>Building clusters\<close>

type_synonym 'g push_context = "'g ConfigSnapshot PushContext"

text \<open>The fields \<^verbatim>\<open>push\<close> and \<^verbatim>\<open>node\<close> of the builder are arguments of its methods; \<^verbatim>\<open>node\<close> is only logged.\<close>

record clusterBuilder =
  cb_defaultClusterName :: string
  cb_hostname :: host_name
  cb_portNum :: int
  cb_svc :: Service
  cb_filter :: "string gset"

definition newClusterFilter :: "string list \<Rightarrow> (string, string fset) fmap" where
  "newClusterFilter names =
     fold (\<lambda>name filter. case ParseSubsetKey name of (dir, _, hn, p) \<Rightarrow>
        InsertOrNew filter (BuildSubsetKey dir [] hn p) name) names fmempty"

definition newClusterBuilder ::
    "(string fset \<Rightarrow> string list) \<Rightarrow> 'g push_context option \<Rightarrow> string \<Rightarrow> string gset \<Rightarrow>
       panic + (err + clusterBuilder)" where
  "newClusterBuilder rng push defaultClusterName subsetFilter =
     (case ParseSubsetKey defaultClusterName of (_, _, hostname, portNum) \<Rightarrow>
        if hostname = [] \<or> portNum = 0 then Inr (Inl (Errorf ''failed parsing subset key''))
        else case push of None \<Rightarrow> Inl NilDeref
        | Some push \<Rightarrow>
            (case ServiceForHostname rng (pc_ConfigSnapshot push) hostname of
               None \<Rightarrow> Inr (Inl (Errorf ''did not find service for cluster''))
             | Some svc \<Rightarrow>
                 map_sum id (\<lambda>(_, ok).
                   if \<not> ok then Inl (Errorf ''did not find port in service for cluster'')
                   else Inr \<lparr>cb_defaultClusterName = defaultClusterName, cb_hostname = hostname,
                     cb_portNum = portNum, cb_svc = svc, cb_filter = subsetFilter\<rparr>)
                   (GetByPort (service_ports svc) portNum)))"

definition defaultLbPolicy :: "string \<Rightarrow> lb_policy" where
  "defaultLbPolicy lb =
     (let s = ToUpper lb in
      if s = ''LEAST_REQUEST'' then LEAST_REQUEST
      else if s = ''RING_HASH'' then RING_HASH
      else if s = ''RANDOM'' then RANDOM
      else ROUND_ROBIN)"

definition edsCluster :: "string \<Rightarrow> string \<Rightarrow> 'a Cluster" where
  "edsCluster lb name =
     \<lparr>clu_Name = name, clu_AltStatName = DelimitedStatsPrefix name, clu_ClusterDiscoveryType = Cluster_EDS,
      clu_ServiceName = name, clu_EdsConfig = ADS, clu_LbPolicy = defaultLbPolicy lb,
      clu_OverrideHostStatus = None, clu_TransportSocket = None\<rparr>"

definition requiresPeerAuthenticationMTLS :: "'g push_context option \<Rightarrow> clusterBuilder \<Rightarrow> panic + bool" where
  "requiresPeerAuthenticationMTLS push b =
     (case push of None \<Rightarrow> Inr False
      | Some push \<Rightarrow>
          if cs_AuthenticationPolicies (pc_ConfigSnapshot push) = None then Inr False
          else map_sum id (\<lambda>mode. mode = MTLSStrict)
            (EffectiveMutualTLSMode (cs_AuthenticationPolicies (pc_ConfigSnapshot push))
              (sa_Namespace (svc_Attributes (cb_svc b))) fmempty (word_of_int (cb_portNum b))))"

text \<open>The identities the upstream may have: those of the service, else those under the requested name.\<close>

definition upstream_sans :: "'g push_context \<Rightarrow> clusterBuilder \<Rightarrow> string list" where
  "upstream_sans push b =
     (let accounts = (\<lambda>h. ServiceAccounts (pc_ConfigSnapshot push) h (sa_Namespace (svc_Attributes (cb_svc b))));
          sans = accounts (svc_Hostname (cb_svc b))
      in if sans = [] \<and> cb_hostname b \<noteq> svc_Hostname (cb_svc b) then accounts (cb_hostname b) else sans)"

definition buildUpstreamTLSContext :: "'g push_context \<Rightarrow> clusterBuilder \<Rightarrow> 'a Cluster \<Rightarrow> UpstreamTlsContext" where
  "buildUpstreamTLSContext push b c =
     \<lparr>ut_CommonTlsContext = (buildCommonTLSContext (upstream_sans push b))\<lparr>ct_AlpnProtocols := [''h2'']\<rparr>,
      ut_Sni = (if svc_Hostname (cb_svc b) \<noteq> [] then svc_Hostname (cb_svc b)
        else let parts = Split (clu_Name c) (CHR ''|'')
             in if length parts \<ge> 4 then parts ! 3 else clu_Name c)\<rparr>"

definition applyPeerAuthenticationMTLS ::
    "('a message \<Rightarrow> 'a) \<Rightarrow> 'g push_context \<Rightarrow> clusterBuilder \<Rightarrow> 'a Cluster \<Rightarrow> 'a Cluster" where
  "applyPeerAuthenticationMTLS any push b c =
     (if clu_TransportSocket c \<noteq> None then c
      else c\<lparr>clu_TransportSocket := Some \<lparr>ts_Name = ''transport_sockets.tls'',
        ts_TypedConfig = any (UpstreamTls (buildUpstreamTLSContext push b c))\<rparr>\<rparr>)"

definition build ::
    "('a message \<Rightarrow> 'a) \<Rightarrow> string \<Rightarrow> 'g push_context option \<Rightarrow> clusterBuilder \<Rightarrow> panic + 'a Cluster list" where
  "build any lb push b =
     (let defaultRequested = (case cb_filter b of None \<Rightarrow> True | Some _ \<Rightarrow> Contains (cb_filter b) (cb_defaultClusterName b)) in
      if \<not> defaultRequested then Inr []
      else let defaultCluster = (edsCluster lb (cb_defaultClusterName b))
             \<lparr>clu_OverrideHostStatus := Some [HEALTHY, UNHEALTHY, DRAINING, UNKNOWN, DEGRADED]\<rparr>
      in map_sum id (\<lambda>required. case push of
             Some push \<Rightarrow> [if required then applyPeerAuthenticationMTLS any push b defaultCluster else defaultCluster]
           | None \<Rightarrow> [defaultCluster])
           (requiresPeerAuthenticationMTLS push b))"

fun build_all ::
    "('a message \<Rightarrow> 'a) \<Rightarrow> string \<Rightarrow> (string fset \<Rightarrow> string list) \<Rightarrow> 'g push_context option \<Rightarrow>
       (string, string fset) fmap \<Rightarrow> string list \<Rightarrow> panic + 'a Cluster list" where
  "build_all any lb rng push flt [] = Inr []"
| "build_all any lb rng push flt (name # names) =
     bind_panic (newClusterBuilder rng push name (fmlookup flt name)) (\<lambda>r.
     case r of Inl _ \<Rightarrow> build_all any lb rng push flt names
     | Inr builder \<Rightarrow>
         bind_panic (build any lb push builder) (\<lambda>clusters.
         map_sum id (\<lambda>rest. clusters @ rest) (build_all any lb rng push flt names)))"

definition cluster_resource :: "('a message \<Rightarrow> 'a) \<Rightarrow> 'a Cluster \<Rightarrow> 'a Resource" where
  "cluster_resource any c = \<lparr>res_Name = clu_Name c, res_Resource = any (ClusterMessage c)\<rparr>"

definition BuildClusters ::
    "('a message \<Rightarrow> 'a) \<Rightarrow> string \<Rightarrow> (string fset \<Rightarrow> string list) \<Rightarrow> (string fset \<Rightarrow> string list) \<Rightarrow>
       'g push_context option \<Rightarrow> string list \<Rightarrow> panic + 'a Resource list" where
  "BuildClusters any lb rng ks push names =
     (let filter = newClusterFilter names
      in map_sum id (map (cluster_resource any)) (build_all any lb rng push filter (ks (fmdom filter))))"

section \<open>Incremental generation\<close>

definition grpcCanUseDeltaClusters :: "'p PushRequest option \<Rightarrow> bool" where
  "grpcCanUseDeltaClusters req =
     (case req of None \<Rightarrow> False
      | Some req \<Rightarrow>
          if pr_Forced req \<or> Len (pr_ConfigsUpdated req) = 0 then False
          else \<not> fBex (elems (pr_ConfigsUpdated req)) (\<lambda>cfg. ck_Kind cfg \<noteq> KindService \<or> ck_Name cfg = []))"

definition grpcDeltaClusterNames :: "'r WatchedResource \<Rightarrow> 'p PushRequest \<Rightarrow> string gset" where
  "grpcDeltaClusterNames w req =
     (let updatedServices = ck_Name |`| elems (pr_ConfigsUpdated req)
      in Some (ffilter (\<lambda>clusterName. ParseSubsetKeyHostname clusterName |\<in>| updatedServices) (elems (wr_ResourceNames w))))"

text \<open>The branch of \<^verbatim>\<open>GenerateDeltas\<close> for clusters when only services changed.\<close>

definition delta_clusters ::
    "('a message \<Rightarrow> 'a) \<Rightarrow> string \<Rightarrow> (string fset \<Rightarrow> string list) \<Rightarrow> (string fset \<Rightarrow> string list) \<Rightarrow>
       'r WatchedResource \<Rightarrow> 'g push_context PushRequest \<Rightarrow>
       panic + ('a Resource list option \<times> string list option \<times> XdsLogDetails \<times> bool)" where
  "delta_clusters any lb rng ks w req =
     (let changedNames = grpcDeltaClusterNames w req in
      if Len changedNames = 0 then Inr (None, None, DefaultXdsLogDetails, True)
      else map_sum id (\<lambda>resources.
          let built = fset_of_list (map res_Name resources);
              removed = DeleteAll (Copy changedNames) (ks built)
          in (Some resources, Some (SortedList (ks (elems removed)) removed),
              DefaultXdsLogDetails\<lparr>Incremental := True\<rparr>, True))
        (BuildClusters any lb rng ks (pr_Push req) (SortedList (ks (elems changedNames)) changedNames)))"

section \<open>Which clusters are built\<close>

text \<open>
  A snapshot on which cluster generation does not panic: no service has a \<^verbatim>\<open>nil\<close> port and the mutual
  TLS mode of every port can be computed.
\<close>

definition generates_safely :: "(string fset \<Rightarrow> string list) \<Rightarrow> 'g ConfigSnapshot \<Rightarrow> bool" where
  "generates_safely rng ps \<longleftrightarrow>
     (\<forall>h s. ServiceForHostname rng ps h = Some s \<longrightarrow> None \<notin> set (service_ports s)) \<and>
     (\<forall>ns port. \<exists>m. EffectiveMutualTLSMode (cs_AuthenticationPolicies ps) ns fmempty port = Inr m)"

definition has_port :: "Service \<Rightarrow> int \<Rightarrow> bool" where
  "has_port s num \<longleftrightarrow> (\<exists>p. Some p \<in> set (service_ports s) \<and> port_Port p = num)"

definition strict_for_clients :: "'g ConfigSnapshot \<Rightarrow> Service \<Rightarrow> int \<Rightarrow> bool" where
  "strict_for_clients ps s port \<longleftrightarrow>
     EffectiveMutualTLSMode (cs_AuthenticationPolicies ps) (sa_Namespace (svc_Attributes s)) fmempty (word_of_int port) =
       Inr MTLSStrict"

definition default_key :: "string \<Rightarrow> string" where
  "default_key name = (case ParseSubsetKey name of (dir, _, hn, p) \<Rightarrow> BuildSubsetKey dir [] hn p)"

text \<open>
  The cluster that a name stands for: there is one when the name is the default key of a port of a
  known service, and it is secured exactly when the port is strict.
\<close>

definition plain_cluster :: "string \<Rightarrow> string \<Rightarrow> 'a Cluster" where
  "plain_cluster lb name =
     \<lparr>clu_Name = name, clu_AltStatName = name @ '';'', clu_ClusterDiscoveryType = Cluster_EDS, clu_ServiceName = name,
      clu_EdsConfig = ADS, clu_LbPolicy = defaultLbPolicy lb,
      clu_OverrideHostStatus = Some [HEALTHY, UNHEALTHY, DRAINING, UNKNOWN, DEGRADED], clu_TransportSocket = None\<rparr>"

definition service_identities :: "'g ConfigSnapshot \<Rightarrow> host_name \<Rightarrow> Service \<Rightarrow> string list" where
  "service_identities ps hostname s =
     (let ns = sa_Namespace (svc_Attributes s); own = ServiceAccounts ps (svc_Hostname s) ns
      in if own = [] then ServiceAccounts ps hostname ns else own)"

definition upstream_tls :: "'g ConfigSnapshot \<Rightarrow> host_name \<Rightarrow> Service \<Rightarrow> UpstreamTlsContext" where
  "upstream_tls ps hostname s =
     \<lparr>ut_CommonTlsContext =
        \<lparr>ct_TlsCertificate = \<lparr>cp_InstanceName = ''default'', cp_CertificateName = ''default''\<rparr>,
         ct_AlpnProtocols = [''h2''],
         ct_ValidationProvider = \<lparr>cp_InstanceName = ''default'', cp_CertificateName = ''ROOTCA''\<rparr>,
         ct_MatchSubjectAltNames = service_identities ps hostname s\<rparr>,
      ut_Sni = (if svc_Hostname s \<noteq> [] then svc_Hostname s else hostname)\<rparr>"

definition cluster_for ::
    "('a message \<Rightarrow> 'a) \<Rightarrow> string \<Rightarrow> (string fset \<Rightarrow> string list) \<Rightarrow> 'g ConfigSnapshot \<Rightarrow> string \<Rightarrow> 'a Cluster option" where
  "cluster_for any lb rng ps name =
     (case ParseSubsetKey name of (dir, _, hostname, port) \<Rightarrow>
        if BuildSubsetKey dir [] hostname port \<noteq> name \<or> hostname = [] \<or> port = 0 then None
        else case ServiceForHostname rng ps hostname of None \<Rightarrow> None
        | Some s \<Rightarrow>
            if \<not> has_port s port then None
            else if strict_for_clients ps s port
            then Some ((plain_cluster lb name)\<lparr>clu_TransportSocket :=
              Some \<lparr>ts_Name = ''transport_sockets.tls'', ts_TypedConfig = any (UpstreamTls (upstream_tls ps hostname s))\<rparr>\<rparr>)
            else Some (plain_cluster lb name))"

lemma cluster_for_name: "cluster_for any lb rng ps name = Some c \<Longrightarrow> clu_Name c = name"
  by (auto simp: cluster_for_def plain_cluster_def split: prod.splits if_splits option.splits)

lemma cluster_for_key: "cluster_for any lb rng ps name = Some c \<Longrightarrow> default_key name = name"
  by (auto simp: cluster_for_def default_key_def split: prod.splits if_splits)

lemma Cut_append: "Cut s sep = (a, b, True) \<Longrightarrow> s = a @ sep @ b"
  by (induction s arbitrary: a b)
    (auto simp: HasPrefix_iff prefix_def split: if_splits prod.splits)

text \<open>A default key is cut at its bars, so that both parsers find the same host name in it.\<close>

lemma default_key_bars:
  assumes "default_key name = name" and "ParseSubsetKey name = (dir, ss, hostname, port)"
  shows "name = dir @ ''|'' @ Itoa port @ ''||'' @ hostname \<and> CHR ''|'' \<notin> set dir \<and> CHR ''|'' \<notin> set hostname"
proof -
  have name: "name = dir @ ''|'' @ Itoa port @ ''||'' @ hostname"
    using assms by (simp add: default_key_def BuildSubsetKey_def)
  show ?thesis
  proof (cases "prefix ''outbound_'' name \<or> prefix ''inbound_'' name")
    case True
    obtain d r found where cut: "Cut name ''_.'' = (d, r, found)" by (cases "Cut name ''_.''") auto
    have "found \<and> d = dir \<or> dir = []"
      using assms(2) True cut
      by (auto simp: ParseSubsetKey_def srv_prefix_iff Let_def split: prod.splits if_splits)
    then show ?thesis
      using name True Cut_append [of name "''_.''" d r] cut by auto
  next
    case False
    have "CHR ''|'' \<notin> set dir \<and> CHR ''|'' \<notin> set hostname"
      using assms(2) False
      by (cases rule: Cut_cases [of "CHR ''|''" name])
        (auto simp: ParseSubsetKey_def srv_prefix_iff Let_def split: prod.splits if_splits)
    then show ?thesis using name by blast
  qed
qed

lemma default_key_hostname:
  assumes "default_key name = name" and "ParseSubsetKey name = (dir, ss, hostname, port)"
  shows "ParseSubsetKeyHostname name = hostname" and "3 < length (Split name (CHR ''|''))"
    and "Split name (CHR ''|'') ! 3 = hostname"
proof -
  have name: "name = (dir @ ''|'' @ Itoa port @ ''|'') @ CHR ''|'' # hostname"
    and bars: "CHR ''|'' \<notin> set dir" "CHR ''|'' \<notin> set hostname"
    using default_key_bars [OF assms] by auto
  show "ParseSubsetKeyHostname name = hostname"
    unfolding name using bars(2) by (rule ParseSubsetKeyHostname_last)
  have "Split name (CHR ''|'') = [dir, Itoa port, [], hostname]"
    unfolding name using bars Split_append [of "CHR ''|''" "[]"]
    by (simp add: Split_append Split_no_sep)
  then show "3 < length (Split name (CHR ''|''))" and "Split name (CHR ''|'') ! 3 = hostname" by simp_all
qed

lemma GetByPort_safe:
  "None \<notin> set ports \<Longrightarrow>
     \<exists>p. GetByPort ports num = Inr (p, \<exists>q. Some q \<in> set ports \<and> port_Port q = num)"
proof (induction ports)
  case (Cons a ports)
  then show ?case by (cases a) auto
qed simp

lemma newClusterFilter_fold:
  "elems (fmlookup (fold (\<lambda>name filter. case ParseSubsetKey name of (dir, _, hn, p) \<Rightarrow>
     InsertOrNew filter (BuildSubsetKey dir [] hn p) name) names m) k) =
   elems (fmlookup m k) |\<union>| ffilter (\<lambda>n. default_key n = k) (fset_of_list names)" (is ?L)
  and newClusterFilter_fold_dom:
  "fmdom (fold (\<lambda>name filter. case ParseSubsetKey name of (dir, _, hn, p) \<Rightarrow>
     InsertOrNew filter (BuildSubsetKey dir [] hn p) name) names m) =
   fmdom m |\<union>| default_key |`| fset_of_list names" (is ?D)
proof -
  have step: "(case ParseSubsetKey name of (dir, _, hn, p) \<Rightarrow> InsertOrNew m (BuildSubsetKey dir [] hn p) name) =
      InsertOrNew m (default_key name) name" for name and m :: "(string, string fset) fmap"
    by (simp add: default_key_def split: prod.splits)
  have dom: "fmdom (InsertOrNew m x v) = finsert x (fmdom m)" for m :: "(string, string fset) fmap" and x v
    by (auto simp: InsertOrNew_def split: option.splits)
  show ?L
    by (induction names arbitrary: m) (auto simp: step lookup_InsertOrNew fset_eq_iff)
  show ?D
    by (induction names arbitrary: m) (auto simp: step dom)
qed

lemma lookup_newClusterFilter:
  "elems (fmlookup (newClusterFilter names) k) = ffilter (\<lambda>n. default_key n = k) (fset_of_list names)"
  by (simp add: newClusterFilter_def newClusterFilter_fold)

lemma fmdom_newClusterFilter: "fmdom (newClusterFilter names) = default_key |`| fset_of_list names"
  by (simp add: newClusterFilter_def newClusterFilter_fold_dom)

lemma upstream_tls_built:
  assumes "default_key name = name" and "ParseSubsetKey name = (dir, ss, hostname, port)"
    and "cb_svc b = s" "cb_hostname b = hostname" "clu_Name c = name"
  shows "buildUpstreamTLSContext push b c = upstream_tls (pc_ConfigSnapshot push) hostname s"
  using default_key_hostname(2,3) [OF assms(1,2)] assms(3-5)
  by (auto simp: buildUpstreamTLSContext_def upstream_tls_def buildCommonTLSContext_def upstream_sans_def
      service_identities_def Let_def)

definition opt_list :: "'b option \<Rightarrow> 'b list" where
  "opt_list x = (case x of None \<Rightarrow> [] | Some y \<Rightarrow> [y])"

text \<open>What one iteration of the loop over the filter adds.\<close>

lemma build_one:
  fixes any :: "'a message \<Rightarrow> 'a"
  assumes safe: "generates_safely rng (pc_ConfigSnapshot push)"
    and key: "key |\<in>| S \<Longrightarrow> default_key key = key"
  shows "bind_panic (newClusterBuilder rng (Some push) key (Some S))
      (\<lambda>r. case r of Inl _ \<Rightarrow> Inr [] | Inr b \<Rightarrow> build any lb (Some push) b) =
    Inr (if key |\<in>| S then opt_list (cluster_for any lb rng (pc_ConfigSnapshot push) key) else [])"
proof -
  obtain dir ss hostname port where parse: "ParseSubsetKey key = (dir, ss, hostname, port)"
    by (cases "ParseSubsetKey key") auto
  let ?ps = "pc_ConfigSnapshot push"
  show ?thesis
  proof (cases "hostname = [] \<or> port = 0 \<or> ServiceForHostname rng ?ps hostname = None")
    case True
    then show ?thesis
      by (auto simp: newClusterBuilder_def parse cluster_for_def opt_list_def)
  next
    case False
    then obtain s where s: "ServiceForHostname rng ?ps hostname = Some s" by auto
    with safe have "None \<notin> set (service_ports s)" by (auto simp: generates_safely_def)
    then obtain p where p: "GetByPort (service_ports s) port = Inr (p, has_port s port)"
      using GetByPort_safe unfolding has_port_def by blast
    let ?b = "\<lparr>cb_defaultClusterName = key, cb_hostname = hostname, cb_portNum = port, cb_svc = s, cb_filter = Some S\<rparr>"
    have builder: "newClusterBuilder rng (Some push) key (Some S) =
        Inr (if has_port s port then Inr ?b else Inl (Errorf ''did not find port in service for cluster''))"
      using False s p by (simp add: newClusterBuilder_def parse)
    obtain m where m: "EffectiveMutualTLSMode (cs_AuthenticationPolicies ?ps) (sa_Namespace (svc_Attributes s)) fmempty
        (word_of_int port) = Inr m"
      using safe unfolding generates_safely_def by blast
    have strict: "requiresPeerAuthenticationMTLS (Some push) ?b = Inr (strict_for_clients ?ps s port)"
      using m by (auto simp: requiresPeerAuthenticationMTLS_def strict_for_clients_def EffectiveMutualTLSMode_def)
    show ?thesis
    proof (cases "has_port s port \<and> key |\<in>| S")
      case True
      then have same: "BuildSubsetKey dir [] hostname port = key" and dk: "default_key key = key"
        using key parse by (auto simp: default_key_def)
      have tls: "clu_Name c = key \<Longrightarrow> buildUpstreamTLSContext push ?b c = upstream_tls ?ps hostname s" for c :: "'a Cluster"
        by (rule upstream_tls_built [OF dk parse]) simp_all
      have "build any lb (Some push) ?b = Inr (opt_list (cluster_for any lb rng ?ps key))"
        using True False s tls
        by (simp add: build_def strict Let_def cluster_for_def parse opt_list_def edsCluster_def plain_cluster_def same
            DelimitedStatsPrefix_def applyPeerAuthenticationMTLS_def)
      then show ?thesis using True by (simp add: builder)
    next
      case no: False
      then show ?thesis
        using False s by (auto simp: builder build_def cluster_for_def parse opt_list_def)
    qed
  qed
qed

lemma build_all_eq:
  assumes "generates_safely rng (pc_ConfigSnapshot push)"
    and "\<And>key. key \<in> set keys \<Longrightarrow> \<exists>S. fmlookup flt key = Some S \<and> (key |\<in>| S \<longrightarrow> default_key key = key)"
  shows "build_all any lb rng (Some push) flt keys =
    Inr (concat (map (\<lambda>key. if Contains (fmlookup flt key) key
      then opt_list (cluster_for any lb rng (pc_ConfigSnapshot push) key) else []) keys))"
  using assms(2)
proof (induction keys)
  case Nil
  then show ?case by simp
next
  case (Cons key keys)
  obtain S where S: "fmlookup flt key = Some S" and key: "key |\<in>| S \<Longrightarrow> default_key key = key"
    using Cons.prems [of key] by auto
  note one = build_one [OF assms(1), of key S any lb, OF key]
  show ?case
  proof (cases "newClusterBuilder rng (Some push) key (fmlookup flt key)")
    case (Inr r)
    then show ?thesis
      using one Cons.IH Cons.prems S by (cases r) (auto split: if_splits)
  qed (use one S in auto)
qed

text \<open>
  The clusters of a list of names: those of the names that stand for one, each once, in the order of
  the loop over the filter.
\<close>

lemma BuildClusters_eq:
  assumes "generates_safely rng (pc_ConfigSnapshot push)"
    and "is_range (ks (fmdom (newClusterFilter names))) (fmdom (newClusterFilter names))"
  shows "BuildClusters any lb rng ks (Some push) names =
    Inr (map (cluster_resource any) (concat (map (\<lambda>key. if key \<in> set names
      then opt_list (cluster_for any lb rng (pc_ConfigSnapshot push) key) else []) (ks (fmdom (newClusterFilter names))))))"
proof -
  let ?f = "newClusterFilter names"
  have dom: "key |\<in>| fmdom ?f" if "key \<in> set (ks (fmdom ?f))" for key
    using that is_range_set [OF assms(2)] by auto
  have "\<exists>S. fmlookup ?f key = Some S \<and> (key |\<in>| S \<longrightarrow> default_key key = key)" if "key \<in> set (ks (fmdom ?f))" for key
    using dom [OF that] lookup_newClusterFilter [of names key] by (auto simp: fmlookup_dom_iff)
  note all = build_all_eq [OF assms(1) this]
  have "(if Contains (fmlookup ?f key) key then opt_list (cluster_for any lb rng (pc_ConfigSnapshot push) key) else []) =
      (if key \<in> set names then opt_list (cluster_for any lb rng (pc_ConfigSnapshot push) key) else [])" for key
    using cluster_for_key [of any lb rng "pc_ConfigSnapshot push" key]
    by (cases "cluster_for any lb rng (pc_ConfigSnapshot push) key")
      (auto simp: lookup_newClusterFilter fset_of_list.rep_eq opt_list_def)
  then show ?thesis by (simp add: BuildClusters_def all)
qed

lemma set_SortedList:
  assumes "is_range ks (elems s)"
  shows "set (SortedList ks s) = fset (elems s)"
  by (simp add: SortedList_eq [OF assms] sorted_list_of_fset.rep_eq)

lemma clusters_named:
  assumes "\<And>key c. f key = Some c \<Longrightarrow> clu_Name c = key"
  shows "map clu_Name (concat (map (\<lambda>key. opt_list (f key)) keys)) = filter (\<lambda>key. f key \<noteq> None) keys"
  using assms by (induction keys) (auto simp: opt_list_def split: option.splits)

text \<open>What a client holds after a response, and after it applied an incremental response.\<close>

definition received :: "'a Resource list \<Rightarrow> string \<Rightarrow> 'a option" where
  "received resources = map_of (map (\<lambda>r. (res_Name r, res_Resource r)) resources)"

definition apply_response ::
    "'a Resource list option \<Rightarrow> string list option \<Rightarrow> (string \<Rightarrow> 'a option) \<Rightarrow> string \<Rightarrow> 'a option" where
  "apply_response resources removed held name =
     (case received (case resources of None \<Rightarrow> [] | Some rs \<Rightarrow> rs) name of
        Some r \<Rightarrow> Some r
      | None \<Rightarrow> if name \<in> set (case removed of None \<Rightarrow> [] | Some ns \<Rightarrow> ns) then None else held name)"

lemma received_clusters:
  assumes "\<And>key c. f key = Some c \<Longrightarrow> clu_Name c = key"
  shows "received (map (cluster_resource any) (concat (map (\<lambda>key. opt_list (f key)) keys))) name =
     (if name \<in> set keys then map_option (\<lambda>c. any (ClusterMessage c)) (f name) else None)"
  using assms
  by (induction keys) (auto simp: received_def opt_list_def cluster_resource_def split: option.splits)

lemma BuildClusters_received:
  assumes safe: "generates_safely rng (pc_ConfigSnapshot push)"
    and ks: "\<And>K. is_range (ks K) K"
  obtains res where "BuildClusters any lb rng ks (Some push) names = Inr res"
    and "distinct (map res_Name res)"
    and "\<And>name. received res name =
      (if name \<in> set names then map_option (\<lambda>c. any (ClusterMessage c)) (cluster_for any lb rng (pc_ConfigSnapshot push) name)
       else None)"
    and "set res = {cluster_resource any c |name c. name \<in> set names \<and> cluster_for any lb rng (pc_ConfigSnapshot push) name = Some c}"
    and "set (map res_Name res) = {name \<in> set names. cluster_for any lb rng (pc_ConfigSnapshot push) name \<noteq> None}"
proof -
  let ?ps = "pc_ConfigSnapshot push" and ?keys = "ks (fmdom (newClusterFilter names))"
  let ?f = "\<lambda>key. if key \<in> set names then cluster_for any lb rng ?ps key else None"
  let ?cs = "concat (map (\<lambda>key. opt_list (?f key)) ?keys)"
  have "(if key \<in> set names then opt_list (cluster_for any lb rng ?ps key) else []) = opt_list (?f key)" for key
    by (simp add: opt_list_def)
  with BuildClusters_eq [OF safe, where ks = ks and names = names and any = any and lb = lb, OF ks]
  have res: "BuildClusters any lb rng ks (Some push) names = Inr (map (cluster_resource any) ?cs)"
    by presburger
  have name: "?f key = Some c \<Longrightarrow> clu_Name c = key" for key c
    by (auto split: if_splits dest: cluster_for_name)
  have keys: "set ?keys = default_key ` set names"
    using is_range_set [OF ks] by (simp add: fmdom_newClusterFilter fset_of_list.rep_eq)
  have key: "key \<in> set ?keys" if "?f key = Some c" for key c
    using that cluster_for_key [of any lb rng ?ps key c] keys by (force split: if_splits)
  have names: "map res_Name (map (cluster_resource any) ?cs) = filter (\<lambda>key. ?f key \<noteq> None) ?keys"
    using clusters_named [of ?f, OF name] by (simp add: comp_def cluster_resource_def)
  show thesis
  proof (rule that [OF res])
    show "distinct (map res_Name (map (cluster_resource any) ?cs))"
      unfolding names using is_range_distinct [OF ks] by simp
    show "received (map (cluster_resource any) ?cs) name =
        (if name \<in> set names then map_option (\<lambda>c. any (ClusterMessage c)) (cluster_for any lb rng ?ps name) else None)" for name
      using received_clusters [of ?f any ?keys name, OF name] key [of name] by fastforce
    show "set (map (cluster_resource any) ?cs) =
        {cluster_resource any c |name c. name \<in> set names \<and> cluster_for any lb rng ?ps name = Some c}"
      using key by (fastforce simp: opt_list_def split: option.splits if_splits)
    show "set (map res_Name (map (cluster_resource any) ?cs)) = {name \<in> set names. cluster_for any lb rng ?ps name \<noteq> None}"
      unfolding names using key by (auto split: if_splits)
  qed
qed

section \<open>Properties\<close>

text \<open>
  C11: cluster generation never fails on a snapshot that generates safely, and it returns, for the
  requested names and nothing else, one resource for each name that is the default cluster name of a
  port of a known service. The cluster takes its endpoints from the discovery service under its own
  name, and it has a TLS transport socket that pins the identities of the service if and only if the
  port is strict.
\<close>

theorem clusters_of_requested_names:
  assumes "generates_safely rng (pc_ConfigSnapshot push)" and "\<And>K. is_range (ks K) K"
  shows "\<exists>res. BuildClusters any lb rng ks (Some push) names = Inr res \<and> distinct (map res_Name res) \<and>
    set res = {cluster_resource any c |name c.
      name \<in> set names \<and> cluster_for any lb rng (pc_ConfigSnapshot push) name = Some c}"
  by (rule BuildClusters_received [OF assms, of any lb names]) blast

text \<open>Two snapshots that give the same clusters for the host names outside a set.\<close>

definition agree_outside ::
    "(string fset \<Rightarrow> string list) \<Rightarrow> string fset \<Rightarrow> 'g ConfigSnapshot \<Rightarrow> 'g ConfigSnapshot \<Rightarrow> bool" where
  "agree_outside rng updated ps ps' \<longleftrightarrow>
     cs_AuthenticationPolicies ps' = cs_AuthenticationPolicies ps \<and>
     (\<forall>h. h |\<notin>| updated \<longrightarrow> ServiceForHostname rng ps' h = ServiceForHostname rng ps h \<and>
        (\<forall>s. ServiceForHostname rng ps h = Some s \<longrightarrow> service_identities ps' h s = service_identities ps h s))"

lemma cluster_for_unchanged:
  fixes ps ps' :: "'g ConfigSnapshot"
  assumes "agree_outside rng updated ps ps'" and "ParseSubsetKeyHostname name |\<notin>| updated"
  shows "cluster_for any lb rng ps' name = cluster_for any lb rng ps name"
proof (cases "default_key name = name")
  case True
  obtain dir ss hostname port where parse: "ParseSubsetKey name = (dir, ss, hostname, port)"
    by (cases "ParseSubsetKey name") auto
  have "hostname |\<notin>| updated" using assms(2) default_key_hostname(1) [OF True parse] by simp
  then show ?thesis
    using assms(1)
    by (auto simp: agree_outside_def cluster_for_def parse strict_for_clients_def upstream_tls_def split: option.splits)
next
  case False
  then have "cluster_for any lb rng q name = None" for q :: "'g ConfigSnapshot"
    using cluster_for_key by (cases "cluster_for any lb rng q name") blast+
  then show ?thesis by simp
qed

text \<open>
  C5: the incremental generation of clusters is equivalent to the full one. When only named services
  changed and the snapshots agree on every other host name, a client that holds the clusters of its
  watched names under the old snapshot and applies the incremental response holds exactly the
  clusters that a full generation under the new snapshot gives it.
\<close>

theorem delta_clusters_equivalent:
  assumes "generates_safely rng (pc_ConfigSnapshot old)" "generates_safely rng (pc_ConfigSnapshot new)"
    and ks: "\<And>K. is_range (ks K) K" and push: "pr_Push req = Some new"
    and agree: "agree_outside rng (ck_Name |`| elems (pr_ConfigsUpdated req)) (pc_ConfigSnapshot old) (pc_ConfigSnapshot new)"
    and names: "set names = fset (elems (wr_ResourceNames w))"
    and before: "BuildClusters any lb rng ks (Some old) names = Inr held"
    and after: "BuildClusters any lb rng ks (Some new) names = Inr full"
  shows "\<exists>resources removed details. delta_clusters any lb rng ks w req = Inr (resources, removed, details, True) \<and>
    apply_response resources removed (received held) = received full"
proof -
  let ?changed = "grpcDeltaClusterNames w req" and ?updated = "ck_Name |`| elems (pr_ConfigsUpdated req)"
  let ?cl = "\<lambda>push name. map_option (\<lambda>c. any (ClusterMessage c)) (cluster_for any lb rng (pc_ConfigSnapshot push) name)"
  have changed: "n |\<in>| elems ?changed \<longleftrightarrow> n \<in> set names \<and> ParseSubsetKeyHostname n |\<in>| ?updated" for n
    by (auto simp: grpcDeltaClusterNames_def Let_def names)
  have held: "received held n = (if n \<in> set names then ?cl old n else None)" for n
    by (rule BuildClusters_received [OF assms(1) ks, of any lb names]) (use before in auto)
  have full: "received full n = (if n \<in> set names then ?cl new n else None)" for n
    by (rule BuildClusters_received [OF assms(2) ks, of any lb names]) (use after in auto)
  have same: "?cl new n = ?cl old n" if "n \<in> set names" "n |\<notin>| elems ?changed" for n
    using that changed cluster_for_unchanged [OF agree] by metis
  show ?thesis
  proof (cases "elems ?changed = {||}")
    case True
    then have "received held = received full"
      using same by (auto simp: held full)
    with True show ?thesis
      by (auto simp: delta_clusters_def apply_response_def received_def Let_def)
  next
    case False
    let ?names = "SortedList (ks (elems ?changed)) ?changed"
    have cnames: "set ?names = fset (elems ?changed)"
      by (rule set_SortedList [OF ks])
    obtain res where res: "BuildClusters any lb rng ks (Some new) ?names = Inr res"
      and rec: "\<And>n. received res n = (if n \<in> set ?names then ?cl new n else None)"
      and rn: "set (map res_Name res) = {n \<in> set ?names. cluster_for any lb rng (pc_ConfigSnapshot new) n \<noteq> None}"
      by (rule BuildClusters_received [OF assms(2) ks, of any lb ?names]) blast
    let ?removed = "DeleteAll (Copy ?changed) (ks (fset_of_list (map res_Name res)))"
    have "set (SortedList (ks (elems ?removed)) ?removed) = fset (elems ?removed)"
      by (rule set_SortedList [OF ks])
    moreover have "fset (elems ?removed) =
        {n. n |\<in>| elems ?changed \<and> cluster_for any lb rng (pc_ConfigSnapshot new) n = None}"
      using rn is_range_set [OF ks] cnames by (auto simp: fset_of_list.rep_eq)
    ultimately have rem: "set (SortedList (ks (elems ?removed)) ?removed) =
        {n. n |\<in>| elems ?changed \<and> cluster_for any lb rng (pc_ConfigSnapshot new) n = None}" by simp
    have "apply_response (Some res) (Some (SortedList (ks (elems ?removed)) ?removed)) (received held) n = received full n" for n
      using rem cnames changed [of n] same [of n]
      by (auto simp: apply_response_def rec held full split: option.splits)
    then show ?thesis
      using False by (auto simp: delta_clusters_def res push Let_def)
  qed
qed

section \<open>Examples\<close>

definition example_policies :: AuthenticationPolicies where
  "example_policies = \<lparr>au_requestAuthentications = fmempty, au_authorizationPolicies = fmempty,
     au_peerAuthentications = fmempty, au_globalMutualTLSMode = MTLSStrict, au_rootNamespace = ''root'',
     au_namespaceMutualTLSMode = fmempty, au_aggregateVersion = []\<rparr>"

definition example_grpc_push :: "Service list \<Rightarrow> nat push_context" where
  "example_grpc_push services = \<lparr>pc_ConfigSnapshot = NewConfigSnapshot\<lparr>
     cs_ServiceIndex := newServiceIndex\<lparr>si_HostnameAndNamespace :=
       fmap_of_list (map (\<lambda>s. (svc_Hostname s, fmap_of_list [(sa_Namespace (svc_Attributes s), s)])) services)\<rparr>,
     cs_AuthenticationPolicies := Some example_policies\<rparr>, pc_PushVersion = ''v''\<rparr>"

lemma example_mode:
  "EffectiveMutualTLSMode (cs_AuthenticationPolicies (pc_ConfigSnapshot (example_grpc_push services))) ns l port = Inr MTLSStrict"
  by (simp add: example_grpc_push_def example_policies_def EffectiveMutualTLSMode_def matchingPeerAuthentication_def
      slice_at_def Let_def)

lemma example_agree:
  "cs_AuthenticationPolicies (pc_ConfigSnapshot (example_grpc_push services)) = Some example_policies"
  by (simp add: example_grpc_push_def)

lemma example_lookup:
  "ServiceForHostname sorted_list_of_fset (pc_ConfigSnapshot (example_grpc_push services)) h =
     map_of (map (\<lambda>s. (svc_Hostname s, s)) services) h"
proof -
  have "map_of (map (\<lambda>s. (svc_Hostname s, fmap_of_list [(sa_Namespace (svc_Attributes s), s)])) services) h =
      map_option (\<lambda>s. fmap_of_list [(sa_Namespace (svc_Attributes s), s)])
        (map_of (map (\<lambda>s. (svc_Hostname s, s)) services) h)"
    by (induction services) auto
  then show ?thesis
    by (cases "map_of (map (\<lambda>s. (svc_Hostname s, s)) services) h")
      (simp_all add: ServiceForHostname_def example_grpc_push_def at_or_empty_def newServiceIndex_def Let_def
        fmlookup_of_list sorted_list_of_fset.rep_eq)
qed

lemma example_safe:
  assumes "\<And>s. s \<in> set services \<Longrightarrow> None \<notin> set (service_ports s)"
  shows "generates_safely sorted_list_of_fset (pc_ConfigSnapshot (example_grpc_push services))"
  using assms by (auto simp: generates_safely_def example_mode example_lookup dest!: map_of_SomeD)

lemma example_web_facts:
  "svc_Hostname example_web = ''web''" "None \<notin> set (service_ports example_web)" "has_port example_web 80"
  by (simp_all add: example_web_def example_svc_def service_ports_def has_port_def example_port_def)

lemmas eval_key = ParseSubsetKey_def trafficDirectionOutboundSrvPrefix_def trafficDirectionInboundSrvPrefix_def
  TrafficDirectionOutbound_def TrafficDirectionInbound_def HasPrefix_def Let_def Atoi_def is_digit_def digit_val_def
  maxUint64_def maxInt64_def

lemma example_cluster_parse:
  "ParseSubsetKey ''outbound|80||web'' = (''outbound'', [], ''web'', 80)"
  "ParseSubsetKey ''outbound|80||db'' = (''outbound'', [], ''db'', 80)"
  "ParseSubsetKey ''outbound|80|v1|web'' = (''outbound'', ''v1'', ''web'', 80)"
  by (simp_all add: eval_key)

lemma Itoa_80: "Itoa 80 = ''80''"
  by (simp add: Itoa_def digit_char_eval decimal.simps [of 80] decimal.simps [of 8])

lemma example_cluster_key:
  "BuildSubsetKey ''outbound'' [] ''web'' 80 = ''outbound|80||web''"
  "BuildSubsetKey ''outbound'' [] ''db'' 80 = ''outbound|80||db''"
  by (simp_all add: BuildSubsetKey_def Itoa_80)

lemma example_clusters:
  fixes any :: "string message \<Rightarrow> string"
  shows "cluster_for any [] sorted_list_of_fset (pc_ConfigSnapshot (example_grpc_push [example_web])) ''outbound|80||web'' \<noteq> None"
    "cluster_for any [] sorted_list_of_fset (pc_ConfigSnapshot (example_grpc_push [example_web])) ''outbound|80|v1|web'' = None"
    "cluster_for any [] sorted_list_of_fset (pc_ConfigSnapshot (example_grpc_push ss)) ''outbound|80||web'' = Some c \<Longrightarrow>
       clu_TransportSocket c \<noteq> None"
    "cluster_for any [] sorted_list_of_fset (pc_ConfigSnapshot (example_grpc_push [])) n = None"
  by (auto simp: cluster_for_def example_cluster_parse example_cluster_key example_lookup example_web_facts strict_for_clients_def
      example_mode split: prod.splits option.splits if_splits)

lemma cluster_names:
  "res_Name ` {cluster_resource any c |name c. name \<in> N \<and> cluster_for any lb rng ps name = Some c} =
     {name \<in> N. cluster_for any lb rng ps name \<noteq> None}"
  using cluster_for_name by (fastforce simp: image_def cluster_resource_def)

lemma distinct_singleton: "distinct xs \<Longrightarrow> set xs = {a} \<Longrightarrow> xs = [a]"
  by (cases xs; cases "tl xs") auto

theorem clusters_of_requested_names_witness:
  "\<exists>res. BuildClusters (\<lambda>_. ''m'') [] sorted_list_of_fset sorted_list_of_fset (Some (example_grpc_push [example_web]))
      [''outbound|80||web'', ''outbound|80|v1|web''] = Inr res \<and> map res_Name res = [''outbound|80||web'']"
proof -
  have safe: "generates_safely sorted_list_of_fset (pc_ConfigSnapshot (example_grpc_push [example_web]))"
    by (rule example_safe) (simp add: example_web_facts)
  obtain res where res: "BuildClusters (\<lambda>_. ''m'') [] sorted_list_of_fset sorted_list_of_fset
      (Some (example_grpc_push [example_web])) [''outbound|80||web'', ''outbound|80|v1|web''] = Inr res"
    and dist: "distinct (map res_Name res)"
    and set: "set res = {cluster_resource (\<lambda>_. ''m'') c |name c. name \<in> {''outbound|80||web'', ''outbound|80|v1|web''} \<and>
      cluster_for (\<lambda>_. ''m'') [] sorted_list_of_fset (pc_ConfigSnapshot (example_grpc_push [example_web])) name = Some c}"
    using clusters_of_requested_names [OF safe sorted_list_range, of "\<lambda>_. ''m''" "[]" "[''outbound|80||web'', ''outbound|80|v1|web'']"]
    by auto
  have "set (map res_Name res) = {''outbound|80||web''}"
    unfolding set_map set cluster_names using example_clusters(1,2) [of "\<lambda>_. ''m''"] by auto
  with dist have "map res_Name res = [''outbound|80||web'']" by (rule distinct_singleton)
  then show ?thesis by (intro exI [of _ res] conjI res)
qed

definition example_cluster_request :: "nat push_context PushRequest" where
  "example_cluster_request = zero_PushRequest\<lparr>
     pr_ConfigsUpdated := Some {|\<lparr>ck_Kind = KindService, ck_Name = ''web'', ck_Namespace = ''app''\<rparr>|},
     pr_Push := Some (example_grpc_push [])\<rparr>"

definition example_cluster_watch :: "unit WatchedResource" where
  "example_cluster_watch =
     (zero_WatchedResource ClusterType)\<lparr>wr_ResourceNames := Some {|''outbound|80||web'', ''outbound|80||db''|}\<rparr>"

theorem delta_clusters_equivalent_witness:
  "\<exists>held resources removed details.
     BuildClusters (\<lambda>_. ''m'') [] sorted_list_of_fset sorted_list_of_fset (Some (example_grpc_push [example_web]))
       [''outbound|80||web'', ''outbound|80||db''] = Inr held \<and> received held ''outbound|80||web'' = Some ''m'' \<and>
     delta_clusters (\<lambda>_. ''m'') [] sorted_list_of_fset sorted_list_of_fset example_cluster_watch example_cluster_request =
       Inr (resources, removed, details, True) \<and>
     apply_response resources removed (received held) ''outbound|80||web'' = None"
proof -
  let ?any = "\<lambda>_ :: string message. ''m''" and ?o = "sorted_list_of_fset :: string fset \<Rightarrow> string list"
  let ?names = "[''outbound|80||web'', ''outbound|80||db'']"
  have old: "generates_safely ?o (pc_ConfigSnapshot (example_grpc_push [example_web]))"
    by (rule example_safe) (simp add: example_web_facts)
  have new: "generates_safely ?o (pc_ConfigSnapshot (example_grpc_push []))"
    by (rule example_safe) simp
  obtain held where held: "BuildClusters ?any [] ?o ?o (Some (example_grpc_push [example_web])) ?names = Inr held"
    and web: "received held ''outbound|80||web'' = Some ''m''"
    by (rule BuildClusters_received [OF old sorted_list_range, of ?any "[]" ?names])
      (use example_clusters(1) [of ?any] in auto)
  obtain full where full: "BuildClusters ?any [] ?o ?o (Some (example_grpc_push [])) ?names = Inr full"
    and none: "received full ''outbound|80||web'' = None"
    by (rule BuildClusters_received [OF new sorted_list_range, of ?any "[]" ?names])
      (use example_clusters(4) [of ?any] in auto)
  have agree: "agree_outside ?o (ck_Name |`| elems (pr_ConfigsUpdated example_cluster_request))
      (pc_ConfigSnapshot (example_grpc_push [example_web])) (pc_ConfigSnapshot (example_grpc_push []))"
    by (auto simp: agree_outside_def example_cluster_request_def example_lookup example_web_facts example_agree)
  have "set ?names = fset (elems (wr_ResourceNames example_cluster_watch))" by (simp add: example_cluster_watch_def)
  then obtain resources removed details where
    "delta_clusters ?any [] ?o ?o example_cluster_watch example_cluster_request = Inr (resources, removed, details, True)"
    and "apply_response resources removed (received held) = received full"
    using delta_clusters_equivalent [OF old new sorted_list_range _ agree _ held full, of example_cluster_watch]
    by (auto simp: example_cluster_request_def)
  then show ?thesis
    using none by (intro exI [of _ held] exI [of _ resources] exI [of _ removed] exI [of _ details] conjI held web) simp_all
qed

end
