(* ===== verification/Filters.thy ===== *)
theory Filters
  imports Messages
begin

text \<open>
  The HTTP filters of an inbound listener: \<^verbatim>\<open>dubbod/discovery/pkg/networking/grpcgen/security_filters.go\<close>.
  Request authentications become one filter that validates tokens, authorization policies at most one
  filter that denies and one that allows, and the router comes last. \<open>any\<close> encodes a message.
\<close>

section \<open>Building the filters\<close>

definition JWTAuthentication :: string where "JWTAuthentication = ''filters.http.jwt_authn''"
definition HTTPRoleBasedAccessControl :: string where "HTTPRoleBasedAccessControl = ''filters.http.rbac''"
definition HTTPRouter :: string where "HTTPRouter = ''filters.http.router''"

definition typedHTTPFilter :: "('a message \<Rightarrow> 'a) \<Rightarrow> string \<Rightarrow> 'a message \<Rightarrow> 'a HttpFilter" where
  "typedHTTPFilter any name cfg = \<lparr>hf_Name = name, hf_TypedConfig = any cfg\<rparr>"

definition routerHTTPFilter :: "('a message \<Rightarrow> 'a) \<Rightarrow> 'a HttpFilter" where
  "routerHTTPFilter any = typedHTTPFilter any HTTPRouter RouterMessage"

definition non_nil :: "'b option list \<Rightarrow> 'b list" where
  "non_nil xs = map the (filter (\<lambda>x. x \<noteq> None) xs)"

definition jwtProviderFromRule :: "JWTRule \<Rightarrow> JwtProvider" where
  "jwtProviderFromRule rule =
     (let headers = filter (\<lambda>header. jh_Name header \<noteq> []) (non_nil (jr_FromHeaders rule));
          headers = (if length headers = 0 \<and> length (jr_FromParams rule) = 0
            then headers @ [\<lparr>jh_Name = ''authorization'', jh_Prefix = ''Bearer ''\<rparr>] else headers)
      in \<lparr>jp_Issuer = jr_Issuer rule, jp_Audiences = jr_Audiences rule, jp_JwksUri = jr_JwksUri rule,
          jp_Jwks = jr_Jwks rule, jp_FromHeaders = headers, jp_FromParams = jr_FromParams rule\<rparr>)"

fun jwt_rules :: "Spec \<Rightarrow> JWTRule option list" where
  "jwt_rules (RequestAuthn (Some spec)) = ra_JwtRules spec"
| "jwt_rules _ = []"

definition buildJWTAuthenticationFilter :: "('a message \<Rightarrow> 'a) \<Rightarrow> Config list \<Rightarrow> 'a HttpFilter option" where
  "buildJWTAuthenticationFilter any configs =
     (let providers = concat (map (\<lambda>cfg. map jwtProviderFromRule
            (filter (\<lambda>rule. jr_Issuer rule \<noteq> []) (non_nil (jwt_rules (cfg_Spec cfg))))) configs)
      in if length providers = 0 then None
         else Some (typedHTTPFilter any JWTAuthentication
           (JwtAuthenticationMessage \<lparr>ja_Providers = providers, ja_AllowMissing = True\<rparr>)))"

definition authorizationRuleFromAPI :: "Rule option \<Rightarrow> RbacRule" where
  "authorizationRuleFromAPI rule =
     (case rule of None \<Rightarrow> \<lparr>rr_Sources = [], rr_When = []\<rparr>
      | Some rule \<Rightarrow>
          \<lparr>rr_Sources = map (\<lambda>from. case from of
             Some (Some source) \<Rightarrow> source
           | _ \<Rightarrow> \<lparr>so_RequestPrincipals = [], so_Principals = []\<rparr>) (ru_From rule),
           rr_When = non_nil (ru_When rule)\<rparr>)"

fun authz_spec :: "Spec \<Rightarrow> AuthorizationPolicy option" where
  "authz_spec (AuthzPolicy spec) = spec"
| "authz_spec _ = None"

text \<open>The variables of the loop: the rules that deny, those that allow, and whether a policy allows.\<close>

definition authorization_step ::
    "Config \<Rightarrow> RbacRule list \<times> RbacRule list \<times> bool \<Rightarrow> RbacRule list \<times> RbacRule list \<times> bool" where
  "authorization_step cfg = (\<lambda>(denyRules, allowRules, hasAllowPolicy).
     case authz_spec (cfg_Spec cfg) of
       None \<Rightarrow> (denyRules, allowRules, hasAllowPolicy)
     | Some spec \<Rightarrow>
         let rules = map authorizationRuleFromAPI (ap_Rules spec)
         in if ap_Action spec = DENY then (denyRules @ rules, allowRules, hasAllowPolicy)
            else (denyRules, allowRules @ rules, True))"

definition buildAuthorizationFilters :: "('a message \<Rightarrow> 'a) \<Rightarrow> Config list \<Rightarrow> 'a HttpFilter list" where
  "buildAuthorizationFilters any configs =
     (case fold authorization_step configs ([], [], False) of (denyRules, allowRules, hasAllowPolicy) \<Rightarrow>
        (if length denyRules > 0 then [typedHTTPFilter any HTTPRoleBasedAccessControl
           (RBACMessage \<lparr>rbac_Action = RBAC_DENY, rbac_Rules = denyRules\<rparr>)] else []) @
        (if hasAllowPolicy then [typedHTTPFilter any HTTPRoleBasedAccessControl
           (RBACMessage \<lparr>rbac_Action = RBAC_ALLOW, rbac_Rules = allowRules\<rparr>)] else []))"

text \<open>The service of a target is never \<^verbatim>\<open>nil\<close>.\<close>

definition serviceTargetNamespace :: "ServiceTarget \<Rightarrow> string" where
  "serviceTargetNamespace serviceTarget = sa_Namespace (svc_Attributes (st_Service serviceTarget))"

definition workloadLabelsForServiceTarget :: "ServiceTarget \<Rightarrow> labels" where
  "workloadLabelsForServiceTarget serviceTarget =
     (let attributes = svc_Attributes (st_Service serviceTarget);
          selectors = (case sa_LabelSelectors attributes of None \<Rightarrow> fmempty | Some l \<Rightarrow> l)
      in if fm_len selectors > 0 then selectors
         else case sa_Labels attributes of None \<Rightarrow> fmempty | Some l \<Rightarrow> l)"

definition buildInboundHTTPFilters ::
    "('a message \<Rightarrow> 'a) \<Rightarrow> 'g ConfigSnapshot \<Rightarrow> ServiceTarget \<Rightarrow> 'a HttpFilter list" where
  "buildInboundHTTPFilters any ps serviceTarget =
     (let namespace = serviceTargetNamespace serviceTarget;
          workloadLabels = workloadLabelsForServiceTarget serviceTarget;
          jwt = buildJWTAuthenticationFilter any
            (RequestAuthenticationsForWorkload (cs_AuthenticationPolicies ps) namespace workloadLabels)
      in (case jwt of None \<Rightarrow> [] | Some jwt \<Rightarrow> [jwt]) @
         buildAuthorizationFilters any
           (AuthorizationPoliciesForWorkload (cs_AuthenticationPolicies ps) namespace workloadLabels) @
         [routerHTTPFilter any])"

section \<open>What the filters permit\<close>

text \<open>
  How an access control filter decides a request, with \<open>matches\<close> for a rule that matches a request: a
  filter that denies rejects what matches one of its rules, one that allows rejects everything else.
  \<open>decode\<close> reads the configuration of a filter. A request has to pass every filter.
\<close>

definition rbac_permits :: "(RbacRule \<Rightarrow> 'q \<Rightarrow> bool) \<Rightarrow> RBAC \<Rightarrow> 'q \<Rightarrow> bool" where
  "rbac_permits matches r q =
     (case rbac_Action r of
        RBAC_DENY \<Rightarrow> \<not> (\<exists>rule \<in> set (rbac_Rules r). matches rule q)
      | RBAC_ALLOW \<Rightarrow> \<exists>rule \<in> set (rbac_Rules r). matches rule q)"

definition filters_permit ::
    "('a \<Rightarrow> RBAC option) \<Rightarrow> (RbacRule \<Rightarrow> 'q \<Rightarrow> bool) \<Rightarrow> 'a HttpFilter list \<Rightarrow> 'q \<Rightarrow> bool" where
  "filters_permit decode matches filters q \<longleftrightarrow>
     (\<forall>f \<in> set filters. hf_Name f = HTTPRoleBasedAccessControl \<longrightarrow>
        (\<exists>r. decode (hf_TypedConfig f) = Some r \<and> rbac_permits matches r q))"

text \<open>What authorization policies mean: a rule of a denying policy rejects, and if there is an allowing
  policy at all, one of the rules of the allowing policies has to match.\<close>

definition policy_matches :: "(RbacRule \<Rightarrow> 'q \<Rightarrow> bool) \<Rightarrow> AuthorizationPolicy \<Rightarrow> 'q \<Rightarrow> bool" where
  "policy_matches matches p q \<longleftrightarrow> (\<exists>rule \<in> set (ap_Rules p). matches (authorizationRuleFromAPI rule) q)"

definition policies_permit :: "(RbacRule \<Rightarrow> 'q \<Rightarrow> bool) \<Rightarrow> AuthorizationPolicy set \<Rightarrow> 'q \<Rightarrow> bool" where
  "policies_permit matches P q \<longleftrightarrow>
     \<not> (\<exists>p \<in> P. ap_Action p = DENY \<and> policy_matches matches p q) \<and>
     ((\<exists>p \<in> P. ap_Action p \<noteq> DENY) \<longrightarrow> (\<exists>p \<in> P. ap_Action p \<noteq> DENY \<and> policy_matches matches p q))"

text \<open>The policies that apply to a workload: those of its namespace and of the root namespace that select it.\<close>

definition applying :: "Config list \<Rightarrow> string \<Rightarrow> string \<Rightarrow> labels \<Rightarrow> AuthorizationPolicy set" where
  "applying configs root ns workloadLabels =
     {p. \<exists>c \<in> set configs. cfg_Spec c = AuthzPolicy (Some p) \<and> meta_Namespace c \<in> {ns, root} - {[]} \<and>
        selectorMatchesWorkload (ap_Selector p) workloadLabels}"

definition translated :: "AuthorizationPolicy list \<Rightarrow> RbacRule list" where
  "translated ps = concat (map (\<lambda>p. map authorizationRuleFromAPI (ap_Rules p)) ps)"

definition authz_specs :: "Config list \<Rightarrow> AuthorizationPolicy list" where
  "authz_specs configs = List.map_filter (\<lambda>c. authz_spec (cfg_Spec c)) configs"

lemma authz_specs_simps [simp]:
  "authz_specs [] = []"
  "authz_specs (c # cs) = (case authz_spec (cfg_Spec c) of None \<Rightarrow> authz_specs cs | Some p \<Rightarrow> p # authz_specs cs)"
  by (simp_all add: authz_specs_def split: option.splits)

lemma set_authz_specs: "set (authz_specs configs) = {p. \<exists>c \<in> set configs. authz_spec (cfg_Spec c) = Some p}"
  by (induction configs) (auto split: option.splits)

lemma authorization_fold:
  "fold authorization_step configs (deny, allow, has) =
     (deny @ translated (filter (\<lambda>p. ap_Action p = DENY) (authz_specs configs)),
      allow @ translated (filter (\<lambda>p. ap_Action p \<noteq> DENY) (authz_specs configs)),
      has \<or> (\<exists>p \<in> set (authz_specs configs). ap_Action p \<noteq> DENY))"
  by (induction configs arbitrary: deny allow has)
    (auto simp: authorization_step_def translated_def Let_def split: option.splits)

lemma translated_match:
  "(\<exists>rule \<in> set (translated ps). matches rule q) \<longleftrightarrow> (\<exists>p \<in> set ps. policy_matches matches p q)"
  by (auto simp: translated_def policy_matches_def)

lemma filters_permit_append:
  "filters_permit decode matches (fs @ gs) q \<longleftrightarrow> filters_permit decode matches fs q \<and> filters_permit decode matches gs q"
  by (auto simp: filters_permit_def)

lemma filters_permit_other:
  "hf_Name f \<noteq> HTTPRoleBasedAccessControl \<Longrightarrow> filters_permit decode matches [f] q"
  by (simp add: filters_permit_def)

lemma authorization_filters_permit:
  assumes decode: "\<And>r. decode (any (RBACMessage r)) = Some r"
  shows "filters_permit decode matches (buildAuthorizationFilters any configs) q \<longleftrightarrow>
    policies_permit matches {p. \<exists>c \<in> set configs. authz_spec (cfg_Spec c) = Some p} q"
proof -
  let ?deny = "translated (filter (\<lambda>p. ap_Action p = DENY) (authz_specs configs))"
  let ?allow = "translated (filter (\<lambda>p. ap_Action p \<noteq> DENY) (authz_specs configs))"
  let ?has = "\<exists>p \<in> set (authz_specs configs). ap_Action p \<noteq> DENY"
  have deny: "filters_permit decode matches (if length ?deny > 0 then [typedHTTPFilter any HTTPRoleBasedAccessControl
      (RBACMessage \<lparr>rbac_Action = RBAC_DENY, rbac_Rules = ?deny\<rparr>)] else []) q \<longleftrightarrow> \<not> (\<exists>rule \<in> set ?deny. matches rule q)"
    by (cases "?deny = []") (simp_all add: filters_permit_def typedHTTPFilter_def decode rbac_permits_def)
  have allow: "filters_permit decode matches (if ?has then [typedHTTPFilter any HTTPRoleBasedAccessControl
      (RBACMessage \<lparr>rbac_Action = RBAC_ALLOW, rbac_Rules = ?allow\<rparr>)] else []) q \<longleftrightarrow>
      (?has \<longrightarrow> (\<exists>rule \<in> set ?allow. matches rule q))"
    by (cases ?has) (simp_all add: filters_permit_def typedHTTPFilter_def decode rbac_permits_def)
  have "filters_permit decode matches (buildAuthorizationFilters any configs) q \<longleftrightarrow>
      \<not> (\<exists>rule \<in> set ?deny. matches rule q) \<and> (?has \<longrightarrow> (\<exists>rule \<in> set ?allow. matches rule q))"
    unfolding buildAuthorizationFilters_def authorization_fold append_Nil prod.case filters_permit_append
      simp_thms deny allow ..
  then show ?thesis
    unfolding translated_match by (auto simp: policies_permit_def set_authz_specs)
qed

lemma added_authorization:
  "slice_at (au_authorizationPolicies (addAuthorizationPolicy policy configs)) ns =
     slice_at (au_authorizationPolicies policy) ns @
     filter (\<lambda>c. meta_Namespace c = ns \<and> is_authz_policy (cfg_Spec c)) configs"
  unfolding addAuthorizationPolicy_def
  by (induction configs arbitrary: policy) (auto simp: append_at_def slice_at_def)

lemma peers_keep_authorization:
  "add_peers configs policy found seen = Inr (policy', found') \<Longrightarrow>
     au_authorizationPolicies policy' = au_authorizationPolicies policy"
  by (induction configs policy found seen rule: add_peers.induct)
    (auto simp: Let_def split: sum.splits if_splits option.splits)

lemma kept_authorization:
  assumes "initAuthenticationPolicies md5 root list = Inr policy"
  shows "slice_at (au_authorizationPolicies policy) ns = filter (\<lambda>c. meta_Namespace c = ns \<and> is_authz_policy (cfg_Spec c))
      (sortConfigByCreationTime (list KindAuthorizationPolicy))"
    and "au_rootNamespace policy = root"
proof -
  show "au_rootNamespace policy = root"
    using initAuthenticationPolicies_built [OF assms] by (simp add: built_from_def)
  have request: "au_authorizationPolicies (addRequestAuthentication p cs) = au_authorizationPolicies p" for p cs
    unfolding addRequestAuthentication_def by (induction cs arbitrary: p) simp_all
  have peer: "au_authorizationPolicies p' = au_authorizationPolicies p" if "addPeerAuthentication p cs = Inr p'" for p p' cs
    using that peers_keep_authorization unfolding addPeerAuthentication_def
    by (cases "add_peers (sortConfigByCreationTime cs) p fmempty fmempty") auto
  show "slice_at (au_authorizationPolicies policy) ns = filter (\<lambda>c. meta_Namespace c = ns \<and> is_authz_policy (cfg_Spec c))
      (sortConfigByCreationTime (list KindAuthorizationPolicy))"
    using assms unfolding initAuthenticationPolicies_def Let_def
    by (auto simp: map_sum_def added_authorization request slice_at_def [of fmempty] dest!: peer split: sum.splits)
qed

lemma applying_policies:
  assumes "initAuthenticationPolicies md5 root list = Inr policy"
  shows "{p. \<exists>c \<in> set (AuthorizationPoliciesForWorkload (Some policy) ns workloadLabels). authz_spec (cfg_Spec c) = Some p} =
    applying (list KindAuthorizationPolicy) root ns workloadLabels"
proof -
  have spec: "authz_spec s = Some p \<longleftrightarrow> s = AuthzPolicy (Some p)" for s p by (cases s) auto
  show ?thesis
    by (auto simp: AuthorizationPoliciesForWorkload_def matchingWorkloadSecurityConfigs_def kept_authorization [OF assms]
        applying_def spec sortConfigByCreationTime_def Let_def)
qed

section \<open>Properties\<close>


definition example_authz :: "string \<Rightarrow> string \<Rightarrow> authz_action \<Rightarrow> string \<Rightarrow> Config" where
  "example_authz ns name act who =
     \<lparr>meta_GroupVersionKind = \<lparr>gvk_Group = ''security'', gvk_Version = ''v1'', gvk_Kind = ''AuthorizationPolicy''\<rparr>,
      meta_UID = [], meta_Name = name, meta_Namespace = ns, meta_Domain = [], meta_Labels = fmempty,
      meta_Annotations = fmempty, meta_ResourceVersion = ''1'', meta_CreationTimestamp = 0, meta_Generation = 1,
      cfg_Spec = AuthzPolicy (Some \<lparr>ap_Selector = None, ap_Action = act, ap_Rules = [Some \<lparr>ru_From =
        [Some (Some \<lparr>so_RequestPrincipals = [], so_Principals = [who]\<rparr>)], ru_When = []\<rparr>]\<rparr>)\<rparr>"

definition example_authz_list :: "kind \<Rightarrow> Config list" where
  "example_authz_list k = (if k = KindAuthorizationPolicy
     then [example_authz ''app'' ''allow'' ALLOW ''client'', example_authz ''app'' ''allow2'' ALLOW ''spy'',
           example_authz ''root'' ''deny'' DENY ''spy''] else [])"

definition example_matches :: "RbacRule \<Rightarrow> string \<Rightarrow> bool" where
  "example_matches rule q \<longleftrightarrow> (\<exists>s \<in> set (rr_Sources rule). q \<in> set (so_Principals s))"

definition example_any :: "RBAC option message \<Rightarrow> RBAC option" where
  "example_any m = (case m of RBACMessage r \<Rightarrow> Some r | _ \<Rightarrow> None)"

definition example_target :: ServiceTarget where
  "example_target = \<lparr>st_Service = example_web, st_ServicePort = example_port, st_TargetPort = 8080\<rparr>"


end
