(* ===== verification/Listeners.thy ===== *)
theory Listeners
  imports Clusters Filters
begin

text \<open>
  Listener discovery for proxyless gRPC: \<^verbatim>\<open>dubbod/discovery/pkg/networking/grpcgen/lds.go\<close>. An inbound listener
  is named by \<^verbatim>\<open>ServerListenerNamePrefix\<close> and an address, an outbound one by host and port. The
  parameters are those of cluster generation: \<open>any\<close> encodes a message, \<open>rng\<close> is the order of the
  namespaces of a host name and of the namespaces of the registry, \<open>ks\<close> the order of a loop over a map
  or a set of names.
\<close>

section \<open>Package net\<close>

fun Index :: "string \<Rightarrow> char \<Rightarrow> nat option" where
  "Index [] c = None"
| "Index (x # s) c = (if x = c then Some 0 else map_option Suc (Index s c))"

text \<open>
  \<^verbatim>\<open>net.SplitHostPort\<close>: the host and the port, or nothing for an error. A host in brackets ends at the
  first closing bracket, which has to stand just before the last colon.
\<close>

definition SplitHostPort :: "string \<Rightarrow> (string \<times> string) option" where
  "SplitHostPort hostport =
     (let i = LastIndex hostport (CHR '':'') in
      if i < 0 then None
      else if hd hostport = CHR ''['' then
        (case Index hostport (CHR '']'') of None \<Rightarrow> None
         | Some close \<Rightarrow>
             if int close + 1 \<noteq> i then None
             else if CHR ''['' \<in> set (drop 1 hostport) \<or> CHR '']'' \<in> set (drop (close + 1) hostport) then None
             else Some (drop 1 (take close hostport), drop (nat i + 1) hostport))
      else let host = take (nat i) hostport in
        if CHR '':'' \<in> set host then None
        else if CHR ''['' \<in> set hostport \<or> CHR '']'' \<in> set hostport then None
        else Some (host, drop (nat i + 1) hostport))"

section \<open>Requested names\<close>

definition ServerListenerNamePrefix :: string where
  "ServerListenerNamePrefix = ''xds.dubbo.apache.org/grpc/lds/inbound/''"

record listenerName =
  ln_RequestedNames :: "string fset"
  ln_Ports :: "string gset"

type_synonym listenerNames = "(string, listenerName) fmap"

text \<open>The empty result stands for a name that could not be completed.\<close>

definition tryFindFQDN :: "string \<Rightarrow> ('r, 'p) Proxy \<Rightarrow> panic + string" where
  "tryFindFQDN name node =
     (if \<not> Contains_str name ''.'' then Inr (name @ ''.'' @ px_DNSDomain node)
      else case px_Metadata node of None \<Rightarrow> Inl NilDeref
      | Some metadata \<Rightarrow>
          let shortname = (\<lambda>sfx. TrimSuffix name (''.'' @ sfx));
              completes = (\<lambda>sfx. shortname sfx \<noteq> name \<and> HasPrefix (px_DNSDomain node) sfx)
          in Inr (case filter completes [nm_Namespace metadata, nm_Namespace metadata @ ''.svc''] of
               [] \<Rightarrow> []
             | sfx # _ \<Rightarrow> shortname sfx @ ''.'' @ px_DNSDomain node))"

text \<open>The body of the inner loop: the entry of one spelling of a requested name.\<close>

definition add_listener_name :: "string \<Rightarrow> string option \<Rightarrow> string \<Rightarrow> listenerNames \<Rightarrow> listenerNames" where
  "add_listener_name requestedName port name flt =
     (let old = fmlookup flt name;
          ln = (case old of Some ln \<Rightarrow> ln | None \<Rightarrow> \<lparr>ln_RequestedNames = {||}, ln_Ports = None\<rparr>);
          ln = ln\<lparr>ln_RequestedNames := finsert requestedName (ln_RequestedNames ln)\<rparr>;
          ln = (case port of
              Some port \<Rightarrow> if old = None \<or> Len (ln_Ports ln) \<noteq> 0
                then ln\<lparr>ln_Ports := Some (finsert port (elems (ln_Ports ln)))\<rparr> else ln
            | None \<Rightarrow> ln\<lparr>ln_Ports := None\<rparr>)
      in fmupd name ln flt)"

definition add_requested_name ::
    "('r, 'p) Proxy \<Rightarrow> string \<Rightarrow> listenerNames \<Rightarrow> panic + listenerNames" where
  "add_requested_name node name flt =
     (if HasPrefix name ServerListenerNamePrefix
      then Inr (fmupd name \<lparr>ln_RequestedNames = {|name|}, ln_Ports = None\<rparr> flt)
      else let (requestedName, port) = (case SplitHostPort name of
               Some (host, port) \<Rightarrow> (host, Some port) | None \<Rightarrow> (name, None))
      in map_sum id (\<lambda>fqdn.
           fold (add_listener_name requestedName port) (if fqdn \<noteq> [] then [requestedName, fqdn] else [requestedName]) flt)
           (tryFindFQDN requestedName node))"

fun add_requested_names ::
    "('r, 'p) Proxy \<Rightarrow> string list \<Rightarrow> listenerNames \<Rightarrow> panic + listenerNames" where
  "add_requested_names node [] flt = Inr flt"
| "add_requested_names node (name # names) flt =
     bind_panic (add_requested_name node name flt) (add_requested_names node names)"

definition newListenerNameFilter :: "string list \<Rightarrow> ('r, 'p) Proxy \<Rightarrow> panic + listenerNames" where
  "newListenerNameFilter names node = add_requested_names node names fmempty"

definition inboundNames :: "(string fset \<Rightarrow> string list) \<Rightarrow> listenerNames \<Rightarrow> string list" where
  "inboundNames ks f = filter (\<lambda>key. HasPrefix key ServerListenerNamePrefix) (ks (fmdom f))"

section \<open>Inbound listeners\<close>

definition HTTPConnectionManager :: string where
  "HTTPConnectionManager = ''filters.network.http_connection_manager''"

definition buildDownstreamTransportSocket :: "('a message \<Rightarrow> 'a) \<Rightarrow> MutualTLSMode \<Rightarrow> 'a TransportSocket option" where
  "buildDownstreamTransportSocket any mode =
     (if mode \<noteq> MTLSStrict then None
      else Some \<lparr>ts_Name = ''transport_sockets.tls'', ts_TypedConfig = any (DownstreamTls
        \<lparr>dt_CommonTlsContext = (buildCommonTLSContext [])\<lparr>ct_AlpnProtocols := [''h2'']\<rparr>,
         dt_RequireClientCertificate = True\<rparr>)\<rparr>)"

text \<open>\<^verbatim>\<open>cloneInboundFilterChain\<close> copies a chain, which is the same value.\<close>

definition buildInboundFilterChains ::
    "('a message \<Rightarrow> 'a) \<Rightarrow> 'a FilterChain \<Rightarrow> MutualTLSMode \<Rightarrow> 'a FilterChain list" where
  "buildInboundFilterChains any plaintext mode =
     (case (mode, buildDownstreamTransportSocket any MTLSStrict) of
        (MTLSStrict, Some ts) \<Rightarrow> [plaintext\<lparr>fc_TransportSocket := Some ts\<rparr>]
      | (MTLSPermissive, Some ts) \<Rightarrow>
          [plaintext\<lparr>fc_Name := ''mtls'',
             fc_FilterChainMatch := Some \<lparr>fcm_TransportProtocol = ''tls'', fcm_ApplicationProtocols = [''h2'']\<rparr>,
             fc_TransportSocket := Some ts\<rparr>, plaintext]
      | _ \<Rightarrow> [plaintext])"

definition service_instances_by_port :: "ServiceTarget list \<Rightarrow> (32 word, ServiceTarget) fmap" where
  "service_instances_by_port targets = fold (\<lambda>si. fmupd (st_TargetPort si) si) targets fmempty"

definition inbound_hcm :: "('a message \<Rightarrow> 'a) \<Rightarrow> 'g ConfigSnapshot \<Rightarrow> ServiceTarget \<Rightarrow> int \<Rightarrow> 'a HttpConnectionManager" where
  "inbound_hcm any ps si listenPort =
     (let routeName = Itoa listenPort
      in \<lparr>hcm_StatPrefix = ''inbound_'' @ Itoa listenPort,
          hcm_RouteSpecifier = RouteConfig \<lparr>rc_Name = routeName, rc_VirtualHosts =
            [\<lparr>vh_Name = ''inbound|http|'' @ routeName, vh_Domains = [''*''], vh_Routes =
              [\<lparr>ro_Match = \<lparr>rm_PathSpecifier = Prefix ''/'', rm_Headers = []\<rparr>, ro_Action = Route_NonForwardingAction\<rparr>]\<rparr>]\<rparr>,
          hcm_HttpFilters = buildInboundHTTPFilters any ps si\<rparr>)"

definition listener_resource :: "('a message \<Rightarrow> 'a) \<Rightarrow> 'a ListenerMsg \<Rightarrow> 'a Resource" where
  "listener_resource any ll = \<lparr>res_Name = lis_Name ll, res_Resource = any (ListenerMessage ll)\<rparr>"

definition inbound_listener ::
    "('a message \<Rightarrow> 'a) \<Rightarrow> 'g ConfigSnapshot \<Rightarrow> string \<Rightarrow> string \<Rightarrow> int \<Rightarrow> ServiceTarget \<Rightarrow> MutualTLSMode \<Rightarrow> 'a ListenerMsg" where
  "inbound_listener any ps name listenHost listenPort si mode =
     (let filterChain = \<lparr>fc_Name = [], fc_FilterChainMatch = None, fc_Filters =
            [\<lparr>fl_Name = HTTPConnectionManager,
              fl_TypedConfig = Some (any (HttpConnectionManagerMessage (inbound_hcm any ps si listenPort)))\<rparr>],
            fc_TransportSocket = None\<rparr>
      in \<lparr>lis_Name = name, lis_Address = SocketAddress listenHost (word_of_int listenPort),
          lis_AdditionalAddresses =
            BuildAdditionalAddresses (GetExtraAddressesForProxy (st_Service si) (Some ())) (word_of_int listenPort),
          lis_FilterChains = buildInboundFilterChains any filterChain mode, lis_ApiListener = None\<rparr>)"

definition build_inbound ::
    "('a message \<Rightarrow> 'a) \<Rightarrow> 'g push_context option \<Rightarrow> ('r, 'p) Proxy \<Rightarrow> string \<Rightarrow> panic + 'a Resource list" where
  "build_inbound any push node name =
     (case SplitHostPort (TrimPrefix name ServerListenerNamePrefix) of None \<Rightarrow> Inr []
      | Some (listenHost, listenPortStr) \<Rightarrow>
          (case Atoi listenPortStr of (listenPort, ok) \<Rightarrow>
             if \<not> ok then Inr []
             else case fmlookup (service_instances_by_port (px_ServiceTargets node)) (word_of_int listenPort) of
               None \<Rightarrow> Inr []
             | Some si \<Rightarrow>
                 (case push of None \<Rightarrow> Inl NilDeref
                  | Some push \<Rightarrow>
                      map_sum id (\<lambda>mode. [listener_resource any
                          (inbound_listener any (pc_ConfigSnapshot push) name listenHost listenPort si mode)])
                        (InboundMTLSModeForProxy (Some (pc_ConfigSnapshot push)) (Some node) (word_of_int listenPort)))))"

text \<open>A loop whose iterations append to a list.\<close>

fun collect :: "('k \<Rightarrow> panic + 'b list) \<Rightarrow> 'k list \<Rightarrow> panic + 'b list" where
  "collect f [] = Inr []"
| "collect f (x # xs) = bind_panic (f x) (\<lambda>ys. map_sum id ((@) ys) (collect f xs))"

definition buildInboundListeners ::
    "('a message \<Rightarrow> 'a) \<Rightarrow> 'g push_context option \<Rightarrow> ('r, 'p) Proxy \<Rightarrow> string list \<Rightarrow> panic + 'a Resource list" where
  "buildInboundListeners any push node names = collect (build_inbound any push node) names"

section \<open>Outbound listeners\<close>

text \<open>The pairs of a key of the filter and a port to build, in the order of the two loops.\<close>

definition outbound_listeners ::
    "(string fset \<Rightarrow> string list) \<Rightarrow> listenerNames \<Rightarrow> (string \<times> string) list" where
  "outbound_listeners ks flt = concat (map (\<lambda>name.
     if HasPrefix name ServerListenerNamePrefix then []
     else case fmlookup flt name of None \<Rightarrow> []
     | Some ln \<Rightarrow>
         if Len (ln_Ports ln) > 0 then map (Pair name) (ks (elems (ln_Ports ln)))
         else if SplitHostPort name \<noteq> None then [(name, name)] else []) (ks (fmdom flt)))"

definition find_service ::
    "(string fset \<Rightarrow> string list) \<Rightarrow> 'g ConfigSnapshot \<Rightarrow> string \<Rightarrow> Service option" where
  "find_service rng ps hostStr =
     (case ServiceForHostname rng ps hostStr of Some svc \<Rightarrow> Some svc
      | None \<Rightarrow>
          let shortName = hd (Split hostStr (CHR ''.''));
              byShortName = (if shortName \<noteq> [] then ServiceForHostname rng ps shortName else None)
          in case byShortName of Some svc \<Rightarrow> Some svc
             | None \<Rightarrow> List.find (\<lambda>s. svc_Hostname s = hostStr \<or>
                 shortName \<noteq> [] \<and> HasPrefix (svc_Hostname s) (shortName @ ''.'')) (GetAllServices rng ps))"

definition outbound_hcm :: "('a message \<Rightarrow> 'a) \<Rightarrow> Service \<Rightarrow> int \<Rightarrow> 'a HttpConnectionManager" where
  "outbound_hcm any svc port =
     \<lparr>hcm_StatPrefix = ''outbound_'' @ Itoa port @ ''_'' @ sa_Name (svc_Attributes svc),
      hcm_RouteSpecifier = RdsRoutes ADS (BuildSubsetKey TrafficDirectionOutbound [] (svc_Hostname svc) port),
      hcm_HttpFilters = [typedHTTPFilter any ''filters.http.router'' RouterMessage]\<rparr>"

definition outbound_listener :: "('a message \<Rightarrow> 'a) \<Rightarrow> string \<Rightarrow> Service \<Rightarrow> int \<Rightarrow> 'a ListenerMsg" where
  "outbound_listener any fullListenerName svc port =
     \<lparr>lis_Name = fullListenerName,
      lis_Address = SocketAddress (GetAddressForProxy svc (Some ())) (word_of_int port),
      lis_AdditionalAddresses = BuildAdditionalAddresses (GetExtraAddressesForProxy svc (Some ())) (word_of_int port),
      lis_FilterChains = [], lis_ApiListener = Some (any (HttpConnectionManagerMessage (outbound_hcm any svc port)))\<rparr>"

definition build_outbound ::
    "('a message \<Rightarrow> 'a) \<Rightarrow> (string fset \<Rightarrow> string list) \<Rightarrow> 'g push_context option \<Rightarrow> string \<times> string \<Rightarrow>
       panic + 'a Resource list" where
  "build_outbound any rng push li =
     (let (hostStr, portStr) = (case SplitHostPort (snd li) of Some hp \<Rightarrow> hp | None \<Rightarrow> li) in
      case Atoi portStr of (port, ok) \<Rightarrow>
        if \<not> ok then Inr []
        else case push of None \<Rightarrow> Inl NilDeref
        | Some push \<Rightarrow>
            (case find_service rng (pc_ConfigSnapshot push) hostStr of None \<Rightarrow> Inr []
             | Some svc \<Rightarrow>
                 map_sum id (\<lambda>(_, hasPort). if \<not> hasPort then []
                     else [listener_resource any (outbound_listener any (hostStr @ '':'' @ portStr) svc port)])
                   (GetByPort (service_ports svc) port)))"

definition buildOutboundListeners ::
    "('a message \<Rightarrow> 'a) \<Rightarrow> (string fset \<Rightarrow> string list) \<Rightarrow> (string fset \<Rightarrow> string list) \<Rightarrow> 'g push_context option \<Rightarrow>
       listenerNames \<Rightarrow> panic + 'a Resource list" where
  "buildOutboundListeners any rng ks push flt = collect (build_outbound any rng push) (outbound_listeners ks flt)"

section \<open>All listeners\<close>

definition target_listener :: "ServiceTarget \<Rightarrow> string" where
  "target_listener st = ServerListenerNamePrefix @ ''0.0.0.0:'' @ Itoa (uint (st_TargetPort st))"

definition BuildListeners ::
    "('a message \<Rightarrow> 'a) \<Rightarrow> (string fset \<Rightarrow> string list) \<Rightarrow> (string fset \<Rightarrow> string list) \<Rightarrow> ('r, 'p) Proxy \<Rightarrow>
       'g push_context option \<Rightarrow> string list \<Rightarrow> panic + 'a Resource list" where
  "BuildListeners any rng ks node push names =
     (let names = (if names = [] then map target_listener (px_ServiceTargets node) else names) in
      bind_panic (newListenerNameFilter names node) (\<lambda>flt.
      bind_panic (buildOutboundListeners any rng ks push flt) (\<lambda>outboundRes.
      map_sum id (\<lambda>inboundRes.
          let resp = outboundRes @ inboundRes
          in if names \<noteq> [] then filter (\<lambda>r. res_Name r \<in> set names) resp else resp)
        (buildInboundListeners any push node (inboundNames ks flt)))))"

section \<open>What the listeners are\<close>

lemma collect_mem:
  "collect f xs = Inr ys \<Longrightarrow> y \<in> set ys \<longleftrightarrow> (\<exists>x \<in> set xs. \<exists>zs. f x = Inr zs \<and> y \<in> set zs)"
proof (induction xs arbitrary: ys)
  case (Cons x xs)
  from Cons.prems obtain zs rest where "f x = Inr zs" "collect f xs = Inr rest" "ys = zs @ rest"
    by (cases "f x"; cases "collect f xs") auto
  then show ?case using Cons.IH [of rest] by simp
qed simp

lemma GetByPort_found:
  "GetByPort ports num = Inr (p, True) \<Longrightarrow> \<exists>q. Some q \<in> set ports \<and> port_Port q = num"
  by (induction ports) (auto split: option.splits if_splits)

lemma service_instances_by_port_mem:
  assumes "fmlookup (service_instances_by_port targets) port = Some si"
  shows "si \<in> set targets" and "st_TargetPort si = port"
proof -
  have "fmlookup (fold (\<lambda>si. fmupd (st_TargetPort si) si) targets m) port = Some si \<Longrightarrow>
      si \<in> set targets \<and> st_TargetPort si = port \<or> fmlookup m port = Some si" for m
    by (induction targets arbitrary: m) (fastforce split: if_splits)+
  from this [of fmempty] show "si \<in> set targets" and "st_TargetPort si = port"
    using assms by (auto simp: service_instances_by_port_def)
qed

definition proxy_namespace :: "('r, 'p) Proxy \<Rightarrow> string" where
  "proxy_namespace node =
     (let namespace = (case px_Metadata node of None \<Rightarrow> [] | Some m \<Rightarrow> nm_Namespace m)
      in if namespace = [] then px_ConfigNamespace node else namespace)"

lemma InboundMTLSModeForProxy_eq:
  "InboundMTLSModeForProxy (Some ps) (Some node) port =
     EffectiveMutualTLSMode (cs_AuthenticationPolicies ps) (proxy_namespace node) fmempty port"
  by (simp add: InboundMTLSModeForProxy_def proxy_namespace_def EffectiveMutualTLSMode_def Let_def)

text \<open>The two kinds of listeners that are built.\<close>

definition is_outbound ::
    "('a message \<Rightarrow> 'a) \<Rightarrow> (string fset \<Rightarrow> string list) \<Rightarrow> 'g ConfigSnapshot \<Rightarrow> 'a ListenerMsg \<Rightarrow> bool" where
  "is_outbound any rng ps l \<longleftrightarrow>
     (\<exists>hostStr portStr port svc. Atoi portStr = (port, True) \<and> find_service rng ps hostStr = Some svc \<and>
        has_port svc port \<and> l = outbound_listener any (hostStr @ '':'' @ portStr) svc port)"

definition is_inbound ::
    "('a message \<Rightarrow> 'a) \<Rightarrow> 'g ConfigSnapshot \<Rightarrow> ('r, 'p) Proxy \<Rightarrow> 'a ListenerMsg \<Rightarrow> bool" where
  "is_inbound any ps node l \<longleftrightarrow>
     (\<exists>name host port si mode. HasPrefix name ServerListenerNamePrefix \<and> si \<in> set (px_ServiceTargets node) \<and>
        st_TargetPort si = word_of_int port \<and>
        EffectiveMutualTLSMode (cs_AuthenticationPolicies ps) (proxy_namespace node) fmempty (word_of_int port) = Inr mode \<and>
        l = inbound_listener any ps name host port si mode)"

lemma is_outboundI:
  "Atoi portStr = (port, True) \<Longrightarrow> find_service rng ps hostStr = Some svc \<Longrightarrow> has_port svc port \<Longrightarrow>
     is_outbound any rng ps (outbound_listener any (hostStr @ '':'' @ portStr) svc port)"
  unfolding is_outbound_def by blast

lemma is_inboundI:
  "HasPrefix name ServerListenerNamePrefix \<Longrightarrow> si \<in> set (px_ServiceTargets node) \<Longrightarrow>
     st_TargetPort si = word_of_int port \<Longrightarrow>
     EffectiveMutualTLSMode (cs_AuthenticationPolicies ps) (proxy_namespace node) fmempty (word_of_int port) = Inr mode \<Longrightarrow>
     is_inbound any ps node (inbound_listener any ps name host port si mode)"
  unfolding is_inbound_def by blast

lemma map_sum_Inr: "map_sum id f m = Inr y \<longleftrightarrow> (\<exists>x. m = Inr x \<and> y = f x)"
  by (cases m) auto

lemma build_inbound_built:
  assumes "build_inbound any (Some push) node name = Inr rs" and "r \<in> set rs" and "HasPrefix name ServerListenerNamePrefix"
  shows "\<exists>l. r = listener_resource any l \<and> is_inbound any (pc_ConfigSnapshot push) node l"
proof -
  obtain host portStr port si mode where
    si: "fmlookup (service_instances_by_port (px_ServiceTargets node)) (word_of_int port) = Some si"
    and mode: "InboundMTLSModeForProxy (Some (pc_ConfigSnapshot push)) (Some node) (word_of_int port) = Inr mode"
    and rs: "rs = [listener_resource any (inbound_listener any (pc_ConfigSnapshot push) name host port si mode)]"
    using assms(1,2)
    by (auto simp: build_inbound_def map_sum_Inr split: option.splits prod.splits if_splits)
  have "is_inbound any (pc_ConfigSnapshot push) node (inbound_listener any (pc_ConfigSnapshot push) name host port si mode)"
    by (rule is_inboundI [OF assms(3) service_instances_by_port_mem [OF si] mode [unfolded InboundMTLSModeForProxy_eq]])
  then show ?thesis using assms(2) rs by auto
qed

lemma build_outbound_built:
  assumes "build_outbound any rng (Some push) li = Inr rs" and "r \<in> set rs"
  shows "\<exists>l. r = listener_resource any l \<and> is_outbound any rng (pc_ConfigSnapshot push) l"
proof -
  obtain hostStr portStr where hp: "(case SplitHostPort (snd li) of Some hp \<Rightarrow> hp | None \<Rightarrow> li) = (hostStr, portStr)"
    by (cases "case SplitHostPort (snd li) of Some hp \<Rightarrow> hp | None \<Rightarrow> li") auto
  obtain port svc p where atoi: "Atoi portStr = (port, True)"
    and svc: "find_service rng (pc_ConfigSnapshot push) hostStr = Some svc"
    and p: "GetByPort (service_ports svc) port = Inr (p, True)"
    and rs: "rs = [listener_resource any (outbound_listener any (hostStr @ '':'' @ portStr) svc port)]"
    using assms
    by (auto simp: build_outbound_def hp map_sum_Inr split: option.splits prod.splits if_splits)
  have "has_port svc port" using GetByPort_found [OF p] by (simp add: has_port_def)
  then have "is_outbound any rng (pc_ConfigSnapshot push) (outbound_listener any (hostStr @ '':'' @ portStr) svc port)"
    by (rule is_outboundI [OF atoi svc])
  then show ?thesis using assms(2) rs by auto
qed

lemma BuildListeners_built:
  assumes "BuildListeners any rng ks node (Some push) names = Inr res" and "r \<in> set res"
  obtains l where "r = listener_resource any l"
    and "is_outbound any rng (pc_ConfigSnapshot push) l \<or> is_inbound any (pc_ConfigSnapshot push) node l"
    and "names \<noteq> [] \<longrightarrow> lis_Name l \<in> set names"
proof -
  let ?names = "if names = [] then map target_listener (px_ServiceTargets node) else names"
  obtain flt out inb where out: "buildOutboundListeners any rng ks (Some push) flt = Inr out"
    and inb: "buildInboundListeners any (Some push) node (inboundNames ks flt) = Inr inb"
    and res: "res = (if ?names \<noteq> [] then filter (\<lambda>r. res_Name r \<in> set ?names) (out @ inb) else out @ inb)"
    using assms(1) unfolding BuildListeners_def Let_def bind_panic_Inr map_sum_Inr by blast
  have name: "names \<noteq> [] \<Longrightarrow> res_Name r \<in> set names" using assms(2) res by (auto split: if_splits)
  have "r \<in> set out \<or> r \<in> set inb" using assms(2) res by (auto split: if_splits)
  then have "\<exists>l. r = listener_resource any l \<and>
      (is_outbound any rng (pc_ConfigSnapshot push) l \<or> is_inbound any (pc_ConfigSnapshot push) node l)"
  proof
    assume "r \<in> set out"
    then show ?thesis
      using collect_mem [OF out [unfolded buildOutboundListeners_def]] build_outbound_built [of any rng push] by blast
  next
    assume "r \<in> set inb"
    then obtain name rs where "name \<in> set (inboundNames ks flt)" "build_inbound any (Some push) node name = Inr rs" "r \<in> set rs"
      using collect_mem [OF inb [unfolded buildInboundListeners_def]] by blast
    moreover from this(1) have "HasPrefix name ServerListenerNamePrefix" by (simp add: inboundNames_def)
    ultimately show ?thesis using build_inbound_built [of any push node name rs r] by blast
  qed
  then show thesis using that name by (auto simp: listener_resource_def)
qed

text \<open>The connections an inbound listener accepts.\<close>

definition accepts_plaintext :: "'a ListenerMsg \<Rightarrow> bool" where
  "accepts_plaintext l \<longleftrightarrow> (\<exists>c \<in> set (lis_FilterChains l). fc_TransportSocket c = None)"

definition server_tls :: DownstreamTlsContext where
  "server_tls = \<lparr>dt_CommonTlsContext =
     \<lparr>ct_TlsCertificate = \<lparr>cp_InstanceName = ''default'', cp_CertificateName = ''default''\<rparr>, ct_AlpnProtocols = [''h2''],
      ct_ValidationProvider = \<lparr>cp_InstanceName = ''default'', cp_CertificateName = ''ROOTCA''\<rparr>,
      ct_MatchSubjectAltNames = []\<rparr>, dt_RequireClientCertificate = True\<rparr>"

definition accepts_certificates :: "('a message \<Rightarrow> 'a) \<Rightarrow> 'a ListenerMsg \<Rightarrow> bool" where
  "accepts_certificates any l \<longleftrightarrow> (\<exists>c \<in> set (lis_FilterChains l).
     fc_TransportSocket c = Some \<lparr>ts_Name = ''transport_sockets.tls'', ts_TypedConfig = any (DownstreamTls server_tls)\<rparr>)"

lemma inbound_accepts:
  assumes "l = inbound_listener any ps name host port si mode"
  shows "accepts_plaintext l \<longleftrightarrow> mode \<noteq> MTLSStrict"
    and "accepts_certificates any l \<longleftrightarrow> mode = MTLSStrict \<or> mode = MTLSPermissive"
    and "lis_FilterChains l \<noteq> []"
    and "\<forall>c \<in> set (lis_FilterChains l). fc_Filters c =
      [\<lparr>fl_Name = HTTPConnectionManager, fl_TypedConfig = Some (any (HttpConnectionManagerMessage (inbound_hcm any ps si port)))\<rparr>]"
  using assms
  by (cases mode; simp add: accepts_plaintext_def accepts_certificates_def inbound_listener_def buildInboundFilterChains_def
      buildDownstreamTransportSocket_def buildCommonTLSContext_def server_tls_def Let_def)+

section \<open>Properties\<close>

text \<open>
  C12: only requested listeners are returned, and what an inbound listener accepts is decided by the
  mutual TLS mode of the namespace of the proxy at the port the listener is bound to, a port of one of
  the proxy's services: it accepts plain text exactly when the mode is not strict, connections with a
  client certificate exactly when the mode is strict or permissive, and every accepted connection
  passes the HTTP filters of that service.
\<close>

theorem inbound_listener_modes:
  assumes "BuildListeners any rng ks node (Some push) names = Inr res" and "r \<in> set res"
  shows "\<exists>l. r = listener_resource any l \<and> (names \<noteq> [] \<longrightarrow> lis_Name l \<in> set names) \<and>
    (lis_FilterChains l = [] \<or>
     (\<exists>host port si mode. lis_Address l = SocketAddress host (st_TargetPort si) \<and>
        si \<in> set (px_ServiceTargets node) \<and> st_TargetPort si = word_of_int port \<and>
        EffectiveMutualTLSMode (cs_AuthenticationPolicies (pc_ConfigSnapshot push)) (proxy_namespace node) fmempty
          (st_TargetPort si) = Inr mode \<and>
        (accepts_plaintext l \<longleftrightarrow> mode \<noteq> MTLSStrict) \<and>
        (accepts_certificates any l \<longleftrightarrow> mode = MTLSStrict \<or> mode = MTLSPermissive) \<and>
        (\<forall>c \<in> set (lis_FilterChains l). fc_Filters c = [\<lparr>fl_Name = HTTPConnectionManager, fl_TypedConfig =
          Some (any (HttpConnectionManagerMessage (inbound_hcm any (pc_ConfigSnapshot push) si port)))\<rparr>])))"
proof -
  obtain l where l: "r = listener_resource any l" and kind: "is_outbound any rng (pc_ConfigSnapshot push) l \<or>
      is_inbound any (pc_ConfigSnapshot push) node l" and name: "names \<noteq> [] \<longrightarrow> lis_Name l \<in> set names"
    by (rule BuildListeners_built [OF assms])
  from kind show ?thesis
  proof
    assume "is_outbound any rng (pc_ConfigSnapshot push) l"
    then have "lis_FilterChains l = []" by (auto simp: is_outbound_def outbound_listener_def)
    then show ?thesis using l name by blast
  next
    assume "is_inbound any (pc_ConfigSnapshot push) node l"
    then obtain name host port si mode where si: "si \<in> set (px_ServiceTargets node)" "st_TargetPort si = word_of_int port"
      and mode: "EffectiveMutualTLSMode (cs_AuthenticationPolicies (pc_ConfigSnapshot push)) (proxy_namespace node) fmempty
          (st_TargetPort si) = Inr mode"
      and eq: "l = inbound_listener any (pc_ConfigSnapshot push) name host port si mode"
      unfolding is_inbound_def by auto
    have "lis_Address l = SocketAddress host (st_TargetPort si)"
      using si(2) by (simp add: eq inbound_listener_def Let_def)
    with l name si mode inbound_accepts [OF eq] show ?thesis by blast
  qed
qed

text \<open>
  C4: client and server agree on mutual TLS when a service listens on the port it is known under. For
  a server in the namespace of the service and a snapshot that both are configured from, the cluster
  of the client has a TLS transport socket if and only if the listener at that port rejects plain
  text. (A permissive listener accepts both, so that a client without TLS is served.)
\<close>

theorem client_and_server_agree:
  assumes "generates_safely rng (pc_ConfigSnapshot push)" and "\<And>K. is_range (ks K) K"
    and "BuildClusters any lb rng ks (Some push) clusters = Inr cres" and "cr \<in> set cres"
    and "ParseSubsetKey (res_Name cr) = (dir, ss, hostname, port)"
    and "ServiceForHostname rng (pc_ConfigSnapshot push) hostname = Some svc"
    and "BuildListeners any rng ks node (Some push) listeners = Inr lres" and "lr \<in> set lres"
    and "proxy_namespace node = sa_Namespace (svc_Attributes svc)"
  shows "\<exists>c l. cr = cluster_resource any c \<and> lr = listener_resource any l \<and>
    (lis_FilterChains l \<noteq> [] \<and> (\<exists>h. lis_Address l = SocketAddress h (word_of_int port)) \<longrightarrow>
       (clu_TransportSocket c \<noteq> None \<longleftrightarrow> \<not> accepts_plaintext l))"
proof -
  let ?ps = "pc_ConfigSnapshot push"
  obtain name c where c: "cr = cluster_resource any c" and built: "cluster_for any lb rng ?ps name = Some c"
    by (rule BuildClusters_received [OF assms(1,2), of any lb clusters]) (use assms(3,4) in auto)
  have "name = res_Name cr" using cluster_for_name [OF built] by (simp add: c cluster_resource_def)
  then have socket: "clu_TransportSocket c \<noteq> None \<longleftrightarrow> strict_for_clients ?ps svc port"
    using built assms(5,6) by (auto simp: cluster_for_def plain_cluster_def split: if_splits)
  obtain l where l: "lr = listener_resource any l"
    and kind: "is_outbound any rng ?ps l \<or> is_inbound any ?ps node l"
    by (rule BuildListeners_built [OF assms(7,8)])
  have "clu_TransportSocket c \<noteq> None \<longleftrightarrow> \<not> accepts_plaintext l"
    if chains: "lis_FilterChains l \<noteq> []" and addr: "lis_Address l = SocketAddress h (word_of_int port)" for h
  proof -
    have "is_inbound any ?ps node l" using kind chains by (auto simp: is_outbound_def outbound_listener_def)
    then obtain name' host port' si mode where
      mode: "EffectiveMutualTLSMode (cs_AuthenticationPolicies ?ps) (proxy_namespace node) fmempty (word_of_int port') = Inr mode"
      and eq: "l = inbound_listener any ?ps name' host port' si mode"
      unfolding is_inbound_def by blast
    have "(word_of_int port' :: 32 word) = word_of_int port" using addr by (simp add: eq inbound_listener_def Let_def)
    then have "strict_for_clients ?ps svc port \<longleftrightarrow> mode = MTLSStrict"
      using mode assms(9) by (simp add: strict_for_clients_def)
    then show ?thesis using socket inbound_accepts(1) [OF eq] by blast
  qed
  then show ?thesis using c l by blast
qed

definition example_node :: "(unit, unit) Proxy" where
  "example_node = \<lparr>px_LastPushContext = None, px_LastPushTime = 0, px_Type = Inherent, px_WatchedResources = fmempty,
     px_ID = ''p'', px_DNSDomain = ''app.svc.cluster.local'',
     px_Metadata = Some \<lparr>nm_Generator = ''grpc'', nm_ClusterID = [], nm_Namespace = ''app''\<rparr>,
     px_IPAddresses = [], px_ConfigNamespace = ''app'',
     px_ServiceTargets = [\<lparr>st_Service = example_web, st_ServicePort = example_port, st_TargetPort = 80\<rparr>,
       \<lparr>st_Service = example_web, st_ServicePort = example_port, st_TargetPort = 8080\<rparr>]\<rparr>"

definition inbound_name :: "string \<Rightarrow> string" where
  "inbound_name p = ServerListenerNamePrefix @ ''0.0.0.0:'' @ p"

lemma example_web_namespace: "sa_Namespace (svc_Attributes example_web) = ''app''"
  by (simp add: example_web_def example_svc_def)

lemma inbound_name_prefix: "HasPrefix (inbound_name p) ServerListenerNamePrefix"
  by (simp add: HasPrefix_def inbound_name_def)

lemma inbound_name_split:
  "CHR '':'' \<notin> set p \<Longrightarrow> CHR ''['' \<notin> set p \<Longrightarrow> CHR '']'' \<notin> set p \<Longrightarrow>
     SplitHostPort (TrimPrefix (inbound_name p) ServerListenerNamePrefix) = Some (''0.0.0.0'', p)"
  using LastIndex_append [of "CHR '':''" p "''0.0.0.0''"]
  by (simp add: inbound_name_def TrimPrefix_def HasPrefix_def SplitHostPort_def Let_def)

text \<open>A request for a single inbound listener.\<close>

lemma BuildListeners_inbound:
  assumes "SplitHostPort (TrimPrefix name ServerListenerNamePrefix) = Some (host, portStr)"
    and "Atoi portStr = (port, True)"
    and "fmlookup (service_instances_by_port (px_ServiceTargets node)) (word_of_int port) = Some si"
    and "EffectiveMutualTLSMode (cs_AuthenticationPolicies (pc_ConfigSnapshot push)) (proxy_namespace node) fmempty
        (word_of_int port) = Inr mode"
    and "HasPrefix name ServerListenerNamePrefix" and ks: "\<And>K. is_range (ks K) K"
  shows "BuildListeners any rng ks node (Some push) [name] =
    Inr [listener_resource any (inbound_listener any (pc_ConfigSnapshot push) name host port si mode)]"
proof -
  let ?f = "fmupd name \<lparr>ln_RequestedNames = {|name|}, ln_Ports = None\<rparr> fmempty :: listenerNames"
  have "ks {|name|} = [name]"
    using is_range_set [OF ks, of "{|name|}"] is_range_distinct [OF ks, of "{|name|}"]
    by (intro distinct_singleton) auto
  then have "outbound_listeners ks ?f = []" "inboundNames ks ?f = [name]"
    using assms(5) by (simp_all add: outbound_listeners_def inboundNames_def)
  moreover have "build_inbound any (Some push) node name =
      Inr [listener_resource any (inbound_listener any (pc_ConfigSnapshot push) name host port si mode)]"
    by (simp add: build_inbound_def assms InboundMTLSModeForProxy_eq)
  moreover have "newListenerNameFilter [name] node = Inr ?f"
    using assms(5) by (simp add: newListenerNameFilter_def add_requested_name_def)
  ultimately show ?thesis
    by (simp add: BuildListeners_def buildOutboundListeners_def buildInboundListeners_def listener_resource_def
        inbound_listener_def Let_def)
qed

text \<open>A request for a single outbound listener whose host name is not completed.\<close>

lemma BuildListeners_outbound:
  assumes split: "SplitHostPort name = Some (host, portStr)" "SplitHostPort portStr = None"
    and name: "name = host @ '':'' @ portStr" "\<not> HasPrefix name ServerListenerNamePrefix" "\<not> HasPrefix host ServerListenerNamePrefix"
    and fqdn: "tryFindFQDN host node = Inr []" and atoi: "Atoi portStr = (port, True)"
    and svc: "find_service rng (pc_ConfigSnapshot push) host = Some svc"
    and port: "GetByPort (service_ports svc) port = Inr (p, True)" and ks: "\<And>K. is_range (ks K) K"
  shows "BuildListeners any rng ks node (Some push) [name] = Inr [listener_resource any (outbound_listener any name svc port)]"
proof -
  let ?f = "fmupd host \<lparr>ln_RequestedNames = {|host|}, ln_Ports = Some {|portStr|}\<rparr> fmempty"
  have one: "ks {|x|} = [x]" for x
    using is_range_set [OF ks, of "{|x|}"] is_range_distinct [OF ks, of "{|x|}"] by (intro distinct_singleton) auto
  have flt: "newListenerNameFilter [name] node = Inr ?f"
    using name(2) split(1) by (simp add: newListenerNameFilter_def add_requested_name_def fqdn add_listener_name_def)
  have lists: "outbound_listeners ks ?f = [(host, portStr)]" "inboundNames ks ?f = []"
    using name(3) by (simp_all add: outbound_listeners_def inboundNames_def Len_def one)
  have "build_outbound any rng (Some push) (host, portStr) = Inr [listener_resource any (outbound_listener any name svc port)]"
    by (simp add: build_outbound_def split atoi svc port name(1))
  then show ?thesis
    by (simp add: BuildListeners_def flt buildOutboundListeners_def buildInboundListeners_def lists listener_resource_def
        outbound_listener_def)
qed

lemma Atoi_ports: "Atoi ''80'' = (80, True)" "Atoi ''8080'' = (8080, True)"
  by (simp_all add: eval_key)

lemma example_node_targets:
  "fmlookup (service_instances_by_port (px_ServiceTargets example_node)) 80 =
     Some \<lparr>st_Service = example_web, st_ServicePort = example_port, st_TargetPort = 80\<rparr>"
  "fmlookup (service_instances_by_port (px_ServiceTargets example_node)) 8080 =
     Some \<lparr>st_Service = example_web, st_ServicePort = example_port, st_TargetPort = 8080\<rparr>"
  "proxy_namespace example_node = ''app''"
  by (simp_all add: service_instances_by_port_def example_node_def proxy_namespace_def)

lemma example_inbound:
  assumes "EffectiveMutualTLSMode (cs_AuthenticationPolicies (pc_ConfigSnapshot push)) ''app'' fmempty 80 = Inr mode"
  shows "BuildListeners any rng sorted_list_of_fset example_node (Some push) [inbound_name ''80''] =
    Inr [listener_resource any (inbound_listener any (pc_ConfigSnapshot push) (inbound_name ''80'') ''0.0.0.0'' 80
      \<lparr>st_Service = example_web, st_ServicePort = example_port, st_TargetPort = 80\<rparr> mode)]"
  by (rule BuildListeners_inbound [OF inbound_name_split Atoi_ports(1)])
    (use assms in \<open>simp_all add: example_node_targets inbound_name_prefix sorted_list_range\<close>)

text \<open>An encoding that keeps of a listener how many filter chains it has.\<close>

definition count_chains :: "nat message \<Rightarrow> nat" where
  "count_chains m = (case m of ListenerMessage l \<Rightarrow> length (lis_FilterChains l) | _ \<Rightarrow> 0)"

lemma example_strict_chain:
  "BuildListeners count_chains sorted_list_of_fset sorted_list_of_fset example_node (Some (example_grpc_push services))
     [inbound_name ''80''] = Inr [\<lparr>res_Name = inbound_name ''80'', res_Resource = 1\<rparr>]"
  unfolding example_inbound [OF example_mode]
  by (simp add: listener_resource_def count_chains_def inbound_listener_def buildInboundFilterChains_def
      buildDownstreamTransportSocket_def Let_def)

theorem inbound_listener_modes_witness:
  "\<exists>l. BuildListeners count_chains sorted_list_of_fset sorted_list_of_fset example_node
      (Some (example_grpc_push [example_web])) [inbound_name ''80''] = Inr [listener_resource count_chains l] \<and>
     lis_FilterChains l \<noteq> [] \<and> \<not> accepts_plaintext l \<and> accepts_certificates count_chains l"
proof -
  obtain l where l: "\<lparr>res_Name = inbound_name ''80'', res_Resource = 1\<rparr> = listener_resource count_chains l"
    and "lis_FilterChains l = [] \<or> \<not> accepts_plaintext l \<and> accepts_certificates count_chains l"
    using inbound_listener_modes [OF example_strict_chain [of "[example_web]"], simplified]
    by (auto simp: example_mode)
  moreover have "lis_FilterChains l \<noteq> []" using l by (auto simp: listener_resource_def count_chains_def)
  ultimately show ?thesis using example_strict_chain [of "[example_web]"] by auto
qed

text \<open>A request for a single cluster.\<close>

lemma BuildClusters_one:
  assumes "generates_safely rng (pc_ConfigSnapshot push)" and ks: "\<And>K. is_range (ks K) K"
    and "cluster_for any lb rng (pc_ConfigSnapshot push) name = Some c"
  shows "BuildClusters any lb rng ks (Some push) [name] = Inr [cluster_resource any c]"
proof -
  have "fmdom (newClusterFilter [name]) = {|name|}"
    using cluster_for_key [OF assms(3)] by (simp add: fmdom_newClusterFilter)
  moreover have "ks {|name|} = [name]"
    using is_range_set [OF ks, of "{|name|}"] is_range_distinct [OF ks, of "{|name|}"]
    by (intro distinct_singleton) auto
  ultimately show ?thesis
    using BuildClusters_eq [OF assms(1), where ks = ks and names = "[name]" and any = any and lb = lb, OF ks] assms(3)
    by (simp add: opt_list_def)
qed

text \<open>An encoding that keeps whether a cluster is secured, and the chains and the address of a listener.\<close>

definition summary :: "(nat \<times> Address) message \<Rightarrow> nat \<times> Address" where
  "summary m = (case m of ClusterMessage c \<Rightarrow> (if clu_TransportSocket c = None then 0 else 1, Pipe [])
     | ListenerMessage l \<Rightarrow> (length (lis_FilterChains l), lis_Address l) | _ \<Rightarrow> (0, Pipe []))"

theorem client_and_server_agree_witness:
  "\<exists>c l. BuildClusters summary [] sorted_list_of_fset sorted_list_of_fset (Some (example_grpc_push [example_web]))
      [''outbound|80||web''] = Inr [cluster_resource summary c] \<and>
     BuildListeners summary sorted_list_of_fset sorted_list_of_fset example_node (Some (example_grpc_push [example_web]))
      [inbound_name ''80''] = Inr [listener_resource summary l] \<and>
     clu_TransportSocket c \<noteq> None \<and> \<not> accepts_plaintext l"
proof -
  let ?push = "example_grpc_push [example_web]" and ?o = "sorted_list_of_fset :: string fset \<Rightarrow> string list"
  have safe: "generates_safely ?o (pc_ConfigSnapshot ?push)" by (rule example_safe) (simp add: example_web_facts)
  obtain c where "cluster_for summary [] ?o (pc_ConfigSnapshot ?push) ''outbound|80||web'' = Some c"
    and socket: "clu_TransportSocket c \<noteq> None"
    by (auto simp: cluster_for_def example_cluster_parse example_cluster_key example_lookup example_web_facts
        strict_for_clients_def example_mode)
  from BuildClusters_one [OF safe sorted_list_range this(1)]
  have clusters: "BuildClusters summary [] ?o ?o (Some ?push) [''outbound|80||web''] = Inr [cluster_resource summary c]"
    and name: "res_Name (cluster_resource summary c) = ''outbound|80||web''"
    using cluster_for_name [OF \<open>cluster_for summary [] ?o _ _ = Some c\<close>] by (simp_all add: cluster_resource_def)
  note listeners = example_inbound [OF example_mode [of "[example_web]" "''app''" fmempty 80], of summary ?o]
  obtain c' l where c': "cluster_resource summary c = cluster_resource summary c'"
    and l: "listener_resource summary (inbound_listener summary (pc_ConfigSnapshot ?push) (inbound_name ''80'') ''0.0.0.0'' 80
      \<lparr>st_Service = example_web, st_ServicePort = example_port, st_TargetPort = 80\<rparr> MTLSStrict) = listener_resource summary l"
    and agree: "lis_FilterChains l \<noteq> [] \<and> (\<exists>h. lis_Address l = SocketAddress h (word_of_int 80)) \<longrightarrow>
      (clu_TransportSocket c' \<noteq> None \<longleftrightarrow> \<not> accepts_plaintext l)"
    using client_and_server_agree [OF safe sorted_list_range clusters _ _ _ listeners, of "cluster_resource summary c"
        "''outbound''" "[]" "''web''" 80 example_web, simplified name example_cluster_parse]
    by (auto simp: example_lookup example_web_facts example_node_targets example_web_def example_svc_def)
  have "lis_FilterChains l \<noteq> []" "lis_Address l = SocketAddress ''0.0.0.0'' 80"
    using l by (auto simp: listener_resource_def summary_def inbound_listener_def buildInboundFilterChains_def
        buildDownstreamTransportSocket_def Let_def)
  moreover have "clu_TransportSocket c' \<noteq> None"
    using c' socket by (auto simp: cluster_resource_def summary_def split: if_splits)
  ultimately have "\<not> accepts_plaintext l" using agree by simp
  then show ?thesis
    using clusters listeners l \<open>clu_TransportSocket c' \<noteq> None\<close> c' by (intro exI [of _ c'] exI [of _ l]) simp
qed

text \<open>A policy of the namespace that is strict for the port 8080 of its workloads only.\<close>

definition example_port_policy :: Config where
  "example_port_policy = (example_peer ''app'' ''p'' 0 MODE_DISABLE)\<lparr>cfg_Spec := PeerAuthn (Some
     \<lparr>pa_Selector = None, pa_Mtls = Some MODE_DISABLE, pa_PortLevelMtls = fmupd 8080 (Some MODE_STRICT) fmempty\<rparr>)\<rparr>"

definition example_split_push :: "nat push_context" where
  "example_split_push = (example_grpc_push [example_web])\<lparr>pc_ConfigSnapshot :=
     (pc_ConfigSnapshot (example_grpc_push [example_web]))\<lparr>cs_AuthenticationPolicies := Some (example_policies
       \<lparr>au_peerAuthentications := fmupd ''app'' [example_port_policy] fmempty, au_globalMutualTLSMode := MTLSUnknown\<rparr>)\<rparr>\<rparr>"

lemma example_split_mode:
  "\<exists>m. EffectiveMutualTLSMode (cs_AuthenticationPolicies (pc_ConfigSnapshot example_split_push)) ns fmempty port = Inr m"
  "EffectiveMutualTLSMode (cs_AuthenticationPolicies (pc_ConfigSnapshot example_split_push)) ''app'' fmempty 80 =
     Inr MTLSDisable"
  "EffectiveMutualTLSMode (cs_AuthenticationPolicies (pc_ConfigSnapshot example_split_push)) ''app'' fmempty 8080 =
     Inr MTLSStrict"
  by (simp_all add: example_split_push_def example_policies_def EffectiveMutualTLSMode_def matchingPeerAuthentication_def
      slice_at_def Let_def example_port_policy_def hasPeerAuthSelector_def peer_selector_def no_labels_def
      peerAuthenticationModeForPort_def ConvertToMutualTLSMode_def split: option.splits)


text \<open>A registry that only knows the service of another team.\<close>

definition example_team_b :: Service where
  "example_team_b = example_web\<lparr>svc_Hostname := ''web.team-b.svc''\<rparr>"

definition example_team_push :: "nat push_context" where
  "example_team_push = \<lparr>pc_ConfigSnapshot = NewConfigSnapshot\<lparr>cs_ServiceIndex := newServiceIndex\<lparr>
     si_public := [example_team_b], si_HostnameAndNamespace :=
       fmap_of_list [(''web.team-b.svc'', fmap_of_list [(''team-b'', example_team_b)])]\<rparr>\<rparr>, pc_PushVersion = ''v''\<rparr>"

lemma example_team_lookup:
  "ServiceForHostname sorted_list_of_fset (pc_ConfigSnapshot example_team_push) h =
     (if h = ''web.team-b.svc'' then Some example_team_b else None)"
  by (simp add: example_team_push_def ServiceForHostname_def at_or_empty_def newServiceIndex_def Let_def
      sorted_list_of_fset.rep_eq)

lemma example_team_all: "GetAllServices sorted_list_of_fset (pc_ConfigSnapshot example_team_push) = [example_team_b]"
  by (simp add: example_team_push_def GetAllServices_def servicesExportedToNamespace_def newServiceIndex_def
      NewConfigSnapshot_def sorted_list_of_fset.rep_eq)

lemma example_team_port: "GetByPort (service_ports example_team_b) 80 = Inr (Some example_port, True)"
  by (simp add: example_team_b_def service_ports_def example_web_def example_port_def)

lemma example_splits:
  "SplitHostPort ''web.team-a.svc:80'' = Some (''web.team-a.svc'', ''80'')"
  "SplitHostPort ''web.team-b.svc:80'' = Some (''web.team-b.svc'', ''80'')"
  "SplitHostPort ''80'' = None" "SplitHostPort ''web.team-a.svc'' = None"
  by (simp_all add: SplitHostPort_def Let_def)

lemma example_no_fqdn:
  "tryFindFQDN ''web.team-a.svc'' example_node = Inr []" "tryFindFQDN ''web.team-b.svc'' example_node = Inr []"
  by (simp_all add: tryFindFQDN_def example_node_def TrimSuffix_def HasSuffix_def)

text \<open>
  An outbound listener may lead to a service of another namespace. When the requested host name is
  not known, the code searches all services for one whose name starts with the first label of the
  requested name: the listener for \<^verbatim>\<open>web.team-a.svc:80\<close> is then generated although there is no such
  service, and its routes are those of \<^verbatim>\<open>web.team-b.svc\<close>.
\<close>

lemma listener_crosses_namespaces:
  "ServiceForHostname sorted_list_of_fset (pc_ConfigSnapshot example_team_push) ''web.team-a.svc'' = None \<and>
   (\<exists>l h. BuildListeners any sorted_list_of_fset sorted_list_of_fset example_node (Some example_team_push)
      [''web.team-a.svc:80''] = Inr [listener_resource any l] \<and> lis_Name l = ''web.team-a.svc:80'' \<and>
     lis_ApiListener l = Some (any (HttpConnectionManagerMessage h)) \<and>
     hcm_RouteSpecifier h = RdsRoutes ADS ''outbound|80||web.team-b.svc'')"
proof -
  let ?o = "sorted_list_of_fset :: string fset \<Rightarrow> string list"
  note port = example_team_port
  have none: "ServiceForHostname ?o (pc_ConfigSnapshot example_team_push) h = None" if "h \<noteq> ''web.team-b.svc''" for h
    using that by (simp add: example_team_lookup)
  have found: "find_service ?o (pc_ConfigSnapshot example_team_push) ''web.team-a.svc'' = Some example_team_b"
    by (simp add: find_service_def none example_team_all example_team_b_def HasPrefix_def)
  let ?l = "outbound_listener any ''web.team-a.svc:80'' example_team_b 80"
  have "BuildListeners any ?o ?o example_node (Some example_team_push) [''web.team-a.svc:80''] =
      Inr [listener_resource any ?l]"
    by (rule BuildListeners_outbound [OF example_splits(1,3) _ _ _ example_no_fqdn(1) Atoi_ports(1) found port sorted_list_range])
      (simp_all add: HasPrefix_def ServerListenerNamePrefix_def)
  moreover have "hcm_RouteSpecifier (outbound_hcm any example_team_b 80) = RdsRoutes ADS ''outbound|80||web.team-b.svc''"
    by (simp add: outbound_hcm_def BuildSubsetKey_def TrafficDirectionOutbound_def Itoa_80 example_team_b_def)
  ultimately show ?thesis
    using none by (intro conjI exI [of _ ?l] exI [of _ "outbound_hcm any example_team_b 80"])
      (simp_all add: outbound_listener_def)
qed

text \<open>
  Asking for a host without a port as well removes the listener that was asked for: the entry of the
  host loses its ports, and an entry without ports is skipped.
\<close>

lemma name_without_port_removes_listener:
  "BuildListeners any rng sorted_list_of_fset example_node push [''web.team-a.svc:80'', ''web.team-a.svc''] = Inr []"
proof -
  let ?f = "fmupd ''web.team-a.svc'' \<lparr>ln_RequestedNames = {|''web.team-a.svc''|}, ln_Ports = None\<rparr> fmempty"
  have flt: "newListenerNameFilter [''web.team-a.svc:80'', ''web.team-a.svc''] example_node = Inr ?f"
    by (simp add: newListenerNameFilter_def add_requested_name_def HasPrefix_def ServerListenerNamePrefix_def example_splits
        example_no_fqdn add_listener_name_def)
  have "outbound_listeners sorted_list_of_fset ?f = []" "inboundNames sorted_list_of_fset ?f = []"
    by (simp_all add: outbound_listeners_def inboundNames_def HasPrefix_def ServerListenerNamePrefix_def example_splits
        sorted_list_of_fset.rep_eq)
  then show ?thesis
    by (simp add: BuildListeners_def flt buildOutboundListeners_def buildInboundListeners_def)
qed

end
