(* ===== verification/Routes.thy ===== *)
theory Routes
  imports Listeners
begin

text \<open>
  Route discovery for proxyless gRPC: \<^verbatim>\<open>dubbod/discovery/pkg/networking/grpcgen/rds.go\<close>, the translation of
  the HTTP routes of the Gateway API that are attached to a service, and the composition of the four
  kinds of resources of a client. \<open>rng\<close> is the order of the namespaces of a host name and of the host
  patterns of the routes, \<open>any\<close> encodes a message. \<open>fpart f k u_ns\<close> is the floating point product that
  \<^verbatim>\<open>time.ParseDuration\<close> takes of the \<open>k\<close> digits \<open>f\<close> after the point and a unit.
\<close>

section \<open>Durations\<close>

text \<open>\<^verbatim>\<open>leadingInt\<close> of package \<^verbatim>\<open>time\<close> fails on a number above \<^verbatim>\<open>1<<63\<close>.\<close>

fun leadingInt :: "nat \<Rightarrow> string \<Rightarrow> (nat \<times> string) option" where
  "leadingInt x [] = Some (x, [])"
| "leadingInt x (c # s) =
     (if \<not> is_digit c then Some (x, c # s)
      else if x > 2 ^ 63 div 10 then None
      else if x * 10 + digit_val c > 2 ^ 63 then None
      else leadingInt (x * 10 + digit_val c) s)"

text \<open>The digits after the point: their value, how many of them count, and the rest; \<open>ov\<close> is \<^verbatim>\<open>overflow\<close>.\<close>

fun leadingFraction :: "bool \<Rightarrow> nat \<Rightarrow> nat \<Rightarrow> string \<Rightarrow> nat \<times> nat \<times> string" where
  "leadingFraction ov x k [] = (x, k, [])"
| "leadingFraction ov x k (c # s) =
     (if \<not> is_digit c then (x, k, c # s)
      else if ov \<or> x > (2 ^ 63 - 1) div 10 \<or> x * 10 + digit_val c > 2 ^ 63 then leadingFraction True x k s
      else leadingFraction False (x * 10 + digit_val c) (k + 1) s)"

text \<open>The micro sign and the Greek letter are two bytes each.\<close>

definition unitMap :: "string \<Rightarrow> nat option" where
  "unitMap u =
     map_of [(''ns'', 1), (''us'', 1000), ([char_of (0xC2 :: nat), char_of (0xB5 :: nat), CHR ''s''], 1000),
       ([char_of (0xCE :: nat), char_of (0xBC :: nat), CHR ''s''], 1000), (''ms'', 1000000), (''s'', 1000000000),
       (''m'', 60000000000), (''h'', 3600000000000)] u"

text \<open>One element of the duration: its value in nanoseconds and the rest of the string.\<close>

definition duration_element :: "(nat \<Rightarrow> nat \<Rightarrow> nat \<Rightarrow> nat) \<Rightarrow> string \<Rightarrow> (nat \<times> string) option" where
  "duration_element fpart s =
     (if \<not> (hd s = CHR ''.'' \<or> is_digit (hd s)) then None
      else case leadingInt 0 s of None \<Rightarrow> None
      | Some (v, s1) \<Rightarrow>
          let pre = length s \<noteq> length s1;
              (f, k, s2) = (if s1 \<noteq> [] \<and> hd s1 = CHR ''.'' then leadingFraction False 0 0 (tl s1) else (0, 0, s1));
              post = s1 \<noteq> [] \<and> hd s1 = CHR ''.'' \<and> length (tl s1) \<noteq> length s2;
              u = takeWhile (\<lambda>c. \<not> (c = CHR ''.'' \<or> is_digit c)) s2;
              s3 = dropWhile (\<lambda>c. \<not> (c = CHR ''.'' \<or> is_digit c)) s2
          in if \<not> pre \<and> \<not> post \<or> u = [] then None
             else case unitMap u of None \<Rightarrow> None
             | Some u_ns \<Rightarrow>
                 if v > 2 ^ 63 div u_ns then None
                 else let v = v * u_ns; v' = (if f > 0 then v + fpart f k u_ns else v)
                 in if f > 0 \<and> v' > 2 ^ 63 then None else Some (v', s3))"

lemma leadingInt_length: "leadingInt x s = Some (v, r) \<Longrightarrow> length r \<le> length s"
  by (induction x s arbitrary: v r rule: leadingInt.induct) (fastforce split: if_splits)+

lemma leadingFraction_length: "leadingFraction ov x k s = (f, k', r) \<Longrightarrow> length r \<le> length s"
  by (induction ov x k s arbitrary: f k' r rule: leadingFraction.induct) (fastforce split: if_splits)+

lemma duration_element_shorter:
  assumes "duration_element fpart s = Some (v, r)"
  shows "length r < length s"
proof -
  let ?sep = "\<lambda>c. \<not> (c = CHR ''.'' \<or> is_digit c)"
  have drop: "takeWhile ?sep t \<noteq> [] \<Longrightarrow> length (dropWhile ?sep t) < length t" for t
    by (metis append_eq_conv_conj length_append length_greater_0_conv less_add_same_cancel2 takeWhile_dropWhile_id)
  obtain v1 s1 where s1: "leadingInt 0 s = Some (v1, s1)"
    using assms by (auto simp: duration_element_def split: if_splits option.splits)
  let ?t = "if s1 \<noteq> [] \<and> hd s1 = CHR ''.'' then leadingFraction False 0 0 (tl s1) else (0, 0, s1)"
  obtain f k s2 where s2: "?t = (f, k, s2)" by (cases ?t) auto
  have "length s2 \<le> length s1"
    using s2 leadingFraction_length [of False 0 0 "tl s1" f k s2] by (cases s1) (auto split: if_splits)
  moreover have "length s1 \<le> length s" by (rule leadingInt_length [OF s1])
  moreover have "takeWhile ?sep s2 \<noteq> [] \<and> r = dropWhile ?sep s2"
    using assms by (auto simp: duration_element_def s1 s2 Let_def split: if_splits option.splits)
  ultimately show ?thesis using drop [of s2] by auto
qed

text \<open>The sum \<open>d\<close> of the elements is of type \<^verbatim>\<open>uint64\<close>.\<close>

function duration_loop :: "(nat \<Rightarrow> nat \<Rightarrow> nat \<Rightarrow> nat) \<Rightarrow> nat \<Rightarrow> string \<Rightarrow> nat option" where
  "duration_loop fpart d s =
     (if s = [] then Some d
      else case duration_element fpart s of None \<Rightarrow> None
      | Some (v, s') \<Rightarrow>
          let d = (d + v) mod 2 ^ 64 in if d > 2 ^ 63 then None else duration_loop fpart d s')"
  by pat_completeness auto
termination by (relation "measure (\<lambda>(fpart, d, s). length s)") (auto dest: duration_element_shorter)

declare duration_loop.simps [simp del]

definition ParseDuration :: "(nat \<Rightarrow> nat \<Rightarrow> nat \<Rightarrow> nat) \<Rightarrow> string \<Rightarrow> int option" where
  "ParseDuration fpart s =
     (let neg = (s \<noteq> [] \<and> hd s = CHR ''-'');
          s = (if s \<noteq> [] \<and> (hd s = CHR ''-'' \<or> hd s = CHR ''+'') then tl s else s)
      in if s = ''0'' then Some 0
         else if s = [] then None
         else case duration_loop fpart 0 s of None \<Rightarrow> None
         | Some d \<Rightarrow> if neg then Some (- int d) else if d > 2 ^ 63 - 1 then None else Some (int d))"

definition gatewayAPIDurationToProto :: "(nat \<Rightarrow> nat \<Rightarrow> nat \<Rightarrow> nat) \<Rightarrow> string option \<Rightarrow> int option" where
  "gatewayAPIDurationToProto fpart duration = (case duration of None \<Rightarrow> None | Some d \<Rightarrow> ParseDuration fpart d)"

text \<open>Multiplication of type \<^verbatim>\<open>int64\<close>.\<close>

definition int64 :: "int \<Rightarrow> int" where
  "int64 x = sint (word_of_int x :: 64 word)"

definition gatewayAPIRetryPolicy ::
    "(nat \<Rightarrow> nat \<Rightarrow> nat \<Rightarrow> nat) \<Rightarrow> HTTPRouteRetry option \<Rightarrow> HTTPRouteTimeouts option \<Rightarrow> RetryPolicy option" where
  "gatewayAPIRetryPolicy fpart retry timeouts =
     (case retry of None \<Rightarrow> None
      | Some retry \<Rightarrow>
          let attempts = (case rt_Attempts retry of None \<Rightarrow> 1 | Some a \<Rightarrow> a) in
          if attempts \<le> 0 then None
          else let statusCodes = map word_of_int (filter (\<lambda>code. 400 \<le> code \<and> code \<le> 599) (rt_Codes retry));
              retryOn = [''connect-failure'', ''reset''] @ (if length statusCodes > 0 then [''retriable-status-codes''] else [])
          in Some \<lparr>rp_RetryOn = Join retryOn '','', rp_NumRetries = word_of_int attempts,
               rp_RetriableStatusCodes = statusCodes,
               rp_PerTryTimeout = (case timeouts of None \<Rightarrow> None
                 | Some t \<Rightarrow> gatewayAPIDurationToProto fpart (to_BackendRequest t)),
               rp_RetryBackOff = (case gatewayAPIDurationToProto fpart (rt_Backoff retry) of
                   Some base \<Rightarrow> if base > 0 then Some \<lparr>rb_BaseInterval = base, rb_MaxInterval = int64 (10 * base)\<rparr> else None
                 | None \<Rightarrow> None)\<rparr>)"

section \<open>Matches\<close>

definition path_specifier_of :: "HTTPPathMatch option \<Rightarrow> path_specifier" where
  "path_specifier_of path =
     (case path of None \<Rightarrow> Prefix ''/''
      | Some path \<Rightarrow>
          let pathValue = (case pm_Value path of None \<Rightarrow> [] | Some v \<Rightarrow> v)
          in (case pm_Type path of
                Some PathMatchExact \<Rightarrow> Path pathValue
              | Some PathMatchPathPrefix \<Rightarrow> Prefix pathValue
              | Some PathMatchRegularExpression \<Rightarrow> SafeRegex pathValue
              | _ \<Rightarrow> Prefix ''/''))"

definition header_matcher_of :: "HTTPHeaderMatch \<Rightarrow> HeaderMatcher option" where
  "header_matcher_of headerMatch =
     (let specifier = (if hh_Value headerMatch = [] then None else case hh_Type headerMatch of
            Some HeaderMatchExact \<Rightarrow> Some (ExactMatch (hh_Value headerMatch))
          | Some HeaderMatchRegularExpression \<Rightarrow> Some (SafeRegexMatch (hh_Value headerMatch))
          | _ \<Rightarrow> None)
      in map_option (\<lambda>sp. \<lparr>hm_Name = hh_Name headerMatch, hm_HeaderMatchSpecifier = sp\<rparr>) specifier)"

definition buildRouteMatchFromHTTPRouteMatch :: "HTTPRouteMatch \<Rightarrow> RouteMatch" where
  "buildRouteMatchFromHTTPRouteMatch match =
     \<lparr>rm_PathSpecifier = path_specifier_of (mt_Path match),
      rm_Headers = List.map_filter header_matcher_of (mt_Headers match)\<rparr>"

definition buildRouteMatchesFromHTTPRouteMatches :: "HTTPRouteMatch list \<Rightarrow> RouteMatch list" where
  "buildRouteMatchesFromHTTPRouteMatches matches =
     (let matches = (if length matches = 0 then [\<lparr>mt_Path = None, mt_Headers = []\<rparr>] else matches)
      in map buildRouteMatchFromHTTPRouteMatch matches)"

section \<open>Attached routes\<close>

definition isServiceParentRef :: "ParentReference \<Rightarrow> bool" where
  "isServiceParentRef parentRef =
     (if pf_Kind parentRef \<noteq> Some ''Service'' then False
      else pf_Group parentRef = None \<or> pf_Group parentRef = Some [])"

fun references_service :: "ParentReference list \<Rightarrow> string \<Rightarrow> Service \<Rightarrow> int \<Rightarrow> panic + bool" where
  "references_service [] routeNamespace svc port = Inr False"
| "references_service (parentRef # refs) routeNamespace svc port =
     (let refNamespace = (case pf_Namespace parentRef of None \<Rightarrow> routeNamespace | Some ns \<Rightarrow> ns);
          next = references_service refs routeNamespace svc port
      in if \<not> isServiceParentRef parentRef then next
         else if refNamespace \<noteq> sa_Namespace (svc_Attributes svc) \<or> pf_Name parentRef \<noteq> sa_Name (svc_Attributes svc) then next
         else if pf_Port parentRef \<noteq> None \<and> pf_Port parentRef \<noteq> Some (word_of_int port) then next
         else case pf_SectionName parentRef of None \<Rightarrow> Inr True
         | Some section \<Rightarrow>
             bind_panic (GetByPort (service_ports svc) port) (\<lambda>(svcPort, found).
             if \<not> found then next
             else case svcPort of None \<Rightarrow> Inl NilDeref
             | Some svcPort \<Rightarrow> if port_Name svcPort \<noteq> section then next else Inr True))"

definition httpRouteReferencesService :: "HTTPRouteSpec option \<Rightarrow> string \<Rightarrow> Service \<Rightarrow> int \<Rightarrow> panic + bool" where
  "httpRouteReferencesService hrSpec routeNamespace svc port =
     (case hrSpec of None \<Rightarrow> Inl NilDeref
      | Some spec \<Rightarrow> references_service (hr_ParentRefs spec) routeNamespace svc port)"

fun as_HTTPRoute :: "Spec \<Rightarrow> HTTPRouteSpec option option" where
  "as_HTTPRoute (HTTPRoute spec) = Some spec"
| "as_HTTPRoute _ = None"

definition attached_route :: "Service \<Rightarrow> int \<Rightarrow> Config \<Rightarrow> panic + Config list" where
  "attached_route svc port hr =
     (case as_HTTPRoute (cfg_Spec hr) of None \<Rightarrow> Inr []
      | Some hrSpec \<Rightarrow> map_sum id (\<lambda>attached. if attached then [hr] else [])
          (httpRouteReferencesService hrSpec (meta_Namespace hr) svc port))"

definition filterHTTPRoutesByService :: "Config list \<Rightarrow> Service \<Rightarrow> int \<Rightarrow> panic + Config list" where
  "filterHTTPRoutesByService httpRoutes svc port = collect (attached_route svc port) httpRoutes"

section \<open>Routes\<close>

definition defaultSingleClusterRoute :: "string \<Rightarrow> FaultPolicy option \<Rightarrow> Route" where
  "defaultSingleClusterRoute clusterName faultPolicy =
     \<lparr>ro_Match = \<lparr>rm_PathSpecifier = Prefix ''/'', rm_Headers = []\<rparr>,
      ro_Action = Route_Route \<lparr>ac_ClusterSpecifier = SingleCluster clusterName, ac_Timeout = None,
        ac_RetryPolicy = None, ac_FaultPolicy = faultPolicy\<rparr>\<rparr>"

definition backend_weight :: "HTTPBackendRef \<Rightarrow> 32 word" where
  "backend_weight backendRef =
     (let weight = (case be_Weight backendRef of None \<Rightarrow> 1 | Some w \<Rightarrow> w) in if weight = 0 then 1 else weight)"

definition backend_cluster :: "string \<Rightarrow> int \<Rightarrow> HTTPBackendRef \<Rightarrow> string" where
  "backend_cluster routeNamespace defaultPort backendRef =
     (let backendNamespace = (case be_Namespace backendRef of None \<Rightarrow> routeNamespace | Some ns \<Rightarrow> ns);
          backendPort = (case be_Port backendRef of None \<Rightarrow> defaultPort | Some p \<Rightarrow> sint p);
          backendHost = be_Name backendRef @ ''.'' @ backendNamespace @ ''.svc.cluster.local''
      in BuildSubsetKey TrafficDirectionOutbound [] backendHost backendPort)"

definition weighted_clusters :: "string \<Rightarrow> int \<Rightarrow> HTTPBackendRef list \<Rightarrow> WeightedCluster" where
  "weighted_clusters routeNamespace defaultPort backendRefs =
     (let totalWeight = fold (\<lambda>backendRef total. total + backend_weight backendRef) backendRefs 0
      in \<lparr>wc_Clusters = map (\<lambda>backendRef. \<lparr>cw_Name = backend_cluster routeNamespace defaultPort backendRef,
            cw_Weight = backend_weight backendRef\<rparr>) backendRefs,
          wc_TotalWeight = (if totalWeight > 0 then Some totalWeight else None)\<rparr>)"

definition routes_of_rule ::
    "(nat \<Rightarrow> nat \<Rightarrow> nat \<Rightarrow> nat) \<Rightarrow> string \<Rightarrow> int \<Rightarrow> FaultPolicy option \<Rightarrow> HTTPRouteRule \<Rightarrow> Route list" where
  "routes_of_rule fpart routeNamespace defaultPort faultPolicy rule =
     (if length (rl_BackendRefs rule) = 0 then []
      else let routeAction =
          \<lparr>ac_ClusterSpecifier = WeightedClusters (weighted_clusters routeNamespace defaultPort (rl_BackendRefs rule)),
           ac_Timeout = (case rl_Timeouts rule of None \<Rightarrow> None | Some t \<Rightarrow> gatewayAPIDurationToProto fpart (to_Request t)),
           ac_RetryPolicy = gatewayAPIRetryPolicy fpart (rl_Retry rule) (rl_Timeouts rule), ac_FaultPolicy = faultPolicy\<rparr>
      in map (\<lambda>routeMatch. \<lparr>ro_Match = routeMatch, ro_Action = Route_Route routeAction\<rparr>)
           (buildRouteMatchesFromHTTPRouteMatches (rl_Matches rule)))"

definition routes_of_config ::
    "(nat \<Rightarrow> nat \<Rightarrow> nat \<Rightarrow> nat) \<Rightarrow> int \<Rightarrow> FaultPolicy option \<Rightarrow> Config \<Rightarrow> panic + Route list" where
  "routes_of_config fpart defaultPort faultPolicy hrConfig =
     (case as_HTTPRoute (cfg_Spec hrConfig) of None \<Rightarrow> Inr []
      | Some None \<Rightarrow> Inl NilDeref
      | Some (Some hrSpec) \<Rightarrow>
          Inr (concat (map (routes_of_rule fpart (meta_Namespace hrConfig) defaultPort faultPolicy) (hr_Rules hrSpec))))"

definition buildRoutesFromGatewayHTTPRoute ::
    "(nat \<Rightarrow> nat \<Rightarrow> nat \<Rightarrow> nat) \<Rightarrow> Config list \<Rightarrow> int \<Rightarrow> FaultPolicy option \<Rightarrow> panic + Route list" where
  "buildRoutesFromGatewayHTTPRoute fpart httpRoutes defaultPort faultPolicy =
     collect (routes_of_config fpart defaultPort faultPolicy) httpRoutes"

definition serviceFaultPolicy :: "'g ConfigSnapshot \<Rightarrow> Service \<Rightarrow> int \<Rightarrow> panic + FaultPolicy option" where
  "serviceFaultPolicy ps svc port =
     map_sum id (\<lambda>(servicePort, found).
       let portName = (case servicePort of Some p \<Rightarrow> if found then port_Name p else [] | None \<Rightarrow> [])
       in case FaultInjectionForService (Some ps) (sa_Namespace (svc_Attributes svc)) (sa_Name (svc_Attributes svc)) portName of
            (settings, found) \<Rightarrow>
              if \<not> found then None
              else let delay = (if fs_Delay settings > 0
                     then Some \<lparr>fdm_FixedDelay = fs_Delay settings, fdm_Percentage = fs_DelayPercentage settings\<rparr> else None);
                   abort = (if fs_AbortStatus settings \<noteq> 0
                     then Some \<lparr>fam_HttpStatus = fs_AbortStatus settings, fam_Percentage = fs_AbortPercentage settings\<rparr> else None)
              in if delay = None \<and> abort = None then None else Some \<lparr>fp_Delay = delay, fp_Abort = abort\<rparr>)
       (GetByPort (service_ports svc) port)"

definition route_domains :: "string \<Rightarrow> int \<Rightarrow> string list" where
  "route_domains hostStr port =
     (let shortName = hd (Split hostStr (CHR ''.''))
      in [hostStr @ '':'' @ Itoa port, hostStr] @
         (if shortName \<noteq> hostStr then [shortName @ '':'' @ Itoa port, shortName] else []) @ [''*''])"

definition outbound_route ::
    "(nat \<Rightarrow> nat \<Rightarrow> nat \<Rightarrow> nat) \<Rightarrow> (string fset \<Rightarrow> string list) \<Rightarrow> 'g ConfigSnapshot \<Rightarrow> string \<Rightarrow> host_name \<Rightarrow> int \<Rightarrow> Service \<Rightarrow>
       panic + RouteConfiguration" where
  "outbound_route fpart rng ps routeName hostname parsedPort svc =
     bind_panic (serviceFaultPolicy ps svc parsedPort) (\<lambda>faultPolicy.
     bind_panic (filterHTTPRoutesByService (HTTPRouteForHost rng ps hostname) svc parsedPort) (\<lambda>httpRoutes.
     map_sum id (\<lambda>routes.
         let outboundRoutes = (if length routes > 0 then routes else [defaultSingleClusterRoute routeName faultPolicy])
         in \<lparr>rc_Name = routeName, rc_VirtualHosts = [\<lparr>vh_Name = hostname @ ''|http|'' @ Itoa parsedPort,
              vh_Domains = route_domains hostname parsedPort, vh_Routes = outboundRoutes\<rparr>]\<rparr>)
       (if length httpRoutes > 0 then buildRoutesFromGatewayHTTPRoute fpart httpRoutes parsedPort faultPolicy else Inr [])))"

definition inbound_route :: "string \<Rightarrow> RouteConfiguration" where
  "inbound_route routeName = \<lparr>rc_Name = routeName, rc_VirtualHosts =
     [\<lparr>vh_Name = ''inbound|http|'' @ routeName, vh_Domains = [''*''], vh_Routes =
       [\<lparr>ro_Match = \<lparr>rm_PathSpecifier = Prefix ''/'', rm_Headers = []\<rparr>, ro_Action = Route_NonForwardingAction\<rparr>]\<rparr>]\<rparr>"

definition buildHTTPRoute ::
    "(nat \<Rightarrow> nat \<Rightarrow> nat \<Rightarrow> nat) \<Rightarrow> (string fset \<Rightarrow> string list) \<Rightarrow> 'g push_context option \<Rightarrow> string \<Rightarrow>
       panic + RouteConfiguration option" where
  "buildHTTPRoute fpart rng push routeName =
     (if snd (Atoi routeName) then Inr (Some (inbound_route routeName))
      else case ParseSubsetKey routeName of (_, _, hostname, parsedPort) \<Rightarrow>
        if hostname = [] \<or> parsedPort = 0 then Inr None
        else case push of None \<Rightarrow> Inl NilDeref
        | Some push \<Rightarrow>
            (case ServiceForHostname rng (pc_ConfigSnapshot push) hostname of None \<Rightarrow> Inr None
             | Some svc \<Rightarrow>
                 map_sum id Some (outbound_route fpart rng (pc_ConfigSnapshot push) routeName hostname parsedPort svc)))"

definition BuildHTTPRoutes ::
    "('a message \<Rightarrow> 'a) \<Rightarrow> (nat \<Rightarrow> nat \<Rightarrow> nat \<Rightarrow> nat) \<Rightarrow> (string fset \<Rightarrow> string list) \<Rightarrow> 'g push_context PushRequest \<Rightarrow>
       string list \<Rightarrow> panic + ('a Resource list \<times> XdsLogDetails)" where
  "BuildHTTPRoutes any fpart rng req routeNames =
     map_sum id (\<lambda>resp. (resp, DefaultXdsLogDetails))
       (collect (\<lambda>routeName. map_sum id (\<lambda>rc. case rc of None \<Rightarrow> []
            | Some rc \<Rightarrow> [\<lparr>res_Name = routeName, res_Resource = any (RouteConfigurationMessage rc)\<rparr>])
          (buildHTTPRoute fpart rng (pr_Push req) routeName)) routeNames)"

section \<open>Weights\<close>

text \<open>What the Gateway API admits: at most 16 backends per rule, with weights up to a million.\<close>

definition backend_within_limits :: "HTTPBackendRef \<Rightarrow> bool" where
  "backend_within_limits b \<longleftrightarrow> (case be_Weight b of None \<Rightarrow> True | Some w \<Rightarrow> unat w \<le> 1000000)"

definition within_limits :: "Config \<Rightarrow> bool" where
  "within_limits c \<longleftrightarrow> (\<exists>spec. cfg_Spec c = HTTPRoute (Some spec) \<and> (\<forall>rule \<in> set (hr_Rules spec).
     length (rl_BackendRefs rule) \<le> 16 \<and> list_all backend_within_limits (rl_BackendRefs rule)))"

definition share :: "HTTPBackendRef \<Rightarrow> nat" where
  "share b = (case be_Weight b of None \<Rightarrow> 1 | Some w \<Rightarrow> max 1 (unat w))"

lemma share_pos: "1 \<le> share b"
  by (simp add: share_def split: option.splits)

lemma share_le: "backend_within_limits b \<Longrightarrow> share b \<le> 1000000"
  by (auto simp: share_def backend_within_limits_def split: option.splits)

lemma backend_weight_share: "unat (backend_weight b) = share b"
proof (cases "be_Weight b")
  case (Some w)
  then show ?thesis
    using unat_gt_0 [of w] by (cases "w = 0") (auto simp: backend_weight_def share_def Let_def max_def)
qed (simp add: backend_weight_def share_def)

lemma total_weight_fold:
  "fold (\<lambda>b total. total + backend_weight b) refs t = t + of_nat (sum_list (map share refs))"
  by (induction refs arbitrary: t) (simp_all add: algebra_simps flip: backend_weight_share)

lemma weighted_clusters_exact:
  assumes "refs \<noteq> []" "length refs \<le> 16" "list_all backend_within_limits refs"
  shows "\<exists>t. wc_TotalWeight (weighted_clusters ns port refs) = Some t \<and> unat t = sum_list (map share refs)"
proof -
  have "sum_list (map share refs) \<le> length refs * 1000000"
    using assms(3) by (induction refs) (auto dest: share_le)
  then have small: "sum_list (map share refs) < 2 ^ 32" using assms(2) by simp
  have "1 \<le> sum_list (map share refs)" using assms(1) share_pos by (cases refs) (auto simp: trans_le_add1)
  moreover have unat: "unat (of_nat (sum_list (map share refs)) :: 32 word) = sum_list (map share refs)"
    using small by (simp add: unat_of_nat take_bit_nat_eq_self)
  ultimately have "(of_nat (sum_list (map share refs)) :: 32 word) > 0"
    unfolding word_gt_0 by (metis unat_0 not_one_le_zero)
  then show ?thesis using unat by (simp add: weighted_clusters_def total_weight_fold Let_def)
qed

lemma collect_Inr: "(\<And>x. x \<in> set xs \<Longrightarrow> \<exists>ys. f x = Inr ys) \<Longrightarrow> \<exists>ys. collect f xs = Inr ys"
proof (induction xs)
  case (Cons x xs)
  then obtain ys zs where "f x = Inr ys" "collect f xs = Inr zs" by (metis list.set_intros)
  then show ?case by simp
qed simp

lemma routes_of_rule_action:
  assumes "r \<in> set (routes_of_rule fpart ns port fault rule)"
  shows "\<exists>act. ro_Action r = Route_Route act \<and>
    ac_ClusterSpecifier act = WeightedClusters (weighted_clusters ns port (rl_BackendRefs rule)) \<and> rl_BackendRefs rule \<noteq> []"
  using assms by (auto simp: routes_of_rule_def Let_def split: if_splits)

section \<open>The chain of resources of a client\<close>

lemma references_service_Inr:
  "None \<notin> set (service_ports svc) \<Longrightarrow> \<exists>b. references_service refs ns svc port = Inr b"
proof (induction refs)
  case (Cons ref refs)
  then obtain b where b: "references_service refs ns svc port = Inr b" by blast
  obtain p found where p: "GetByPort (service_ports svc) port = Inr (p, found)"
    using GetByPort_safe Cons.prems by blast
  have "p \<noteq> None" if "GetByPort ports port = Inr (p, True)" for ports
    using that by (induction ports) (auto split: option.splits if_splits)
  with p have "\<not> found \<or> (\<exists>q. p = Some q)" by (cases found) auto
  then show ?case using b p by (cases "pf_SectionName ref") (auto simp: Let_def)
qed auto

definition routes_typed :: "(string fset \<Rightarrow> string list) \<Rightarrow> 'g ConfigSnapshot \<Rightarrow> bool" where
  "routes_typed rng ps \<longleftrightarrow> (\<forall>h. \<forall>c \<in> set (HTTPRouteForHost rng ps h). cfg_Spec c \<noteq> HTTPRoute None)"

lemma as_HTTPRoute_None: "as_HTTPRoute s = Some None \<longleftrightarrow> s = HTTPRoute None"
  by (cases s) auto

lemma outbound_route_Inr:
  assumes "routes_typed rng ps" and ports: "None \<notin> set (service_ports svc)"
  shows "\<exists>rc vh. outbound_route fpart rng ps name hostname port svc = Inr rc \<and> rc_Name rc = name \<and>
    rc_VirtualHosts rc = [vh] \<and> vh_Domains vh = route_domains hostname port \<and> vh_Routes vh \<noteq> []"
proof -
  obtain p found where "GetByPort (service_ports svc) port = Inr (p, found)" using GetByPort_safe [OF ports] by blast
  then obtain fault where fault: "serviceFaultPolicy ps svc port = Inr fault"
    by (simp add: serviceFaultPolicy_def)
  let ?hrs = "HTTPRouteForHost rng ps hostname"
  have typed: "as_HTTPRoute (cfg_Spec c) \<noteq> Some None" if "c \<in> set ?hrs" for c
    using assms(1) that by (auto simp: routes_typed_def as_HTTPRoute_None)
  obtain hrs where hrs: "filterHTTPRoutesByService ?hrs svc port = Inr hrs"
    unfolding filterHTTPRoutesByService_def
  proof (atomize_elim, rule collect_Inr)
    fix c assume "c \<in> set ?hrs"
    then show "\<exists>ys. attached_route svc port c = Inr ys"
      using typed [of c] references_service_Inr [OF ports]
      by (auto simp: attached_route_def httpRouteReferencesService_def map_sum_Inr split: option.splits)
  qed
  have sub: "set hrs \<subseteq> set ?hrs"
    using collect_mem [OF hrs [unfolded filterHTTPRoutesByService_def]]
    by (auto simp: attached_route_def map_sum_Inr split: option.splits if_splits)
  obtain routes where routes: "buildRoutesFromGatewayHTTPRoute fpart hrs port fault = Inr routes"
    unfolding buildRoutesFromGatewayHTTPRoute_def
  proof (atomize_elim, rule collect_Inr)
    fix c assume "c \<in> set hrs"
    then show "\<exists>ys. routes_of_config fpart port fault c = Inr ys"
      using typed [of c] sub by (auto simp: routes_of_config_def split: option.splits)
  qed
  show ?thesis
    using fault hrs routes by (auto simp: outbound_route_def Let_def)
qed

lemma Atoi_range: "Atoi s = (i, True) \<Longrightarrow> i \<le> maxInt64"
  by (auto simp: Atoi_def maxInt64_def Let_def split: list.splits if_splits option.splits prod.splits)

lemma Atoi_key: "\<not> snd (Atoi (BuildSubsetKey TrafficDirectionOutbound ss h p))"
  by (simp add: BuildSubsetKey_def TrafficDirectionOutbound_def Atoi_def is_digit_def)

section \<open>Properties\<close>


text \<open>
  A registry in which a service that is found is also the one known under its own host name, and has
  a name that can be part of a cluster name and positive port numbers.
\<close>

definition resolvable :: "(string fset \<Rightarrow> string list) \<Rightarrow> 'g ConfigSnapshot \<Rightarrow> bool" where
  "resolvable rng ps \<longleftrightarrow> (\<forall>h s. find_service rng ps h = Some s \<longrightarrow>
     ServiceForHostname rng ps (svc_Hostname s) = Some s \<and> svc_Hostname s \<noteq> [] \<and> CHR ''|'' \<notin> set (svc_Hostname s) \<and>
     (\<forall>p. has_port s p \<longrightarrow> 0 < p))"


section \<open>Examples\<close>

definition example_backend :: "string \<Rightarrow> 32 word \<Rightarrow> HTTPBackendRef" where
  "example_backend name weight = \<lparr>be_Name = name, be_Namespace = None, be_Port = None, be_Weight = Some weight\<rparr>"

definition example_split_route :: Config where
  "example_split_route = (Snapshot.example_route [])\<lparr>cfg_Spec := HTTPRoute (Some \<lparr>hr_ParentRefs = [], hr_Hostnames = [],
     hr_Rules = [\<lparr>rl_Matches = [], rl_BackendRefs = [example_backend ''v1'' 0, example_backend ''v2'' 3],
       rl_Timeouts = None, rl_Retry = None\<rparr>]\<rparr>)\<rparr>"


lemma example_team_snapshot:
  fixes ps :: "nat ConfigSnapshot"
  defines "ps \<equiv> pc_ConfigSnapshot example_team_push"
  shows "generates_safely sorted_list_of_fset ps" "routes_typed sorted_list_of_fset ps" "resolvable sorted_list_of_fset ps"
proof -
  have web: "None \<notin> set (service_ports example_team_b)" "\<And>p. has_port example_team_b p \<longleftrightarrow> p = 80"
    by (auto simp: example_team_b_def example_web_def example_port_def service_ports_def has_port_def)
  show "generates_safely sorted_list_of_fset ps"
    using web(1) by (simp add: ps_def generates_safely_def example_team_lookup)
      (simp add: example_team_push_def NewConfigSnapshot_def EffectiveMutualTLSMode_def)
  show "routes_typed sorted_list_of_fset ps"
    by (simp add: ps_def routes_typed_def HTTPRouteForHost_def example_team_push_def NewConfigSnapshot_def slice_at_def
        sorted_list_of_fset.rep_eq)
  have team: "s = example_team_b" if "find_service sorted_list_of_fset ps h = Some s" for h s
    using that by (auto simp: ps_def find_service_def example_team_lookup example_team_all Let_def
        split: if_splits option.splits)
  have "svc_Hostname example_team_b = ''web.team-b.svc''" by (simp add: example_team_b_def)
  then have "ServiceForHostname sorted_list_of_fset ps (svc_Hostname example_team_b) = Some example_team_b \<and>
      svc_Hostname example_team_b \<noteq> [] \<and> CHR ''|'' \<notin> set (svc_Hostname example_team_b) \<and>
      (\<forall>p. has_port example_team_b p \<longrightarrow> 0 < p)"
    using web(2) by (simp add: ps_def example_team_lookup)
  then show "resolvable sorted_list_of_fset ps"
    unfolding resolvable_def by (intro allI impI) (drule team, hypsubst, assumption)
qed

lemma example_team_listener:
  "BuildListeners any sorted_list_of_fset sorted_list_of_fset example_node (Some example_team_push) [''web.team-b.svc:80''] =
     Inr [listener_resource any (outbound_listener any ''web.team-b.svc:80'' example_team_b 80)]"
  by (rule BuildListeners_outbound [OF example_splits(2,3) _ _ _ example_no_fqdn(2) Atoi_ports(1) _ example_team_port sorted_list_range])
    (simp_all add: HasPrefix_def ServerListenerNamePrefix_def find_service_def example_team_lookup)


end
