(* ===== verification/Generators.thy ===== *)
theory Generators
  imports Routes PushXds
begin

text \<open>
  The generator of the proxyless gRPC resources as the discovery server calls it:
  \<^verbatim>\<open>GrpcConfigGenerator\<close> of \<^verbatim>\<open>dubbod/discovery/pkg/networking/grpcgen/grpcgen.go\<close>, and what its incremental
  cluster pushes do to a subscription over a sequence of pushes.
\<close>

section \<open>Generation\<close>

definition Grpc_Generate ::
    "('a message \<Rightarrow> 'a) \<Rightarrow> (nat \<Rightarrow> nat \<Rightarrow> nat \<Rightarrow> nat) \<Rightarrow> string \<Rightarrow> (string fset \<Rightarrow> string list) \<Rightarrow>
       (string fset \<Rightarrow> string list) \<Rightarrow> ('r, 'p) Proxy \<Rightarrow> 'w WatchedResource option \<Rightarrow> 'g push_context PushRequest \<Rightarrow>
       panic + ('a Resource list option \<times> XdsLogDetails)" where
  "Grpc_Generate any fpart lb rng ks node w req =
     (let requestedNames = (case w of None \<Rightarrow> []
        | Some w \<Rightarrow> if wr_ResourceNames w \<noteq> None \<and> Len (wr_ResourceNames w) > 0 then ks (elems (wr_ResourceNames w)) else [])
      in case w of None \<Rightarrow> Inl NilDeref
      | Some w \<Rightarrow>
          if wr_TypeUrl w = ListenerType then
            map_sum id (\<lambda>res. (Some res, DefaultXdsLogDetails)) (BuildListeners any rng ks node (pr_Push req) requestedNames)
          else if wr_TypeUrl w = ClusterType then
            map_sum id (\<lambda>res. (Some res, DefaultXdsLogDetails)) (BuildClusters any lb rng ks (pr_Push req) requestedNames)
          else if wr_TypeUrl w = RouteType then
            map_sum id (\<lambda>(res, details). (Some res, details)) (BuildHTTPRoutes any fpart rng req requestedNames)
          else Inr (None, DefaultXdsLogDetails))"

definition Grpc_GenerateDeltas ::
    "('a message \<Rightarrow> 'a) \<Rightarrow> (nat \<Rightarrow> nat \<Rightarrow> nat \<Rightarrow> nat) \<Rightarrow> string \<Rightarrow> (string fset \<Rightarrow> string list) \<Rightarrow>
       (string fset \<Rightarrow> string list) \<Rightarrow> ('r, 'p) Proxy \<Rightarrow> 'g push_context PushRequest \<Rightarrow> 'w WatchedResource option \<Rightarrow>
       panic + ('a Resource list option \<times> string list option \<times> XdsLogDetails \<times> bool)" where
  "Grpc_GenerateDeltas any fpart lb rng ks node req w =
     (case w of None \<Rightarrow> Inr (None, None, DefaultXdsLogDetails, False)
      | Some wr \<Rightarrow>
          if wr_TypeUrl wr \<noteq> ClusterType \<or> \<not> grpcCanUseDeltaClusters (Some req) then
            map_sum id (\<lambda>(res, details). (res, None, details, False)) (Grpc_Generate any fpart lb rng ks node w req)
          else delta_clusters any lb rng ks wr req)"

text \<open>The generator as the server calls it. A panic of the code ends the process; it has no result here.\<close>

definition grpc_generator ::
    "('a message \<Rightarrow> 'a) \<Rightarrow> (nat \<Rightarrow> nat \<Rightarrow> nat \<Rightarrow> nat) \<Rightarrow> string \<Rightarrow> (string fset \<Rightarrow> string list) \<Rightarrow>
       (string fset \<Rightarrow> string list) \<Rightarrow> ('a, 'g ConfigSnapshot) generator" where
  "grpc_generator any fpart lb rng ks =
     DeltaResourceGenerator
       (\<lambda>node w req. case Grpc_Generate any fpart lb rng ks node (Some w) req of
          Inl p \<Rightarrow> (None, DefaultXdsLogDetails, None)
        | Inr (res, details) \<Rightarrow> (res, details, None))
       (\<lambda>node req w. case Grpc_GenerateDeltas any fpart lb rng ks node req (Some w) of
          Inl p \<Rightarrow> (None, None, DefaultXdsLogDetails, False, None)
        | Inr (res, removed, details, usedDelta) \<Rightarrow> (res, removed, details, usedDelta, None))"

section \<open>Which names are generated\<close>

lemma build_names:
  assumes "build any lb push b = Inr cs" "c \<in> set cs"
  shows "clu_Name c = cb_defaultClusterName b \<and> (cb_filter b \<noteq> None \<longrightarrow> Contains (cb_filter b) (clu_Name c))"
  using assms
  by (cases "requiresPeerAuthenticationMTLS push b"; cases "cb_filter b")
    (auto simp: build_def Let_def edsCluster_def applyPeerAuthenticationMTLS_def split: if_splits option.splits)

lemma newClusterBuilder_filter:
  assumes "newClusterBuilder rng push name flt = Inr (Inr b)"
  shows "cb_defaultClusterName b = name \<and> cb_filter b = flt"
proof -
  obtain d ss h p where parse: "ParseSubsetKey name = (d, ss, h, p)" by (cases "ParseSubsetKey name") auto
  obtain pc svc where "push = Some pc" "ServiceForHostname rng (pc_ConfigSnapshot pc) h = Some svc"
    using assms by (auto simp: newClusterBuilder_def parse split: if_splits option.splits)
  then show ?thesis
    using assms by (cases "GetByPort (service_ports svc) p")
      (auto simp: newClusterBuilder_def parse split: if_splits)
qed

lemma build_all_names:
  "build_all any lb rng push flt keys = Inr cs \<Longrightarrow> c \<in> set cs \<Longrightarrow>
     \<exists>key \<in> set keys. clu_Name c = key \<and> (fmlookup flt key \<noteq> None \<longrightarrow> Contains (fmlookup flt key) key)"
proof (induction keys arbitrary: cs)
  case (Cons key keys)
  obtain r where r: "newClusterBuilder rng push key (fmlookup flt key) = Inr r"
    using Cons.prems(1) by (cases "newClusterBuilder rng push key (fmlookup flt key)") auto
  show ?case
  proof (cases r)
    case (Inl e)
    then show ?thesis using Cons r by auto
  next
    case (Inr b)
    with Cons.prems(1) r obtain here rest where built: "build any lb push b = Inr here"
      "build_all any lb rng push flt keys = Inr rest" "cs = here @ rest"
      by (cases "build any lb push b"; cases "build_all any lb rng push flt keys") auto
    then show ?thesis
      using Cons.IH [OF built(2)] Cons.prems(2) build_names [OF built(1), of c]
        newClusterBuilder_filter [OF r [unfolded Inr]] by auto
  qed
qed simp

text \<open>A generated cluster was asked for under its own name, whatever the snapshot.\<close>

lemma BuildClusters_names:
  assumes range: "\<And>K. is_range (ks K) K" and "BuildClusters any lb rng ks push names = Inr res"
  shows "res_Name ` set res \<subseteq> set names"
proof
  fix n
  assume "n \<in> res_Name ` set res"
  then obtain r where r: "r \<in> set res" "res_Name r = n" by auto
  let ?f = "newClusterFilter names"
  obtain cs where cs: "build_all any lb rng push ?f (ks (fmdom ?f)) = Inr cs" "res = map (cluster_resource any) cs"
    using assms(2) by (cases "build_all any lb rng push ?f (ks (fmdom ?f))") (auto simp: BuildClusters_def)
  with r obtain c where c: "c \<in> set cs" "clu_Name c = n" by (auto simp: cluster_resource_def)
  from build_all_names [OF cs(1) c(1)] c(2)
  have "n \<in> set (ks (fmdom ?f))" and contains: "fmlookup ?f n \<noteq> None \<longrightarrow> Contains (fmlookup ?f n) n" by auto
  then have "n |\<in>| fmdom ?f" using is_range_set [OF range] by auto
  then have "Contains (fmlookup ?f n) n" using contains by (auto simp: fmlookup_dom_iff)
  then show "n \<in> set names"
    by (auto simp: lookup_newClusterFilter Contains_def fset_of_list.rep_eq split: if_splits)
qed

text \<open>
  What the generator returns for a watch of clusters: resources under watched names, and withdrawals
  that are disjoint from them.
\<close>

lemma grpc_generator_names:
  assumes range: "\<And>K. is_range (ks K) K" and url: "wr_TypeUrl w = ClusterType"
    and run: "run_generator (grpc_generator any fpart lb rng ks) proxy req w = (res, deletedRes, usedDelta, e)"
  defines "names \<equiv> res_Name ` set (case res of None \<Rightarrow> [] | Some rs \<Rightarrow> rs)"
  shows "names \<subseteq> fset (elems (wr_ResourceNames w))"
    and "usedDelta \<Longrightarrow> names \<inter> set (case deletedRes of None \<Rightarrow> [] | Some ds \<Rightarrow> ds) = {}"
proof -
  have empty: "BuildClusters any lb rng ks push [] = Inr rs \<Longrightarrow> rs = []" for push :: "'b push_context option" and rs
    using BuildClusters_names [OF range] by fastforce
  have listed: "set (ks K) = fset K" for K using is_range_set [OF range] .
  have "names \<subseteq> fset (elems (wr_ResourceNames w)) \<and>
    (usedDelta \<longrightarrow> names \<inter> set (case deletedRes of None \<Rightarrow> [] | Some ds \<Rightarrow> ds) = {})"
  proof (cases "grpcCanUseDeltaClusters (Some req)")
    case False
    let ?n = "if wr_ResourceNames w \<noteq> None \<and> Len (wr_ResourceNames w) > 0 then ks (elems (wr_ResourceNames w)) else []"
    have "ClusterType \<noteq> ListenerType" by (simp add: type_urls)
    then have "names \<subseteq> set ?n \<and> \<not> usedDelta"
      using run url False BuildClusters_names [OF range, of any lb rng "pr_Push req" ?n]
      by (cases "BuildClusters any lb rng ks (pr_Push req) ?n")
        (auto simp: grpc_generator_def Grpc_GenerateDeltas_def Grpc_Generate_def names_def Let_def)
    then show ?thesis using listed by (auto split: if_splits)
  next
    case True
    let ?ch = "grpcDeltaClusterNames w req"
    have sub: "fset (elems ?ch) \<subseteq> fset (elems (wr_ResourceNames w))"
      by (auto simp: grpcDeltaClusterNames_def Let_def)
    have sorted: "set (SortedList (ks (elems S)) S) = fset (elems S)" for S :: "string gset"
      by (rule set_SortedList [OF range])
    show ?thesis
    proof (cases "Len ?ch = 0 \<or> (\<exists>p. BuildClusters any lb rng ks (pr_Push req) (SortedList (ks (elems ?ch)) ?ch) = Inl p)")
      case True
      then have "res = None"
        using run url \<open>grpcCanUseDeltaClusters (Some req)\<close>
        by (cases "Len ?ch = 0") (auto simp: grpc_generator_def Grpc_GenerateDeltas_def delta_clusters_def Let_def)
      then show ?thesis by (simp add: names_def)
    next
      case no: False
      then obtain rs where rs: "BuildClusters any lb rng ks (pr_Push req) (SortedList (ks (elems ?ch)) ?ch) = Inr rs"
        by (cases "BuildClusters any lb rng ks (pr_Push req) (SortedList (ks (elems ?ch)) ?ch)") auto
      let ?removed = "DeleteAll (Copy ?ch) (ks (fset_of_list (map res_Name rs)))"
      have "res = Some rs" "deletedRes = Some (SortedList (ks (elems ?removed)) ?removed)"
        using run url True no rs
        by (auto simp: grpc_generator_def Grpc_GenerateDeltas_def delta_clusters_def names_def Let_def)
      moreover have "set (SortedList (ks (elems ?removed)) ?removed) \<inter> res_Name ` set rs = {}"
        unfolding sorted
        by (auto simp: grpcDeltaClusterNames_def Let_def listed fset_of_list.rep_eq fset_of_list_elem)
      ultimately show ?thesis
        using BuildClusters_names [OF range rs] sub sorted [of ?ch] by (auto simp: names_def)
    qed
  qed
  then show "names \<subseteq> fset (elems (wr_ResourceNames w))"
    "usedDelta \<Longrightarrow> names \<inter> set (case deletedRes of None \<Rightarrow> [] | Some ds \<Rightarrow> ds) = {}"
    by auto
qed

section \<open>A sequence of pushes\<close>

text \<open>
  The pushes of clusters that the server makes on its own behalf on a connection, one request after
  the other, until one fails.
\<close>

fun cluster_pushes ::
    "('a, 'cs) server \<Rightarrow> io \<Rightarrow> 'cs PushContext PushRequest list \<Rightarrow> ('a, 'cs) Connection \<Rightarrow> ('a, 'cs) push_result" where
  "cluster_pushes s io [] con = Inr (None, con)"
| "cluster_pushes s io (req # reqs) con =
     (case push_watches_delta s io req [ClusterType] con of
        Inr (None, con) \<Rightarrow> cluster_pushes s io reqs con
      | r \<Rightarrow> r)"

text \<open>Every generator of clusters of a server is the one for proxyless gRPC.\<close>

definition serves_grpc :: "('a, 'cs) server \<Rightarrow> ('a, 'cs) generator \<Rightarrow> bool" where
  "serves_grpc s gen \<longleftrightarrow> (\<forall>name. fmlookup (srv_Generators s) (name @ ''/'' @ ClusterType) \<in> {None, Some gen})"

definition carried :: "'a response \<Rightarrow> string set" where
  "carried m = (case m of Delta resp \<Rightarrow> res_Name ` set (ddr_Resources resp) | Sotw _ \<Rightarrow> {})"

definition withdrawn :: "'a response \<Rightarrow> string set" where
  "withdrawn m = (case m of Delta resp \<Rightarrow> set (ddr_RemovedResources resp) | Sotw _ \<Rightarrow> {})"

lemma sendDelta_cases:
  assumes "sendDelta io con resp names = Inr (e, con')" "con_proxy con = Some proxy"
  shows "con_sent con' = con_sent con @ [(con_ticks con, Delta resp, e)]"
    and "e = None \<Longrightarrow> names = Some ns \<Longrightarrow> tracked con' (ddr_TypeUrl resp) = ns"
proof -
  have e: "e = io_send io (con_ticks con)"
    using assms by (cases "io_send io (con_ticks con)")
      (auto simp: sendDelta_ok, auto simp: sendDelta_def hand_to_stream_def Let_def)
  show "con_sent con' = con_sent con @ [(con_ticks con, Delta resp, e)]"
    using assms e by (cases "io_send io (con_ticks con)")
      (auto simp: sendDelta_ok, auto simp: sendDelta_def hand_to_stream_def Let_def)
  show "e = None \<Longrightarrow> names = Some ns \<Longrightarrow> tracked con' (ddr_TypeUrl resp) = ns"
    using tracked_after_send [of io con resp names con'] assms by simp
qed

lemma new_names_shrink:
  assumes "shouldSetWatchedResources (Some w)" "res_Name ` set rs \<subseteq> fset (elems (wr_ResourceNames w))"
    and "usedDelta \<Longrightarrow> res_Name ` set rs \<inter> set (case deletedRes of None \<Rightarrow> [] | Some ds \<Rightarrow> ds) = {}"
  obtains ns where
    "new_names w usedDelta (removed_resources usedDelta full deletedRes (wr_ResourceNames w) rs) rs = Some ns"
    "fset ns \<subseteq> fset (elems (wr_ResourceNames w))"
    "fset ns \<inter> set (removed_resources usedDelta full deletedRes (wr_ResourceNames w) rs) = {}"
proof (cases usedDelta)
  case True
  show thesis
    by (rule that, simp add: new_names_def assms(1) True)
      (use assms(2) assms(3) [OF True] True in \<open>auto simp: removed_resources_def fset_of_list_elem disjoint_iff\<close>)
next
  case False
  have "full \<Longrightarrow> fset (fset_of_list (removed_resources False full deletedRes (wr_ResourceNames w) rs)) =
      fset (elems (wr_ResourceNames w)) - res_Name ` set rs"
    using removed_full [of deletedRes "wr_ResourceNames w" rs] by (simp add: fset_of_list.rep_eq)
  then have "res_Name ` set rs \<inter> set (removed_resources False full deletedRes (wr_ResourceNames w) rs) = {}"
    by (cases full) (auto simp: fset_of_list.rep_eq, simp add: removed_resources_def)
  then show thesis
    by (intro that [of "fset_of_list (map res_Name rs)"])
      (use assms(1,2) False in \<open>auto simp: new_names_def resourceNamesSet_def New_def fset_of_list.rep_eq\<close>)
qed

text \<open>
  One push: nothing is handed over and the record of names is kept, or one message with watched names
  is, after which the record is smaller and holds none of the withdrawn names.
\<close>

lemma cluster_push_step:
  fixes any :: "'a message \<Rightarrow> 'a"
  assumes range: "\<And>K. is_range (ks K) K" and serves: "serves_grpc s (grpc_generator any fpart lb rng ks)"
    and own: "ResourceDelta_IsEmpty (pr_Delta req)" and keyed: "con_keyed con"
    and push: "push_watches_delta s io req [ClusterType] con = Inr (e, con')"
  shows "(con_sent con' = con_sent con \<and> tracked con' ClusterType = tracked con ClusterType) \<or>
    (\<exists>t m. con_sent con' = con_sent con @ [(t, m, e)] \<and> carried m \<subseteq> fset (tracked con ClusterType) \<and>
      (e = None \<longrightarrow> tracked con' ClusterType |\<subseteq>| tracked con ClusterType \<and>
        fset (tracked con' ClusterType) \<inter> withdrawn m = {}))"
proof -
  let ?G = "grpc_generator any fpart lb rng ks" and ?con = "con\<lparr>con_ticks := con_ticks con + 1\<rparr>"
  obtain proxy where proxy: "con_proxy con = Some proxy" using push by (cases "con_proxy con") auto
  let ?w = "GetWatchedResource (px_WatchedResources proxy) ClusterType"
  have one: "pushDeltaXds s io con ?w req = Inr (e, con')"
    using push proxy by (auto split: sum.splits prod.splits option.splits)
  show ?thesis
  proof (cases "authorized s (io_now io (con_ticks con)) con \<and> ?w \<noteq> None \<and> findGenerator s ClusterType (Some con) \<noteq> None")
    case False
    then have "con' = ?con"
      using one keyed proxy
      by (auto simp: pushDeltaXds_def authorizeConnection_def authorize_at_iff [symmetric] con_keyed_def keyed_def
          GetWatchedResource_def split: option.splits)
    then show ?thesis by simp
  next
    case True
    then obtain w gen where w: "?w = Some w" and gen: "findGenerator s ClusterType (Some con) = Some gen" by auto
    have url: "wr_TypeUrl w = ClusterType"
      using keyed proxy w by (simp add: con_keyed_def keyed_def GetWatchedResource_def)
    obtain name where "fmlookup (srv_Generators s) (name @ ''/'' @ ClusterType) = Some gen"
      using gen proxy by (auto simp: findGenerator_def split: option.splits)
    then have "gen = ?G" using serves [unfolded serves_grpc_def, rule_format, of name] by simp
    with gen url have gen: "findGenerator s (wr_TypeUrl w) (Some con) = Some ?G" by simp
    have watch: "pushed_watch w req = w" using own by (simp add: pushed_watch_def)
    have held: "tracked con ClusterType = elems (wr_ResourceNames w)" using proxy w by (simp add: tracked_def)
    obtain res deletedRes usedDelta e' where
      run: "run_generator ?G proxy req w = (res, deletedRes, usedDelta, e')" by (metis prod_cases4)
    note names = grpc_generator_names [OF range url run]
    have "run_generator ?G proxy req (pushed_watch w req) = (res, deletedRes, usedDelta, e')" using run watch by simp
    note generated = pushDeltaXds_generated [OF conjunct1 [OF True] proxy gen this]
    show ?thesis
    proof (cases "e' \<noteq> None \<or> (Option.is_none res \<and> deletedRes = None)")
      case True
      then have "con' = ?con" using generated one w watch by (simp add: Let_def)
      then show ?thesis by simp
    next
      case False
      note sending = generated [unfolded Let_def if_not_P [OF False] watch] one [unfolded w]
      obtain p where p: "pr_Push req = Some p" using sending by (cases "pr_Push req") simp_all
      let ?resp = "delta_response io (con_ticks con + 1) p (pr_Full req) w res deletedRes usedDelta"
      let ?names = "new_names w usedDelta (ddr_RemovedResources ?resp) (ddr_Resources ?resp)"
      have send: "sendDelta io ?con ?resp ?names = Inr (e, con')"
        using sending p by simp
      have rurl: "ddr_TypeUrl ?resp = ClusterType" by (simp add: delta_response_def url Let_def)
      have carried: "carried (Delta ?resp) \<subseteq> fset (elems (wr_ResourceNames w))"
        using names(1) by (simp add: carried_def delta_response_def Let_def)
      have "shouldSetWatchedResources (Some w)"
        by (simp add: shouldSetWatchedResources_def url IsWildcardTypeURL_def type_urls)
      then obtain ns where ns: "?names = Some ns" and sub: "fset ns \<subseteq> fset (elems (wr_ResourceNames w))"
        "fset ns \<inter> withdrawn (Delta ?resp) = {}"
        unfolding withdrawn_def response.case delta_response_def Let_def DeltaDiscoveryResponse.select_convs
        by (rule new_names_shrink [OF _ names])
      have "con_proxy ?con = Some proxy" using proxy by simp
      note after = sendDelta_cases [OF send this]
      have "e = None \<Longrightarrow> tracked con' ClusterType = ns" using after(2) [OF _ ns] rurl by simp
      then show ?thesis
        using after(1) carried sub unfolding held
        by (intro disjI2 exI [of _ "con_ticks con + 1"] exI [of _ "Delta ?resp"]) (simp add: less_eq_fset.rep_eq)
    qed
  qed
qed

lemma cluster_pushes_keyed:
  "push_watches_delta s io req [ClusterType] con = Inr (e, con') \<Longrightarrow> con_keyed con \<Longrightarrow> con_keyed con'"
  by (auto split: option.splits sum.splits prod.splits dest!: pushDeltaXds_progress simp: progress_def advance_def)

lemma cluster_pushes_extend:
  "cluster_pushes s io reqs con = Inr (e, con') \<Longrightarrow> \<exists>new. con_sent con' = con_sent con @ new"
proof (induction reqs arbitrary: con)
  case (Cons req reqs)
  obtain e1 con1 where push: "push_watches_delta s io req [ClusterType] con = Inr (e1, con1)"
    using Cons.prems by (cases "push_watches_delta s io req [ClusterType] con") auto
  then have "\<exists>new. con_sent con1 = con_sent con @ new"
    by (auto split: option.splits sum.splits prod.splits dest!: pushDeltaXds_progress simp: progress_def advance_def)
  then show ?case using Cons push by (cases e1) fastforce+
qed simp

text \<open>A name that is not recorded is not sent by the pushes of the server.\<close>

lemma untracked_never_sent:
  assumes range: "\<And>K. is_range (ks K) K" and serves: "serves_grpc s (grpc_generator any fpart lb rng ks)"
  shows "cluster_pushes s io reqs con = Inr (e, con') \<Longrightarrow> con_keyed con \<Longrightarrow>
    \<forall>req \<in> set reqs. ResourceDelta_IsEmpty (pr_Delta req) \<Longrightarrow> name |\<notin>| tracked con ClusterType \<Longrightarrow>
    \<exists>new. con_sent con' = con_sent con @ new \<and> (\<forall>(t, m, x) \<in> set new. name \<notin> carried m)"
proof (induction reqs arbitrary: con)
  case (Cons req reqs)
  obtain e1 con1 where push: "push_watches_delta s io req [ClusterType] con = Inr (e1, con1)"
    using Cons.prems(1) by (cases "push_watches_delta s io req [ClusterType] con") auto
  have own: "ResourceDelta_IsEmpty (pr_Delta req)" using Cons.prems(3) by simp
  have rest: "if e1 = None then cluster_pushes s io reqs con1 = Inr (e, con') else con' = con1"
    using Cons.prems(1) push by (auto split: option.splits)
  have later: "\<exists>new. con_sent con' = con_sent con1 @ new \<and> (\<forall>(t, m, x) \<in> set new. name \<notin> carried m)"
    if "e1 = None \<Longrightarrow> name |\<notin>| tracked con1 ClusterType"
    using that rest Cons.IH [of con1] Cons.prems cluster_pushes_keyed [OF push] by (cases e1) auto
  show ?case
    using cluster_push_step [OF range serves own Cons.prems(2) push]
  proof (elim disjE exE conjE)
    assume "con_sent con1 = con_sent con" "tracked con1 ClusterType = tracked con ClusterType"
    then show ?thesis using later Cons.prems(4) by simp
  next
    fix t m
    assume "con_sent con1 = con_sent con @ [(t, m, e1)]" "carried m \<subseteq> fset (tracked con ClusterType)"
      "e1 = None \<longrightarrow> tracked con1 ClusterType |\<subseteq>| tracked con ClusterType \<and>
        fset (tracked con1 ClusterType) \<inter> withdrawn m = {}"
    moreover then obtain new where "con_sent con' = con_sent con1 @ new" "\<forall>(t, m, x) \<in> set new. name \<notin> carried m"
      using later Cons.prems(4) by (auto dest!: fsubsetD)
    ultimately show ?thesis
      using Cons.prems(4) by (intro exI [of _ "(t, m, e1) # new"]) auto
  qed
qed simp

section \<open>Properties\<close>

text \<open>
  C6: A withdrawn cluster never comes back on the server's initiative. Over any sequence of cluster
  pushes of the server to the client of an incremental stream, full or partial, forced or not, over
  whatever snapshots, once a message withdraws a cluster no later message carries a cluster of that
  name, although the client never unsubscribed: the record of the names the client watches is
  overwritten with the names of the generated clusters, and generation only looks at recorded names.
  A service that is deleted and created again stays unreachable for a client that does not ask again.
\<close>

theorem withdrawn_cluster_stays_away:
  assumes "\<And>K. is_range (ks K) K" "serves_grpc s (grpc_generator any fpart lb rng ks)" "con_keyed con"
    and "\<forall>req \<in> set reqs. ResourceDelta_IsEmpty (pr_Delta req)"
    and "cluster_pushes s io reqs con = Inr (e, con')"
    and "con_sent con' = con_sent con @ before @ (t, m, x) # after" "name \<in> withdrawn m" "(t', m', x') \<in> set after"
  shows "name \<notin> carried m'"
  using assms(3-6)
proof (induction reqs arbitrary: con before)
  case Nil
  then show ?case by simp
next
  case (Cons req reqs)
  obtain e1 con1 where push: "push_watches_delta s io req [ClusterType] con = Inr (e1, con1)"
    using Cons.prems(3) by (cases "push_watches_delta s io req [ClusterType] con") auto
  have own: "ResourceDelta_IsEmpty (pr_Delta req)" "\<forall>req \<in> set reqs. ResourceDelta_IsEmpty (pr_Delta req)"
    using Cons.prems(2) by simp_all
  have rest: "if e1 = None then cluster_pushes s io reqs con1 = Inr (e, con') else con' = con1"
    using Cons.prems(3) push by (auto split: option.splits)
  note keyed = cluster_pushes_keyed [OF push Cons.prems(1)]
  show ?case
    using cluster_push_step [OF assms(1,2) own(1) Cons.prems(1) push]
  proof (elim disjE exE conjE)
    assume same: "con_sent con1 = con_sent con"
    with Cons.prems(4) rest have "e1 = None" by (cases e1) auto
    then show ?thesis using Cons.IH [OF keyed own(2), of before] rest Cons.prems(4) same by simp
  next
    fix t1 m1
    assume sent: "con_sent con1 = con_sent con @ [(t1, m1, e1)]"
      and shrink: "e1 = None \<longrightarrow> tracked con1 ClusterType |\<subseteq>| tracked con ClusterType \<and>
        fset (tracked con1 ClusterType) \<inter> withdrawn m1 = {}"
    have "e1 = None"
    proof (rule ccontr)
      assume "e1 \<noteq> None"
      then have "before @ (t, m, x) # after = [(t1, m1, e1)]" using rest sent Cons.prems(4) by simp
      then show False using assms(8) by (cases before) auto
    qed
    then have pushes: "cluster_pushes s io reqs con1 = Inr (e, con')" using rest by simp
    obtain new where new: "con_sent con' = con_sent con1 @ new" using cluster_pushes_extend [OF pushes] by auto
    with sent Cons.prems(4) have split: "(t1, m1, e1) # new = before @ (t, m, x) # after" by simp
    show ?thesis
    proof (cases before)
      case Nil
      with split have m: "m1 = m" "new = after" by simp_all
      then have "name |\<notin>| tracked con1 ClusterType" using shrink \<open>e1 = None\<close> assms(7) by auto
      from untracked_never_sent [OF assms(1,2) pushes keyed own(2) this] new m
      have "\<forall>(t, m, x) \<in> set after. name \<notin> carried m" by auto
      then show ?thesis using assms(8) by auto
    next
      case before: (Cons b bs)
      with split have "con_sent con' = con_sent con1 @ bs @ (t, m, x) # after" using new by simp
      then show ?thesis by (rule Cons.IH [OF keyed own(2) pushes])
    qed
  qed
qed

section \<open>Example\<close>

definition example_forced :: "Service list \<Rightarrow> nat push_context PushRequest" where
  "example_forced services =
     zero_PushRequest\<lparr>pr_Full := True, pr_Forced := True, pr_Push := Some (example_grpc_push services)\<rparr>"

abbreviation example_grpc :: "(string, nat ConfigSnapshot) generator" where
  "example_grpc \<equiv> grpc_generator (\<lambda>_. ''m'') (\<lambda>_ _ _. 0) [] sorted_list_of_fset sorted_list_of_fset"

definition example_grpc_server :: "(string, nat ConfigSnapshot) server" where
  "example_grpc_server = \<lparr>srv_Authorize = Some (\<lambda>_ _. None),
     srv_Generators = fmupd (''grpc/'' @ ClusterType) example_grpc fmempty,
     srv_ProxyNeedsPush = None, srv_GetProxyServiceTargets = \<lambda>_. []\<rparr>"

definition example_grpc_watch :: "string Resource WatchedResource" where
  "example_grpc_watch = (zero_WatchedResource ClusterType)\<lparr>wr_ResourceNames := Some {|''outbound|80||web''|}\<rparr>"

definition example_grpc_con :: "(string, nat ConfigSnapshot) Connection" where
  "example_grpc_con = \<lparr>con_ID = ''c'', con_proxy = Some \<lparr>px_LastPushContext = None, px_LastPushTime = 0, px_Type = Inherent,
       px_WatchedResources = fmupd ClusterType example_grpc_watch fmempty, px_ID = ''p'', px_DNSDomain = [],
       px_Metadata = Some \<lparr>nm_Generator = ''grpc'', nm_ClusterID = [], nm_Namespace = ''app''\<rparr>,
       px_IPAddresses = [], px_ConfigNamespace = ''app'', px_ServiceTargets = []\<rparr>,
     con_ids = [], con_authExpiry = zero_time, con_ticks = 0, con_sent = []\<rparr>"

text \<open>A connection of the example that watches clusters.\<close>

definition watches_clusters :: "('a, 'cs) Connection \<Rightarrow> 'a Resource WatchedResource \<Rightarrow> bool" where
  "watches_clusters con w \<longleftrightarrow> con_authExpiry con = zero_time \<and> wr_TypeUrl w = ClusterType \<and>
     (\<exists>proxy m. con_proxy con = Some proxy \<and> px_Metadata proxy = Some m \<and> nm_Generator m = ''grpc'' \<and>
        GetWatchedResource (px_WatchedResources proxy) ClusterType = Some w)"

text \<open>A forced push for which no watched name has a cluster withdraws them all and forgets them.\<close>

lemma example_forced_push:
  assumes watches: "watches_clusters con w"
    and none: "BuildClusters (\<lambda>_. ''m'') [] sorted_list_of_fset sorted_list_of_fset (Some (example_grpc_push services))
      (sorted_list_of_fset (elems (wr_ResourceNames w))) = Inr []"
  obtains con' w' resp where
    "push_watches_delta example_grpc_server example_io (example_forced services) [ClusterType] con = Inr (None, con')"
    "watches_clusters con' w'" "elems (wr_ResourceNames w') = {||}"
    "con_sent con' = con_sent con @ [(con_ticks con + 1, Delta resp, None)]"
    "withdrawn (Delta resp) = fset (elems (wr_ResourceNames w))"
proof -
  obtain proxy m where proxy: "con_proxy con = Some proxy" and m: "px_Metadata proxy = Some m" "nm_Generator m = ''grpc''"
    and w: "GetWatchedResource (px_WatchedResources proxy) ClusterType = Some w" and url: "wr_TypeUrl w = ClusterType"
    and expiry: "con_authExpiry con = zero_time"
    using watches by (auto simp: watches_clusters_def)
  let ?req = "example_forced services" and ?con = "con\<lparr>con_ticks := con_ticks con + 1\<rparr>"
  have auth: "authorized example_grpc_server now con" for now
    using proxy expiry by (simp add: authorized_def example_grpc_server_def)
  have gen: "findGenerator example_grpc_server (wr_TypeUrl w) (Some con) = Some example_grpc"
    using proxy m by (simp add: findGenerator_def example_grpc_server_def url)
  have watch: "pushed_watch w ?req = w"
    by (simp add: pushed_watch_def example_forced_def zero_PushRequest_def ResourceDelta_IsEmpty_def emptyResourceDelta_def)
  have "(if wr_ResourceNames w \<noteq> None \<and> Len (wr_ResourceNames w) > 0 then sorted_list_of_fset (elems (wr_ResourceNames w)) else []) =
      sorted_list_of_fset (elems (wr_ResourceNames w))"
    by (cases "elems (wr_ResourceNames w) = {||}") (auto simp: Len_def sorted_list_of_fset.rep_eq neq0_conv [symmetric])
  then have "Grpc_Generate (\<lambda>_. ''m'') (\<lambda>_ _ _. 0) [] sorted_list_of_fset sorted_list_of_fset proxy (Some w) ?req =
      Inr (Some [], DefaultXdsLogDetails)"
    using none by (simp add: Grpc_Generate_def url type_urls example_forced_def Let_def)
  then have "run_generator example_grpc proxy ?req (pushed_watch w ?req) = (Some [], None, False, None)"
    unfolding watch by (simp add: grpc_generator_def Grpc_GenerateDeltas_def grpcCanUseDeltaClusters_def example_forced_def)
  note generated = pushDeltaXds_generated [OF auth proxy gen this, of example_io, unfolded Let_def watch]
  let ?resp = "delta_response example_io (con_ticks con + 1) (example_grpc_push services) True w (Some []) None False"
  let ?names = "new_names w False (ddr_RemovedResources ?resp) (ddr_Resources ?resp)"
  have push: "pushDeltaXds example_grpc_server example_io con (Some w) ?req = sendDelta example_io ?con ?resp ?names"
    using generated by (simp add: example_forced_def)
  have "con_proxy ?con = Some proxy" "io_send example_io (con_ticks ?con) = None" using proxy by (simp_all add: example_io_def)
  note sent = sendDelta_ok [OF this, of ?resp ?names]
  have names: "?names = Some {||}"
    by (simp add: new_names_def shouldSetWatchedResources_def url IsWildcardTypeURL_def type_urls resourceNamesSet_def
        New_def delta_response_def Let_def)
  have rurl: "ddr_TypeUrl ?resp = ClusterType" by (simp add: delta_response_def Let_def url)
  obtain con' where con': "sendDelta example_io ?con ?resp ?names = Inr (None, con')"
    "con' = ?con\<lparr>con_ticks := con_ticks ?con + 1, con_sent := con_sent ?con @ [(con_ticks ?con, Delta ?resp, None)],
      con_proxy := Some (proxy\<lparr>px_WatchedResources := fmupd ClusterType
        (the (projr (record_delta_sent ClusterType (ddr_Nonce ?resp) (Some {||}) (io_now example_io (con_ticks ?con))
          (fmlookup (px_WatchedResources proxy) ClusterType)))) (px_WatchedResources proxy)\<rparr>)\<rparr>"
    using sent unfolding rurl names by blast
  obtain w' where w': "the (projr (record_delta_sent ClusterType (ddr_Nonce ?resp) (Some {||}) (io_now example_io (con_ticks ?con))
      (fmlookup (px_WatchedResources proxy) ClusterType))) = w'" "wr_TypeUrl w' = ClusterType" "elems (wr_ResourceNames w') = {||}"
    using w url by (simp add: record_delta_sent_def GetWatchedResource_def)
  have "fset (fset_of_list (ddr_RemovedResources ?resp)) = fset (elems (wr_ResourceNames w))"
    using removed_full [of None "wr_ResourceNames w" "[] :: string Resource list"] by (simp add: delta_response_def Let_def)
  then have "withdrawn (Delta ?resp) = fset (elems (wr_ResourceNames w))"
    by (simp add: withdrawn_def fset_of_list.rep_eq)
  moreover have "watches_clusters con' w'"
    using w' m expiry by (simp add: con'(2) watches_clusters_def GetWatchedResource_def)
  moreover have "push_watches_delta example_grpc_server example_io ?req [ClusterType] con = Inr (None, con')"
    using push con'(1) proxy w by simp
  moreover have "con_sent con' = con_sent con @ [(con_ticks con + 1, Delta ?resp, None)]" by (simp add: con'(2))
  ultimately show thesis using that w'(3) by blast
qed

theorem withdrawn_cluster_stays_away_witness:
  "\<exists>con' first last t t'. cluster_pushes example_grpc_server example_io [example_forced [], example_forced [example_web]] example_grpc_con =
       Inr (None, con') \<and> con_sent con' = [(t, first, None), (t', last, None)] \<and>
     ''outbound|80||web'' \<in> withdrawn first \<and> ''outbound|80||web'' \<notin> carried last \<and>
     cluster_for (\<lambda>_. ''m'') [] sorted_list_of_fset (pc_ConfigSnapshot (example_grpc_push [example_web])) ''outbound|80||web'' \<noteq> None"
proof -
  let ?s = example_grpc_server and ?io = example_io and ?o = "sorted_list_of_fset :: string fset \<Rightarrow> string list"
  have safe: "generates_safely ?o (pc_ConfigSnapshot (example_grpc_push []))" by (rule example_safe) simp
  have unbuilt: "BuildClusters (\<lambda>_. ''m'') [] ?o ?o (Some (example_grpc_push [])) names = Inr []" for names
    using BuildClusters_eq [OF safe, where ks = ?o and names = names and any = "\<lambda>_. ''m''" and lb = "[]"] sorted_list_range
      example_clusters(4) [of "\<lambda>_. ''m''"] by (auto simp: opt_list_def)
  have none: "BuildClusters (\<lambda>_. ''m'') [] ?o ?o push (?o {||}) = Inr []" for push :: "nat push_context option"
    by (simp add: BuildClusters_def newClusterFilter_def sorted_list_of_fset.rep_eq)
  have start: "watches_clusters example_grpc_con example_grpc_watch" "con_keyed example_grpc_con"
    by (simp_all add: watches_clusters_def example_grpc_con_def example_grpc_watch_def zero_WatchedResource_def
        GetWatchedResource_def con_keyed_def keyed_def)
  obtain con1 w1 first where one: "push_watches_delta ?s ?io (example_forced []) [ClusterType] example_grpc_con = Inr (None, con1)"
    "watches_clusters con1 w1" "elems (wr_ResourceNames w1) = {||}"
    "con_sent con1 = con_sent example_grpc_con @ [(con_ticks example_grpc_con + 1, Delta first, None)]"
    "withdrawn (Delta first) = fset (elems (wr_ResourceNames example_grpc_watch))"
    by (rule example_forced_push [OF start(1), of "[]"]) (rule unbuilt)
  have later: "BuildClusters (\<lambda>_. ''m'') [] ?o ?o (Some (example_grpc_push [example_web])) (?o (elems (wr_ResourceNames w1))) = Inr []"
    using none one(3) by simp
  obtain con2 w2 last where two: "push_watches_delta ?s ?io (example_forced [example_web]) [ClusterType] con1 = Inr (None, con2)"
    "con_sent con2 = con_sent con1 @ [(con_ticks con1 + 1, Delta last, None)]"
    by (rule example_forced_push [OF one(2) later]) (rule that)
  let ?m = "(con_ticks example_grpc_con + 1, Delta first, None)" and ?l = "(con_ticks con1 + 1, Delta last, None)"
  have sent: "con_sent con2 = con_sent example_grpc_con @ [] @ ?m # [?l]" using one(4) two(2) by simp
  have pushes: "cluster_pushes ?s ?io [example_forced [], example_forced [example_web]] example_grpc_con = Inr (None, con2)"
    using one(1) two(1) by simp
  have web: "''outbound|80||web'' \<in> withdrawn (Delta first)" by (simp add: one(5) example_grpc_watch_def)
  have serves: "serves_grpc ?s example_grpc" by (simp add: serves_grpc_def example_grpc_server_def)
  have own: "\<forall>req \<in> set [example_forced [], example_forced [example_web]]. ResourceDelta_IsEmpty (pr_Delta req)"
    by (simp add: example_forced_def zero_PushRequest_def ResourceDelta_IsEmpty_def emptyResourceDelta_def)
  have "''outbound|80||web'' \<notin> carried (Delta last)"
    by (rule withdrawn_cluster_stays_away [OF sorted_list_range serves start(2) own pushes sent web list.set_intros(1)])
  moreover have "con_sent con2 = [?m, ?l]" using sent by (simp add: example_grpc_con_def)
  ultimately show ?thesis
    using pushes web example_clusters(1) [of "\<lambda>_. ''m''"]
    by (intro exI [of _ con2] exI [of _ "Delta first"] exI [of _ "Delta last"] exI [of _ "con_ticks example_grpc_con + 1"]
        exI [of _ "con_ticks con1 + 1"]) simp
qed

end
