(* ===== verification/Spec2Isabelle.thy ===== *)
theory Spec2Isabelle
  imports HostNames Freshness Generators
begin

text \<open>
  A verification development for the discovery server of dubbo-kubernetes, the Go control plane that
  watches services, endpoints and policies of a cluster and pushes them to gRPC clients over the xDS
  protocols. File names below are relative to \<^verbatim>\<open>src/\<close>; \<^verbatim>\<open>model/\<close> and \<^verbatim>\<open>xds/\<close> stand for
  \<^verbatim>\<open>dubbod/discovery/pkg/model/\<close> and \<^verbatim>\<open>dubbod/discovery/pkg/xds/\<close>.

  \<^bold>\<open>The program.\<close> Registries report endpoints to the endpoint index (\<^verbatim>\<open>model/endpointshards.go\<close>), which
  decides whether a push is needed. Updates become push requests (\<^verbatim>\<open>model/push_context.go\<close>) and go
  through the debouncer (\<^verbatim>\<open>xds/discovery.go\<close>), which merges those that arrive close together. A full
  push replaces the configuration snapshot (\<^verbatim>\<open>model/config_snapshot.go\<close>, \<^verbatim>\<open>model/config_state.go\<close>) and
  drops entries of the resource cache (\<^verbatim>\<open>model/xds_cache.go\<close>, \<^verbatim>\<open>model/typed_xds_cache.go\<close>). The request
  is then put into the push queue (\<^verbatim>\<open>xds/pushqueue.go\<close>) for every connection, which merges requests
  for a connection that is waiting or being served. A connection handles requests of its client and
  push events, each of which generates resources and sends responses, in the state-of-the-world
  protocol (\<^verbatim>\<open>xds/ads.go\<close>, \<^verbatim>\<open>xds/xdsgen.go\<close>, \<^verbatim>\<open>pkg/xds/server.go\<close>) or the incremental one
  (\<^verbatim>\<open>xds/delta.go\<close>).

  \<^bold>\<open>The theories.\<close>
  \<^item> \<^verbatim>\<open>Prelude\<close>: Go strings, numbers, panics, times, and loops over maps; \<^verbatim>\<open>GoSets\<close>: \<^verbatim>\<open>pkg/util/sets\<close>.
  \<^item> \<^verbatim>\<open>HostNames\<close>: \<^verbatim>\<open>pkg/config/host/name.go\<close> and cluster names (\<^verbatim>\<open>model/service.go\<close>). Matching decides
    overlap and inclusion of sets of hosts, cluster names are parsed back, the two parsers agree.
  \<^item> \<^verbatim>\<open>PushRequest\<close>: reasons, configuration keys, and the merge of push requests, which loses nothing
    and does not depend on grouping.
  \<^item> \<^verbatim>\<open>PushQueue\<close>: the queue with its condition variable and runs of concurrent callers: nothing is
    lost, nothing is served twice at once, order, wake-ups and shutdown.
  \<^item> \<^verbatim>\<open>Debounce\<close>: the loop of the debouncer with its timer: a push carries exactly the updates of its
    window, every update is accounted for, and a pending window can always be pushed.
  \<^item> \<^verbatim>\<open>Configs\<close>, \<^verbatim>\<open>XdsCache\<close>, \<^verbatim>\<open>CacheImpl\<close>: keys and their hashes, the LRU cache with its index of
    configurations, and the cache of four resource types. The locale \<^verbatim>\<open>typed_cache\<close> states what the
    latter relies on; it is interpreted for the LRU cache, the disabled cache and their dispatch.
    A cleared configuration is never served from an older entry.
  \<^item> \<^verbatim>\<open>Services\<close>, \<^verbatim>\<open>Endpoints\<close>: services, endpoints and the endpoint index: what an update stores, and
    that it asks for a push whenever something a client could use has changed.
  \<^item> \<^verbatim>\<open>Policies\<close>, \<^verbatim>\<open>Snapshot\<close>: configuration objects, authentication policies (\<^verbatim>\<open>model/authentication.go\<close>)
    and the configuration snapshot. The mutual TLS mode is the intended one, aliases, visibility and
    routes are characterised, and updating a snapshot agrees with building it from scratch.
  \<^item> \<^verbatim>\<open>Watched\<close>, \<^verbatim>\<open>Connections\<close>, \<^verbatim>\<open>Delta\<close>, \<^verbatim>\<open>PushXds\<close>, \<^verbatim>\<open>Sessions\<close>: watches and acknowledgements,
    authentication (\<^verbatim>\<open>xds/auth.go\<close>), connections, and the handlers of both protocols. \<^verbatim>\<open>Sessions\<close> is about
    whole sessions: responses are only sent while authorized, watches stay well typed, the handlers
    return, gRPC clients get what they asked for, and sent clusters have their endpoints watched.

  \<^bold>\<open>Conventions.\<close> A struct is a record with prefixed fields, a map is a finite map, a set that may be
  \<^verbatim>\<open>nil\<close> is an optional finite set, a pointer that may be \<^verbatim>\<open>nil\<close> is an option. A panic is the left
  summand of \<open>panic + 'a\<close>, an error a value of \<open>err\<close>. A loop whose order over a map matters takes
  that order as an argument. Locks are not modelled: each operation that runs under a lock is one
  step. Times are integers in nanoseconds, 32-bit and 64-bit unsigned numbers are words. Third-party
  code is a parameter: the LRU store, hash and digest functions, protocol buffer encodings, resource
  generators, authenticators, the gateway controller, clocks and random identifiers.

  \<^bold>\<open>Fuel.\<close> A push of listeners pushes clusters and routes, and nothing else recurses: \<^verbatim>\<open>pushXds_fuel\<close>
  with fuel two always returns, which is proved (\<^verbatim>\<open>pushXds_returns\<close>). All other functions are total; the search
  for the end of a chain of aliases terminates because every step visits a new name.

  \<^bold>\<open>Not modelled.\<close> Kubernetes clients, informers and the \<^verbatim>\<open>krt\<close> collections (\<^verbatim>\<open>pkg/kube\<close>), the generated
  configuration client, the start-up of the server (\<^verbatim>\<open>dubbod/discovery/pkg/bootstrap\<close>), webhooks and
  injection, the gateway deployment controller, the certificate authority and the node agent
  (\<^verbatim>\<open>dubbod/security\<close>), the command line tools, the operator and logging: they are input and output,
  generated code, or thin layers over third-party libraries.
\<close>

end
